(* ===== verification/GoPrelude.thy ===== *)
theory GoPrelude
  imports Main "HOL-Library.Word" "HOL-Library.AList" "HOL-Library.Multiset"
begin

text \<open>
  What the Go code of every component shares: the outcome of a Go call (a value, a returned
  error or a run-time panic), bounds-checked slices, truncating division, loops that stop at
  the first error or panic, Go maps as association lists with an unspecified iteration
  order, and the 32-bit integers of the custom resources.
\<close>

section \<open>Rule collections\<close>

named_theorems go_simps \<open>equations of the outcome type and its loops\<close>
named_theorems go_elims \<open>elimination rules for successful outcomes\<close>

section \<open>Outcomes of a Go call\<close>

text \<open>
  A Go function that returns \<^verbatim>\<open>(T, error)\<close> either returns a value, returns an error (kept
  as its message) or panics. A panic is never recovered anywhere in the program, so it ends
  the process; \<open>StackOverflow\<close> is the fatal error of an unbounded recursion, \<open>ProcessExit\<close> a
  call of \<^verbatim>\<open>Fatalf\<close> or \<^verbatim>\<open>os.Exit\<close>.
\<close>

datatype go_panic = IndexOutOfRange | NilDereference | DivideByZero | StackOverflow | ProcessExit
  | TypeAssertion | CloseOfClosed | NilMapWrite | PanicError string

datatype 'a go = Ok 'a | Err string | Panic go_panic

fun go_bind :: "'a go \<Rightarrow> ('a \<Rightarrow> 'b go) \<Rightarrow> 'b go" where
  "go_bind (Ok x) f = f x"
| "go_bind (Err e) f = Err e"
| "go_bind (Panic p) f = Panic p"

fun go_map :: "('a \<Rightarrow> 'b) \<Rightarrow> 'a go \<Rightarrow> 'b go" where
  "go_map f (Ok x) = Ok (f x)"
| "go_map f (Err e) = Err e"
| "go_map f (Panic p) = Panic p"

text \<open>\<^verbatim>\<open>fmt.Errorf("...: %v", err)\<close>: an error is replaced by a message built from it.\<close>

fun go_wrap :: "(string \<Rightarrow> string) \<Rightarrow> 'a go \<Rightarrow> 'a go" where
  "go_wrap f (Ok x) = Ok x"
| "go_wrap f (Err e) = Err (f e)"
| "go_wrap f (Panic p) = Panic p"

fun go_is_panic :: "'a go \<Rightarrow> bool" where
  "go_is_panic (Panic p) = True"
| "go_is_panic _ = False"

fun go_is_ok :: "'a go \<Rightarrow> bool" where
  "go_is_ok (Ok x) = True"
| "go_is_ok _ = False"

lemma go_bind_cong [fundef_cong]:
  "m = m' \<Longrightarrow> (\<And>x. m' = Ok x \<Longrightarrow> f x = g x) \<Longrightarrow> go_bind m f = go_bind m' g"
  by (cases m') auto

lemma go_bind_eq_Ok [go_simps]:
  "go_bind m f = Ok y \<longleftrightarrow> (\<exists>x. m = Ok x \<and> f x = Ok y)"
  by (cases m) auto

lemma go_bind_eq_Panic:
  "go_bind m f = Panic p \<longleftrightarrow> m = Panic p \<or> (\<exists>x. m = Ok x \<and> f x = Panic p)"
  by (cases m) auto

lemma go_bind_eq_Err:
  "go_bind m f = Err e \<longleftrightarrow> m = Err e \<or> (\<exists>x. m = Ok x \<and> f x = Err e)"
  by (cases m) auto

lemma go_bind_assoc: "go_bind (go_bind m f) g = go_bind m (\<lambda>x. go_bind (f x) g)"
  by (cases m) auto

lemma go_bind_Ok_right [simp]: "go_bind m Ok = m"
  by (cases m) auto

lemma go_map_eq_Ok [go_simps]: "go_map f m = Ok y \<longleftrightarrow> (\<exists>x. m = Ok x \<and> y = f x)"
  by (cases m) auto

lemma go_wrap_eq_Ok [go_simps]: "go_wrap f m = Ok y \<longleftrightarrow> m = Ok y"
  by (cases m) auto

lemma go_is_ok_iff: "go_is_ok m \<longleftrightarrow> (\<exists>x. m = Ok x)"
  by (cases m) auto

lemma go_bind_OkE [go_elims, elim?]:
  assumes "go_bind m f = Ok y"
  obtains x where "m = Ok x" and "f x = Ok y"
  using assms by (auto simp: go_simps)

section \<open>Slices and division\<close>

text \<open>
  A read or write of a slice or array outside its length panics. Indices are Go
  \<^verbatim>\<open>int\<close>s; every index of the program is a loop counter or a value bounded by a length, far
  below the 64-bit limit, so they are unbounded integers here.
\<close>

definition go_nth :: "'a list \<Rightarrow> int \<Rightarrow> 'a go" where
  "go_nth xs i =
     (if 0 \<le> i \<and> i < int (length xs) then Ok (xs ! nat i) else Panic IndexOutOfRange)"

definition go_set :: "'a list \<Rightarrow> int \<Rightarrow> 'a \<Rightarrow> 'a list go" where
  "go_set xs i v =
     (if 0 \<le> i \<and> i < int (length xs) then Ok (xs[nat i := v]) else Panic IndexOutOfRange)"

lemma go_nth_nat [simp]:
  "go_nth xs (int n) = (if n < length xs then Ok (xs ! n) else Panic IndexOutOfRange)"
  by (simp add: go_nth_def)

lemma go_nth_Ok_iff: "go_nth xs i = Ok x \<longleftrightarrow> 0 \<le> i \<and> nat i < length xs \<and> xs ! nat i = x"
  by (auto simp: go_nth_def nat_less_iff)

lemma go_set_nat [simp]:
  "go_set xs (int n) v = (if n < length xs then Ok (xs[n := v]) else Panic IndexOutOfRange)"
  by (simp add: go_set_def)

text \<open>Go's \<^verbatim>\<open>/\<close> and \<^verbatim>\<open>%\<close> truncate towards zero and panic on a zero divisor.\<close>

definition go_quot :: "int \<Rightarrow> int \<Rightarrow> int" where
  "go_quot a b = sgn a * sgn b * (\<bar>a\<bar> div \<bar>b\<bar>)"

definition go_div :: "int \<Rightarrow> int \<Rightarrow> int go" where
  "go_div a b = (if b = 0 then Panic DivideByZero else Ok (go_quot a b))"

definition go_mod :: "int \<Rightarrow> int \<Rightarrow> int go" where
  "go_mod a b = (if b = 0 then Panic DivideByZero else Ok (a - b * go_quot a b))"

lemma go_quot_nonneg: "0 \<le> a \<Longrightarrow> 0 < b \<Longrightarrow> go_quot a b = a div b"
  by (cases "a = 0") (auto simp: go_quot_def)

lemma go_div_nonneg: "0 \<le> a \<Longrightarrow> 0 < b \<Longrightarrow> go_div a b = Ok (a div b)"
  by (simp add: go_div_def go_quot_nonneg)

lemma go_mod_nonneg: "0 \<le> a \<Longrightarrow> 0 < b \<Longrightarrow> go_mod a b = Ok (a mod b)"
  by (simp add: go_mod_def go_quot_nonneg minus_mult_div_eq_mod)

section \<open>Loops\<close>

text \<open>
  \<^verbatim>\<open>for _, x := range xs { body }\<close> over a state, left at the first error or panic.
\<close>

fun go_for :: "('a \<Rightarrow> 's \<Rightarrow> 's go) \<Rightarrow> 'a list \<Rightarrow> 's \<Rightarrow> 's go" where
  "go_for body [] s = Ok s"
| "go_for body (x # xs) s = go_bind (body x s) (go_for body xs)"

lemma go_for_cong [fundef_cong]:
  "xs = ys \<Longrightarrow> s = t \<Longrightarrow> (\<And>x u. x \<in> set ys \<Longrightarrow> f x u = g x u) \<Longrightarrow>
   go_for f xs s = go_for g ys t"
proof -
  assume eq: "xs = ys" "s = t" and fg: "\<And>x u. x \<in> set ys \<Longrightarrow> f x u = g x u"
  from fg have "go_for f ys t = go_for g ys t"
    by (induction ys arbitrary: t) (auto intro: go_bind_cong)
  with eq show ?thesis by simp
qed

lemma go_for_append:
  "go_for body (xs @ ys) s = go_bind (go_for body xs s) (go_for body ys)"
  by (induction xs arbitrary: s) (auto simp: go_bind_assoc intro: go_bind_cong)

text \<open>An invariant that every iteration keeps holds after the loop, which then cannot panic.\<close>

lemma go_for_invariant:
  assumes "P s"
    and "\<And>x s. x \<in> set xs \<Longrightarrow> P s \<Longrightarrow> \<exists>s'. body x s = Ok s' \<and> P s'"
  shows "\<exists>s'. go_for body xs s = Ok s' \<and> P s'"
  using assms
proof (induction xs arbitrary: s)
  case Nil
  then show ?case by simp
next
  case (Cons x xs)
  then obtain s1 where "body x s = Ok s1" "P s1" by fastforce
  with Cons show ?case by simp
qed

lemma go_for_Ok_invariant:
  assumes "go_for body xs s = Ok s'" and "P s"
    and "\<And>x s s'. x \<in> set xs \<Longrightarrow> P s \<Longrightarrow> body x s = Ok s' \<Longrightarrow> P s'"
  shows "P s'"
  using assms
proof (induction xs arbitrary: s)
  case Nil
  then show ?case by simp
next
  case (Cons x xs)
  from Cons.prems(1) obtain s1 where s1: "body x s = Ok s1" "go_for body xs s1 = Ok s'"
    by (auto simp: go_simps)
  have "P s1" using Cons.prems(2,3) s1(1) by (meson list.set_intros(1))
  then show ?case using Cons.IH [OF s1(2)] Cons.prems(3) by (meson list.set_intros(2))
qed

lemma go_for_pure: "go_for (\<lambda>x s. Ok (f x s)) xs s = Ok (fold f xs s)"
  by (induction xs arbitrary: s) auto

section \<open>Go maps\<close>

text \<open>
  A Go map is an association list without duplicate keys, updated with \<open>AList.update\<close>. The
  order in which \<^verbatim>\<open>range\<close> visits a map is unspecified and differs from run to run: a
  function that ranges over a map takes the order as an argument, a function that permutes
  the entries.
\<close>

type_synonym ('k, 'v) go_map = "('k \<times> 'v) list"

definition range_order :: "(('k \<times> 'v) list \<Rightarrow> ('k \<times> 'v) list) \<Rightarrow> bool" where
  "range_order order \<longleftrightarrow> (\<forall>m. mset (order m) = mset m)"

lemma range_order_set: "range_order order \<Longrightarrow> set (order m) = set m"
  by (metis range_order_def set_mset_mset)

lemma range_order_length: "range_order order \<Longrightarrow> length (order m) = length m"
  by (metis range_order_def size_mset)

lemma range_order_distinct: "range_order order \<Longrightarrow> distinct (order m) = distinct m"
  by (metis range_order_def mset_eq_imp_distinct_iff)

lemma range_order_keys:
  "range_order order \<Longrightarrow> distinct (map fst m) \<Longrightarrow> distinct (map fst (order m))"
  by (metis mset_eq_imp_distinct_iff mset_map range_order_def)

lemma range_order_id [simp]: "range_order id"
  by (simp add: range_order_def)

lemma range_order_rev [simp]: "range_order rev"
  by (simp add: range_order_def)

section \<open>32-bit integers\<close>

text \<open>
  \<^verbatim>\<open>int32(x)\<close> keeps the low 32 bits; read back as an \<^verbatim>\<open>int\<close> it is the two's
  complement value.
\<close>

type_synonym int32 = "32 word"

definition to_int32 :: "int \<Rightarrow> int32" where
  "to_int32 x = word_of_int x"

definition of_int32 :: "int32 \<Rightarrow> int" where
  "of_int32 w = sint w"

lemma of_to_int32:
  assumes "- (2 ^ 31) \<le> x" and "x < 2 ^ 31"
  shows "of_int32 (to_int32 x) = x"
proof -
  have "signed_take_bit 31 x = x"
    using assms by (simp add: signed_take_bit_int_eq_self_iff)
  then show ?thesis by (simp add: of_int32_def to_int32_def sint_sbintrunc')
qed

lemma to_int32_0 [simp]: "to_int32 0 = 0"
  by (simp add: to_int32_def)

end
