(* ===== verification/GoStrings.thy ===== *)
theory GoStrings
  imports GoPrelude "HOL-Library.Sublist"
begin

text \<open>
  The functions of Go's packages \<^verbatim>\<open>strings\<close>, \<^verbatim>\<open>strconv\<close>,
  \<^verbatim>\<open>path/filepath\<close> and \<^verbatim>\<open>bufio\<close> that the program calls, on byte strings.
  Separators are single ASCII bytes in every call of \<^verbatim>\<open>Split\<close>; white space and case
  conversion are those of ASCII. The round trips at the end (split after join, parse after
  print) carry the text formats the components exchange: cpusets, schemata lines and paths.
\<close>

section \<open>Splitting and joining\<close>

fun split_on :: "(char \<Rightarrow> bool) \<Rightarrow> string \<Rightarrow> string list" where
  "split_on p [] = [[]]"
| "split_on p (c # cs) =
     (if p c then [] # split_on p cs
      else (case split_on p cs of [] \<Rightarrow> [[c]] | w # ws \<Rightarrow> (c # w) # ws))"

definition strings_Split :: "string \<Rightarrow> char \<Rightarrow> string list" where
  "strings_Split s sep = split_on (\<lambda>c. c = sep) s"

fun strings_Join :: "string list \<Rightarrow> string \<Rightarrow> string" where
  "strings_Join [] sep = []"
| "strings_Join [w] sep = w"
| "strings_Join (w # ws) sep = w @ sep @ strings_Join ws sep"

text \<open>\<^verbatim>\<open>strings.SplitN(s, sep, 2)\<close>: at most one cut, at the first separator.\<close>

definition strings_SplitN2 :: "string \<Rightarrow> char \<Rightarrow> string list" where
  "strings_SplitN2 s sep =
     (case dropWhile (\<lambda>c. c \<noteq> sep) s of
        [] \<Rightarrow> [s]
      | _ # rest \<Rightarrow> [takeWhile (\<lambda>c. c \<noteq> sep) s, rest])"

definition strings_HasPrefix :: "string \<Rightarrow> string \<Rightarrow> bool" where
  "strings_HasPrefix s p = prefix p s"

fun strings_Contains :: "string \<Rightarrow> string \<Rightarrow> bool" where
  "strings_Contains s t = (prefix t s \<or> (case s of [] \<Rightarrow> False | _ # cs \<Rightarrow> strings_Contains cs t))"

declare strings_Contains.simps [simp del]

text \<open>\<^verbatim>\<open>strings.Replace(s, "a", "b", -1)\<close> for one-byte strings.\<close>

definition strings_ReplaceAll :: "string \<Rightarrow> char \<Rightarrow> char \<Rightarrow> string" where
  "strings_ReplaceAll s old new = map (\<lambda>c. if c = old then new else c) s"

text \<open>
  \<^verbatim>\<open>strings.SplitAfter\<close>: the pieces keep the separator at their end. The recursion
  consumes the separator after each piece, so it needs a non-empty one (the program's is
  \<^verbatim>\<open>"://"\<close>).
\<close>

fun cut_after :: "string \<Rightarrow> string \<Rightarrow> (string \<times> string) option" where
  "cut_after sep s =
     (if prefix sep s then Some (sep, drop (length sep) s)
      else (case s of [] \<Rightarrow> None
            | c # cs \<Rightarrow> map_option (\<lambda>(a, b). (c # a, b)) (cut_after sep cs)))"

declare cut_after.simps [simp del]

lemma cut_after_Some: "cut_after sep s = Some (a, b) \<Longrightarrow> a @ b = s \<and> suffix sep a"
proof (induction s arbitrary: a b)
  case Nil
  then show ?case by (subst (asm) cut_after.simps) (auto split: if_splits)
next
  case (Cons c cs)
  show ?case
  proof (cases "prefix sep (c # cs)")
    case True
    with Cons.prems show ?thesis
      by (subst (asm) cut_after.simps) (auto simp: prefix_def)
  next
    case False
    with Cons.prems obtain a' where "cut_after sep cs = Some (a', b)" "a = c # a'"
      by (subst (asm) cut_after.simps) auto
    with Cons.IH show ?thesis by (auto simp: suffix_Cons)
  qed
qed

function strings_SplitAfter :: "string \<Rightarrow> string \<Rightarrow> string list" where
  "strings_SplitAfter s sep =
     (if sep = [] then map (\<lambda>c. [c]) s
      else (case cut_after sep s of None \<Rightarrow> [s]
            | Some (a, b) \<Rightarrow> a # strings_SplitAfter b sep))"
  by pat_completeness auto
termination
proof (relation "measure (\<lambda>(s, sep). length s)", simp)
  fix s sep :: string and ab a b
  assume "sep \<noteq> []" and "cut_after sep s = Some ab" and "(a, b) = ab"
  then have "a @ b = s" "suffix sep a" "sep \<noteq> []"
    using cut_after_Some [of sep s a b] by auto
  then have "length b < length s" by (auto simp: suffix_def)
  then show "((b, sep), s, sep) \<in> measure (\<lambda>(s, sep). length s)" by simp
qed

declare strings_SplitAfter.simps [simp del]

section \<open>White space and case\<close>

definition is_space :: "char \<Rightarrow> bool" where
  "is_space c \<longleftrightarrow> c \<in> {CHR 0x09, CHR 0x0A, CHR 0x0B, CHR 0x0C, CHR 0x0D, CHR '' ''}"

definition strings_TrimSpace :: "string \<Rightarrow> string" where
  "strings_TrimSpace s = rev (dropWhile is_space (rev (dropWhile is_space s)))"

definition strings_Fields :: "string \<Rightarrow> string list" where
  "strings_Fields s = filter (\<lambda>w. w \<noteq> []) (split_on is_space s)"

definition to_upper :: "char \<Rightarrow> char" where
  "to_upper c =
     (if 97 \<le> (of_char c :: nat) \<and> (of_char c :: nat) \<le> 122
      then char_of ((of_char c :: nat) - 32) else c)"

definition strings_ToUpper :: "string \<Rightarrow> string" where
  "strings_ToUpper s = map to_upper s"

text \<open>
  \<^verbatim>\<open>bufio.Scanner\<close> over the lines of a file: lines without their newline and one
  trailing carriage return, no empty last line. A line that does not fit the 64 KiB token
  buffer ends the scan; the flag is \<^verbatim>\<open>Err() != nil\<close>.
\<close>

definition drop_cr :: "string \<Rightarrow> string" where
  "drop_cr l = (if l \<noteq> [] \<and> last l = CHR 0x0D then butlast l else l)"

definition raw_lines :: "string \<Rightarrow> string list" where
  "raw_lines s =
     (let ls = strings_Split s (CHR 0x0A) in if last ls = [] then butlast ls else ls)"

definition scan_token_max :: int where
  "scan_token_max = 65535"

definition bufio_Scan :: "string \<Rightarrow> string list \<times> bool" where
  "bufio_Scan s =
     (let ls = raw_lines s; ok = takeWhile (\<lambda>l. int (length l) \<le> scan_token_max) ls
      in (map drop_cr ok, length ok < length ls))"

section \<open>Numbers\<close>

definition digit_char :: "nat \<Rightarrow> char" where
  "digit_char d = char_of (48 + d)"

fun nat_digits :: "nat \<Rightarrow> string" where
  "nat_digits n =
     (if n < 10 then [digit_char n] else nat_digits (n div 10) @ [digit_char (n mod 10)])"

declare nat_digits.simps [simp del]

definition strconv_Itoa :: "int \<Rightarrow> string" where
  "strconv_Itoa i =
     (if i < 0 then CHR ''-'' # nat_digits (nat (- i)) else nat_digits (nat i))"

definition digit_value :: "char \<Rightarrow> nat option" where
  "digit_value c =
     (if 48 \<le> (of_char c :: nat) \<and> (of_char c :: nat) \<le> 57
      then Some ((of_char c :: nat) - 48) else None)"

fun digits_value :: "string \<Rightarrow> nat \<Rightarrow> nat option" where
  "digits_value [] acc = Some acc"
| "digits_value (c # cs) acc =
     (case digit_value c of None \<Rightarrow> None | Some d \<Rightarrow> digits_value cs (10 * acc + d))"

text \<open>\<^verbatim>\<open>%q\<close> of a printable text without quotes and backslashes.\<close>

definition quoted :: "string \<Rightarrow> string" where
  "quoted s = [CHR 0x22] @ s @ [CHR 0x22]"

definition atoi_error :: "string \<Rightarrow> string \<Rightarrow> string" where
  "atoi_error s why = ''strconv.Atoi: parsing '' @ quoted s @ '': '' @ why"

text \<open>
  \<^verbatim>\<open>strconv.Atoi\<close>: an optional sign, then decimal digits; a value outside the 64-bit
  range is an error.
\<close>

definition strconv_Atoi :: "string \<Rightarrow> int go" where
  "strconv_Atoi s =
     (let neg = (s \<noteq> [] \<and> hd s = CHR ''-'');
          ds = (if s \<noteq> [] \<and> (hd s = CHR ''-'' \<or> hd s = CHR ''+'') then tl s else s)
      in if ds = [] then Err (atoi_error s ''invalid syntax'')
         else case digits_value ds 0 of
           None \<Rightarrow> Err (atoi_error s ''invalid syntax'')
         | Some n \<Rightarrow>
             let v = (if neg then - int n else int n)
             in if - (2 ^ 63) \<le> v \<and> v < 2 ^ 63 then Ok v
                else Err (atoi_error s ''value out of range''))"

section \<open>Paths\<close>

text \<open>
  \<^verbatim>\<open>filepath.Clean\<close> on Unix, by segments: empty and \<^verbatim>\<open>.\<close> segments go,
  \<^verbatim>\<open>..\<close> removes the segment before it (kept on the stack, last first).
\<close>

fun clean_segments :: "bool \<Rightarrow> string list \<Rightarrow> string list \<Rightarrow> string list" where
  "clean_segments rooted [] stack = rev stack"
| "clean_segments rooted (w # ws) stack =
     (if w = [] \<or> w = ''.'' then clean_segments rooted ws stack
      else if w = ''..'' then
        (case stack of
           [] \<Rightarrow> clean_segments rooted ws (if rooted then [] else [''..''])
         | t # ts \<Rightarrow> if t = ''..'' then clean_segments rooted ws (''..'' # stack)
                     else clean_segments rooted ws ts)
      else clean_segments rooted ws (w # stack))"

definition filepath_Clean :: "string \<Rightarrow> string" where
  "filepath_Clean s =
     (let rooted = (s \<noteq> [] \<and> hd s = CHR ''/'');
          segs = clean_segments rooted (strings_Split s (CHR ''/'')) []
      in if rooted then CHR ''/'' # strings_Join segs ''/''
         else if segs = [] then ''.'' else strings_Join segs ''/'')"

fun filepath_Join :: "string list \<Rightarrow> string" where
  "filepath_Join [] = []"
| "filepath_Join (w # ws) =
     (if w = [] then filepath_Join ws else filepath_Clean (strings_Join (w # ws) ''/''))"

section \<open>Splitting and joining are inverse\<close>

lemma split_on_not_Nil [simp]: "split_on p s \<noteq> []"
  by (induction s) (auto split: list.splits)

lemma strings_Split_not_Nil [simp]: "strings_Split s sep \<noteq> []"
  by (simp add: strings_Split_def)

lemma strings_Split_length: "1 \<le> length (strings_Split s sep)"
  using strings_Split_not_Nil by (metis One_nat_def Suc_leI length_greater_0_conv)

lemma split_on_pieces: "w \<in> set (split_on p s) \<Longrightarrow> c \<in> set w \<Longrightarrow> \<not> p c"
  by (induction s arbitrary: w) (fastforce split: list.splits if_splits)+

lemma split_on_none: "(\<And>c. c \<in> set s \<Longrightarrow> \<not> p c) \<Longrightarrow> split_on p s = [s]"
  by (induction s) auto

lemma split_on_append_sep:
  "(\<And>c. c \<in> set w \<Longrightarrow> \<not> p c) \<Longrightarrow> p c \<Longrightarrow> split_on p (w @ c # s) = w # split_on p s"
  by (induction w) auto

lemma strings_Join_Cons:
  "strings_Join (w # ws) sep = (if ws = [] then w else w @ sep @ strings_Join ws sep)"
  by (cases ws) auto

lemma strings_Split_Join:
  assumes "ws \<noteq> []" and "\<And>w. w \<in> set ws \<Longrightarrow> sep \<notin> set w"
  shows "strings_Split (strings_Join ws [sep]) sep = ws"
  using assms
proof (induction ws rule: list_nonempty_induct)
  case (single w)
  then show ?case by (auto simp: strings_Split_def intro!: split_on_none)
next
  case (cons w ws)
  then have "strings_Split (strings_Join ws [sep]) sep = ws" by simp
  moreover have "sep \<notin> set w" using cons.prems by simp
  moreover from this have
    "split_on (\<lambda>c. c = sep) (w @ sep # strings_Join ws [sep])
       = w # split_on (\<lambda>c. c = sep) (strings_Join ws [sep])"
    by (intro split_on_append_sep) auto
  ultimately show ?case
    using cons.hyps by (simp add: strings_Split_def strings_Join_Cons)
qed

lemma strings_Join_Split: "strings_Join (strings_Split s sep) [sep] = s"
proof (induction s)
  case Nil
  then show ?case by (simp add: strings_Split_def)
next
  case (Cons c cs)
  let ?ws = "strings_Split cs sep"
  obtain w ws where ws: "?ws = w # ws"
    using strings_Split_not_Nil by (meson neq_Nil_conv)
  have "strings_Split (c # cs) sep = (if c = sep then [] # w # ws else (c # w) # ws)"
    using ws by (simp add: strings_Split_def)
  with Cons ws show ?case by (auto simp: strings_Join_Cons split: if_splits)
qed

lemma strings_Join_chars:
  "set (strings_Join ws sep) \<subseteq> (\<Union>w \<in> set ws. set w) \<union> set sep"
  by (induction ws sep rule: strings_Join.induct) auto

section \<open>Parsing after printing\<close>

lemma of_digit_char: "d < 10 \<Longrightarrow> (of_char (digit_char d) :: nat) = 48 + d"
  by (simp add: digit_char_def)

lemma digit_value_digit_char [simp]: "d < 10 \<Longrightarrow> digit_value (digit_char d) = Some d"
  by (simp add: digit_value_def of_digit_char)

lemma digits_value_append:
  "digits_value (s @ t) acc =
     (case digits_value s acc of None \<Rightarrow> None | Some n \<Rightarrow> digits_value t n)"
  by (induction s arbitrary: acc) (auto split: option.splits)

lemma digits_value_nat_digits: "digits_value (nat_digits n) 0 = Some n"
proof (induction n rule: nat_digits.induct)
  case (1 n)
  show ?case
  proof (cases "n < 10")
    case True
    then show ?thesis by (simp add: nat_digits.simps [of n])
  next
    case False
    with 1 show ?thesis by (simp add: nat_digits.simps [of n] digits_value_append)
  qed
qed

definition is_digit :: "char \<Rightarrow> bool" where
  "is_digit c \<longleftrightarrow> digit_value c \<noteq> None"

lemma nat_digits_digits: "c \<in> set (nat_digits n) \<Longrightarrow> is_digit c"
proof (induction n rule: nat_digits.induct)
  case (1 n)
  show ?case
  proof (cases "n < 10")
    case True
    with 1 show ?thesis by (simp add: nat_digits.simps [of n] is_digit_def)
  next
    case False
    with 1 show ?thesis by (auto simp: nat_digits.simps [of n] is_digit_def)
  qed
qed

lemma nat_digits_not_Nil [simp]: "nat_digits n \<noteq> []"
  by (subst nat_digits.simps) simp

lemma special_not_digit [simp]:
  "\<not> is_digit (CHR ''-'')" "\<not> is_digit (CHR ''+'')" "\<not> is_digit (CHR '','')"
  "\<not> is_digit (CHR '';'')" "\<not> is_digit (CHR ''='')" "\<not> is_digit (CHR '':'')"
  "\<not> is_digit (CHR 0x0A)" "\<not> is_digit (CHR 0x0D)"
  by (simp_all add: is_digit_def digit_value_def)

lemma hd_nat_digits: "is_digit (hd (nat_digits n))"
  using nat_digits_digits [of "hd (nat_digits n)" n] by simp

lemma strconv_Atoi_Itoa:
  assumes "- (2 ^ 63) \<le> i" and "i < 2 ^ 63"
  shows "strconv_Atoi (strconv_Itoa i) = Ok i"
proof (cases "i < 0")
  case True
  with assms show ?thesis
    by (simp add: strconv_Atoi_def strconv_Itoa_def digits_value_nat_digits)
next
  case False
  have "hd (nat_digits (nat i)) \<noteq> CHR ''-''" "hd (nat_digits (nat i)) \<noteq> CHR ''+''"
    using hd_nat_digits [of "nat i"] by (metis special_not_digit(1), metis special_not_digit(2))
  with False assms show ?thesis
    by (auto simp: strconv_Atoi_def strconv_Itoa_def digits_value_nat_digits)
qed

lemma strconv_Itoa_chars: "c \<in> set (strconv_Itoa i) \<Longrightarrow> is_digit c \<or> c = CHR ''-''"
  by (auto simp: strconv_Itoa_def dest: nat_digits_digits split: if_splits)

lemma strconv_Itoa_no_sep:
  "c \<in> {CHR '','', CHR '';'', CHR ''='', CHR '':'', CHR 0x0A, CHR 0x0D} \<Longrightarrow>
   c \<notin> set (strconv_Itoa i)"
  using strconv_Itoa_chars [of c i] by auto

lemma strconv_Itoa_not_Nil [simp]: "strconv_Itoa i \<noteq> []"
  by (simp add: strconv_Itoa_def)

lemma nat_digits_inj: "nat_digits m = nat_digits n \<Longrightarrow> m = n"
  by (metis digits_value_nat_digits option.inject)

lemma nat_digits_unsigned: "nat_digits n \<noteq> CHR ''-'' # ds"
  using hd_nat_digits [of n] by auto

lemma strconv_Itoa_inj: "strconv_Itoa i = strconv_Itoa j \<longleftrightarrow> i = j"
  using nat_digits_inj [of "nat i" "nat j"] nat_digits_inj [of "nat (- i)" "nat (- j)"]
    nat_digits_unsigned nat_digits_unsigned [symmetric]
  by (auto simp: strconv_Itoa_def)

end
