(* ===== verification/ApiTypes.thy ===== *)
theory ApiTypes
  imports GoStrings
begin

text \<open>
  The data the components exchange: the Oenuma and Whitelist custom resources
  (\<open>pkg/apis/resaware/v1alpha1\<close>), the messages of the affinity service
  (\<open>pkg/podAffinityServer/proto/podaffinity.proto\<close>), and the fields of the Kubernetes pod
  objects that the code reads. A nil slice and an empty one are the same list: every slice of
  these types is marked \<^verbatim>\<open>omitempty\<close> or only ranged over.
\<close>

section \<open>The Oenuma resource\<close>

record container =
  ctr_id :: string
  ctr_name :: string
  ctr_cpuset :: string
  ctr_memset :: string

record pod_affinity =
  pa_numa :: int32
  pa_pod :: string
  pa_ns :: string
  pa_containers :: "container list"

record numa =
  numa_num :: int32
  numa_cpuset :: string
  numa_memset :: string

record node =
  node_name :: string
  node_numa :: "numa list"
  node_affinity :: "pod_affinity list"

record oenuma_spec =
  spec_name :: string
  spec_replicas :: int32
  spec_node :: "node list"
  spec_update :: string

text \<open>Of the object metadata the program reads and writes only name and namespace.\<close>

record object_meta =
  om_name :: string
  om_namespace :: string

record oenuma =
  oe_meta :: object_meta
  oe_spec :: oenuma_spec

section \<open>The Whitelist resource\<close>

record target_pod =
  tp_ns :: string
  tp_names :: "string list"

record whitelist_spec =
  wl_name :: string
  wl_effective :: bool
  wl_targets :: "target_pod list"

record whitelist =
  wl_meta :: object_meta
  wl_spec :: whitelist_spec

section \<open>Messages of the affinity service\<close>

text \<open>\<^verbatim>\<open>int64\<close> fields hold NUMA node numbers, below 1024; they are unbounded here.\<close>

record pb_pod =
  pb_containerdIDs :: "string list"
  pb_uid :: string
  pb_podName :: string
  pb_podNamespace :: string

record pb_numa_node =
  pbn_number :: int
  pbn_cpuset :: string
  pbn_memset :: string

record pb_numa_info =
  pbi_valid :: bool
  pbi_nodes :: "pb_numa_node list"

record pb_affinity_group =
  pbg_number :: int
  pbg_pods :: "pb_pod list"

section \<open>Kubernetes pods\<close>

text \<open>
  \<open>kc_cpus\<close> is the integer of \<^verbatim>\<open>Resources.Requests.Cpu().AsInt64()\<close>, which is 0 for a
  quantity that is not a whole number; the code drops the flag that says so.
\<close>

record k8s_container =
  kc_name :: string
  kc_cpus :: int

record container_status =
  cs_name :: string
  cs_id :: string

record k8s_pod =
  kp_name :: string
  kp_ns :: string
  kp_uid :: string
  kp_labels :: "(string, string) go_map option"
  kp_qos :: string
  kp_containers :: "k8s_container list"
  kp_statuses :: "container_status list"

text \<open>
  The container ID of a named container: the loop over \<^verbatim>\<open>ContainerStatuses\<close> stops at the
  first match and leaves the empty string when there is none.
\<close>

fun status_id :: "container_status list \<Rightarrow> string \<Rightarrow> string" where
  "status_id [] name = []"
| "status_id (c # cs) name = (if cs_name c = name then cs_id c else status_id cs name)"

lemma status_id_mem: "status_id cs name \<noteq> [] \<Longrightarrow>
  \<exists>c \<in> set cs. cs_name c = name \<and> cs_id c = status_id cs name"
  by (induction cs) auto

end
