(* ===== verification/UnionFind.thy ===== *)
theory UnionFind
  imports GoPrelude
begin

text \<open>
  The union-find array of the affinity servers (\<open>cmd/grpcServer/main.go\<close> and, with the same
  text, \<open>cmd/netRelaServer/main.go\<close>): the global \<^verbatim>\<open>fa [1024]int\<close> with
  \<open>init_unionFindSet\<close>, \<open>find\<close> (path compression by recursion) and \<open>join\<close>. The
  interface both grouping loops rely on is the locale \<open>disjoint_sets\<close>; the array implements
  it. The array is global and never cleared beyond the pods of the request, so its invariant
  also covers what earlier requests left behind.
\<close>

section \<open>The interface of a partition\<close>

text \<open>
  What a client of union-find relies on: every element has a representative, \<open>find\<close> returns
  it and moves no element, \<open>join\<close> merges two classes and no others, \<open>reset\<close> makes the
  first elements singletons.
\<close>

locale disjoint_sets =
  fixes size_of :: "'st \<Rightarrow> nat"
    and inv_of :: "'st \<Rightarrow> bool"
    and rep :: "'st \<Rightarrow> nat \<Rightarrow> nat"
    and reset :: "'st \<Rightarrow> nat \<Rightarrow> 'st go"
    and find :: "'st \<Rightarrow> nat \<Rightarrow> (nat \<times> 'st) go"
    and join :: "'st \<Rightarrow> nat \<Rightarrow> nat \<Rightarrow> 'st go"
  assumes find_ok:
      "inv_of s \<Longrightarrow> x < size_of s \<Longrightarrow>
       \<exists>s'. find s x = Ok (rep s x, s') \<and> inv_of s' \<and> size_of s' = size_of s
            \<and> (\<forall>y < size_of s. rep s' y = rep s y)"
    and join_ok:
      "inv_of s \<Longrightarrow> x < size_of s \<Longrightarrow> y < size_of s \<Longrightarrow>
       \<exists>s'. join s x y = Ok s' \<and> inv_of s' \<and> size_of s' = size_of s
            \<and> (\<forall>z < size_of s. rep s' z = (if rep s z = rep s x then rep s y else rep s z))"
    and reset_ok:
      "inv_of s \<Longrightarrow> n < size_of s \<Longrightarrow>
       \<exists>s'. reset s n = Ok s' \<and> inv_of s' \<and> size_of s' = size_of s \<and> (\<forall>i \<le> n. rep s' i = i)"

text \<open>The symmetric, reflexive and transitive closure of a set of pairs.\<close>

definition connected :: "('a \<times> 'a) set \<Rightarrow> 'a \<Rightarrow> 'a \<Rightarrow> bool" where
  "connected E x y \<longleftrightarrow> (x, y) \<in> (E \<union> E\<inverse>)\<^sup>*"

lemma connected_refl [simp]: "connected E x x"
  by (simp add: connected_def)

lemma connected_trans: "connected E x y \<Longrightarrow> connected E y z \<Longrightarrow> connected E x z"
  by (simp add: connected_def)

lemma connected_sym: "connected E x y \<Longrightarrow> connected E y x"
proof -
  have "sym ((E \<union> E\<inverse>)\<^sup>*)" by (intro sym_rtrancl) (auto simp: sym_def)
  then show "connected E x y \<Longrightarrow> connected E y x" by (auto simp: connected_def dest: symD)
qed

lemma connected_edge: "(x, y) \<in> E \<Longrightarrow> connected E x y"
  by (auto simp: connected_def)

lemma connected_mono: "E \<subseteq> F \<Longrightarrow> connected E x y \<Longrightarrow> connected F x y"
  unfolding connected_def by (meson Un_mono converse_mono rtrancl_mono subsetD)

lemma connected_empty [simp]: "connected {} x y \<longleftrightarrow> x = y"
  by (auto simp: connected_def)

text \<open>One more edge joins exactly the two classes of its ends.\<close>

lemma connected_insert:
  "connected (insert (i, j) E) x y \<longleftrightarrow>
     connected E x y \<or> (connected E x i \<and> connected E j y) \<or> (connected E x j \<and> connected E i y)"
    (is "_ \<longleftrightarrow> ?R x y")
proof
  assume "connected (insert (i, j) E) x y"
  then have "(x, y) \<in> (insert (i, j) E \<union> (insert (i, j) E)\<inverse>)\<^sup>*" by (simp add: connected_def)
  then show "?R x y"
  proof (induction rule: rtrancl_induct)
    case base
    then show ?case by simp
  next
    case (step y z)
    then consider "(y, z) = (i, j)" | "(y, z) = (j, i)" | "(y, z) \<in> E \<union> E\<inverse>" by auto
    then show ?case
    proof cases
      case 3
      then have "connected E y z" by (auto simp: connected_def)
      with step.IH show ?thesis by (meson connected_trans)
    qed (use step.IH in \<open>auto intro: connected_trans connected_sym\<close>)
  qed
next
  have ij: "connected (insert (i, j) E) i j" by (intro connected_edge) simp
  have E: "connected E a b \<Longrightarrow> connected (insert (i, j) E) a b" for a b
    by (rule connected_mono) auto
  assume "?R x y"
  then show "connected (insert (i, j) E) x y"
    by (meson E ij connected_sym connected_trans)
qed

lemma connected_within:
  assumes "E \<subseteq> A \<times> A" and "connected E x y"
  shows "x = y \<or> x \<in> A \<and> y \<in> A"
  using assms(2) unfolding connected_def
  by (induction rule: rtrancl_induct) (use assms(1) in auto)

context disjoint_sets
begin

text \<open>
  A loop that joins the pairs that satisfy a test leaves the connected components of the
  tested pairs as the classes.
\<close>

lemma join_loop_aux:
  assumes "inv_of s" and "n \<le> size_of s"
    and "\<And>i j. (i, j) \<in> set ps \<Longrightarrow> i < n \<and> j < n"
    and "E \<subseteq> {..<n} \<times> {..<n}"
    and "\<And>x y. x < n \<Longrightarrow> y < n \<Longrightarrow> rep s x = rep s y \<longleftrightarrow> connected E x y"
  shows "\<exists>s'. go_for (\<lambda>(i, j) s. if test i j then join s i j else Ok s) ps s = Ok s'
           \<and> inv_of s' \<and> size_of s' = size_of s
           \<and> (\<forall>x < n. \<forall>y < n. rep s' x = rep s' y \<longleftrightarrow>
                connected (E \<union> {(i, j) \<in> set ps. test i j}) x y)"
  using assms
proof (induction ps arbitrary: s E)
  case Nil
  then show ?case by simp
next
  case (Cons p ps)
  obtain i j where p: "p = (i, j)" by force
  have ij: "i < n" "j < n" using Cons.prems(3) p by auto
  show ?case
  proof (cases "test i j")
    case False
    then have "{(a, b) \<in> set (p # ps). test a b} = {(a, b) \<in> set ps. test a b}"
      using p by auto
    with False p Cons.IH [OF Cons.prems(1,2) _ Cons.prems(4,5)] Cons.prems(3)
    show ?thesis by auto
  next
    case True
    from join_ok [OF Cons.prems(1)] ij Cons.prems(2) obtain s1 where
      s1: "join s i j = Ok s1" "inv_of s1" "size_of s1 = size_of s"
        "\<And>z. z < size_of s \<Longrightarrow> rep s1 z = (if rep s z = rep s i then rep s j else rep s z)"
      by (meson order_less_le_trans)
    let ?E = "insert (i, j) E"
    have reps: "rep s1 x = rep s1 y \<longleftrightarrow> connected ?E x y" if "x < n" "y < n" for x y
    proof -
      have le: "x < size_of s" "y < size_of s" using that Cons.prems(2) by auto
      note R = Cons.prems(5)
      show ?thesis
        unfolding connected_insert
        using s1(4) [OF le(1)] s1(4) [OF le(2)] R [OF that] R [OF that(1) ij(1)]
          R [OF that(1) ij(2)] R [OF ij(1) that(2)] R [OF ij(2) that(2)]
        by (auto split: if_splits)
    qed
    have sub: "?E \<subseteq> {..<n} \<times> {..<n}" using Cons.prems(4) ij by auto
    have le1: "n \<le> size_of s1" using Cons.prems(2) s1(3) by simp
    have ps: "\<And>a b. (a, b) \<in> set ps \<Longrightarrow> a < n \<and> b < n"
      using Cons.prems(3) by (meson list.set_intros(2))
    from Cons.IH [OF s1(2) le1 ps sub reps] obtain s' where
      "go_for (\<lambda>(i, j) s. if test i j then join s i j else Ok s) ps s1 = Ok s'"
      "inv_of s'" "size_of s' = size_of s1"
      "\<forall>x < n. \<forall>y < n. rep s' x = rep s' y \<longleftrightarrow>
         connected (?E \<union> {(i, j) \<in> set ps. test i j}) x y"
      by blast
    moreover have "?E \<union> {(a, b) \<in> set ps. test a b} = E \<union> {(a, b) \<in> set (p # ps). test a b}"
      using True p by auto
    ultimately show ?thesis using True p s1 by auto
  qed
qed

lemma join_loop:
  assumes "inv_of s" and "n \<le> size_of s"
    and "\<And>i j. (i, j) \<in> set ps \<Longrightarrow> i < n \<and> j < n"
    and "\<And>x. x < n \<Longrightarrow> rep s x = x"
  shows "\<exists>s'. go_for (\<lambda>(i, j) s. if test i j then join s i j else Ok s) ps s = Ok s'
           \<and> inv_of s' \<and> size_of s' = size_of s
           \<and> (\<forall>x < n. \<forall>y < n. rep s' x = rep s' y \<longleftrightarrow>
                connected {(i, j) \<in> set ps. test i j} x y)"
  using join_loop_aux [OF assms(1-3), where E = "{}" and test = test] assms(4) by auto

text \<open>A loop of \<open>find\<close>s over a range of elements collects their representatives.\<close>

lemma find_loop:
  assumes "inv_of s" and "\<And>x. x \<in> set xs \<Longrightarrow> x < size_of s"
  shows "\<exists>s'. go_for (\<lambda>x (acc, s). go_bind (find s x) (\<lambda>(r, s1). Ok (f x r acc, s1))) xs (acc, s)
                = Ok (fold (\<lambda>x acc. f x (rep s x) acc) xs acc, s')
           \<and> inv_of s' \<and> size_of s' = size_of s \<and> (\<forall>y < size_of s. rep s' y = rep s y)"
  using assms
proof (induction xs arbitrary: s acc)
  case Nil
  then show ?case by simp
next
  case (Cons x xs)
  have xs: "x < size_of s" "\<And>y. y \<in> set xs \<Longrightarrow> y < size_of s" using Cons.prems(2) by auto
  from find_ok [OF Cons.prems(1) xs(1)] obtain s1 where
    s1: "find s x = Ok (rep s x, s1)" "inv_of s1" "size_of s1 = size_of s"
      "\<forall>y < size_of s. rep s1 y = rep s y"
    by blast
  have "fold (\<lambda>x. f x (rep s1 x)) xs a = fold (\<lambda>x. f x (rep s x)) xs a" for a
    using s1(4) xs(2) by (intro fold_cong) auto
  with Cons.IH [OF s1(2), of "f x (rep s x) acc"] s1 xs(2) show ?case by auto
qed

end

section \<open>The array\<close>

text \<open>
  \<^verbatim>\<open>find\<close> recurses along the parents. A Go stack that never ends is fatal, so running
  out of the fuel is \<open>StackOverflow\<close>; the fuel of \<open>uf_find\<close>, one more than the length of the
  array, is enough for every array without a cycle (\<open>rooted_depth\<close>), and more fuel never
  changes a result.
\<close>

fun uf_find_fuel :: "nat \<Rightarrow> nat list \<Rightarrow> nat \<Rightarrow> (nat \<times> nat list) go" where
  "uf_find_fuel 0 fa x = Panic StackOverflow"
| "uf_find_fuel (Suc k) fa x =
     (if length fa \<le> x then Panic IndexOutOfRange
      else if x \<noteq> fa ! x then
        go_bind (uf_find_fuel k fa (fa ! x))
          (\<lambda>(r, fa1). let fa2 = fa1[x := r] in Ok (fa2 ! x, fa2))
      else Ok (fa ! x, fa))"

definition uf_find :: "nat list \<Rightarrow> nat \<Rightarrow> (nat \<times> nat list) go" where
  "uf_find fa x = uf_find_fuel (Suc (length fa)) fa x"

definition uf_join :: "nat list \<Rightarrow> nat \<Rightarrow> nat \<Rightarrow> nat list go" where
  "uf_join fa x y =
     go_bind (uf_find fa x) (\<lambda>(rx, fa1).
     go_bind (uf_find fa1 y) (\<lambda>(ry, fa2).
       if rx \<noteq> ry then go_set fa2 (int rx) ry else Ok fa2))"

definition init_unionFindSet :: "nat list \<Rightarrow> nat \<Rightarrow> nat list go" where
  "init_unionFindSet fa n = go_for (\<lambda>i fa. go_set fa (int i) i) [0..<Suc n] fa"

text \<open>The array when the server starts: \<^verbatim>\<open>[1024]int\<close>, all zero.\<close>

definition fa_initial :: "nat list" where
  "fa_initial = replicate 1024 0"

section \<open>Roots\<close>

inductive rooted :: "nat list \<Rightarrow> nat \<Rightarrow> nat \<Rightarrow> nat \<Rightarrow> bool" for fa where
  root: "x < length fa \<Longrightarrow> fa ! x = x \<Longrightarrow> rooted fa 0 x x"
| step: "x < length fa \<Longrightarrow> fa ! x \<noteq> x \<Longrightarrow> rooted fa n (fa ! x) r \<Longrightarrow> rooted fa (Suc n) x r"

inductive_cases rooted_0E: "rooted fa 0 x r"
inductive_cases rooted_SucE: "rooted fa (Suc n) x r"
inductive_simps rooted_simps: "rooted fa n x r"

definition uf_inv :: "nat list \<Rightarrow> bool" where
  "uf_inv fa \<longleftrightarrow> (\<forall>x < length fa. \<exists>n r. rooted fa n x r)"

definition uf_rep :: "nat list \<Rightarrow> nat \<Rightarrow> nat" where
  "uf_rep fa x = (case uf_find fa x of Ok (r, _) \<Rightarrow> r | _ \<Rightarrow> x)"

lemma rooted_det: "rooted fa n x r \<Longrightarrow> rooted fa m x s \<Longrightarrow> n = m \<and> r = s"
proof (induction arbitrary: m s rule: rooted.induct)
  case (root x)
  from root.prems root.hyps(2) show ?case by (cases rule: rooted.cases) simp_all
next
  case (step x n r)
  from step.prems step.hyps(2) obtain m' where "m = Suc m'" "rooted fa m' (fa ! x) s"
    by (cases rule: rooted.cases) simp_all
  with step.IH show ?case by blast
qed

lemma rooted_root: "rooted fa n x r \<Longrightarrow> r < length fa \<and> fa ! r = r"
  by (induction rule: rooted.induct) auto

lemma rooted_less: "rooted fa n x r \<Longrightarrow> x < length fa"
  by (auto elim: rooted.cases)

lemma rooted_self: "rooted fa n x r \<Longrightarrow> rooted fa 0 r r"
  using rooted_root by (auto intro: rooted.root)

text \<open>Every depth up to that of a node occurs, so no depth reaches the length of the array.\<close>

lemma rooted_depths: "rooted fa n x r \<Longrightarrow> i \<le> n \<Longrightarrow> \<exists>y. rooted fa i y r"
proof (induction rule: rooted.induct)
  case (root x)
  then show ?case by (auto intro: rooted.root)
next
  case (step x n r)
  then show ?case by (cases "i = Suc n") (auto intro: rooted.step)
qed

lemma rooted_depth:
  assumes "rooted fa n x r"
  shows "n < length fa"
proof -
  obtain node where node: "\<And>i. i \<le> n \<Longrightarrow> rooted fa i (node i) r"
    using rooted_depths [OF assms] by metis
  have "inj_on node {..n}"
    by (intro inj_onI) (metis atMost_iff node rooted_det)
  moreover have "node ` {..n} \<subseteq> {..<length fa}"
    using node rooted_less by fastforce
  ultimately have "card {..n} \<le> card {..<length fa}"
    by (intro card_inj_on_le) auto
  then show ?thesis by simp
qed

section \<open>How the operations move roots\<close>

text \<open>Pointing a node at its root, linking two roots, making a node a root of its own.\<close>

lemma rooted_shortcut:
  assumes "rooted fa m x r" and "rooted fa k y s"
  shows "\<exists>k'. rooted (fa[x := r]) k' y s"
  using assms(2)
proof (induction rule: rooted.induct)
  case (root y)
  have "fa[x := r] ! y = y"
  proof (cases "y = x")
    case True
    with root have "rooted fa 0 x x" by (intro rooted.root) simp_all
    with assms(1) have "r = x" using rooted_det by blast
    with True root show ?thesis by simp
  next
    case False
    with root show ?thesis by simp
  qed
  with root have "rooted (fa[x := r]) 0 y y" by (intro rooted.root) simp_all
  then show ?case ..
next
  case (step y n s)
  show ?case
  proof (cases "y = x")
    case True
    have "s = r"
      using rooted_det [OF assms(1), of "Suc n" s] rooted.step [OF step.hyps(1,2,3)] True by simp
    moreover have "r \<noteq> x" using rooted_root [OF assms(1)] True step.hyps(2) by auto
    moreover have "rooted (fa[x := r]) 0 r r"
      using rooted_root [OF assms(1)] \<open>r \<noteq> x\<close> by (auto intro: rooted.root)
    ultimately have "rooted (fa[x := r]) (Suc 0) y s"
      using True step.hyps(1) by (intro rooted.step) simp_all
    then show ?thesis ..
  next
    case False
    from step.IH obtain k' where "rooted (fa[x := r]) k' (fa ! y) s" ..
    with False step.hyps(1,2) have "rooted (fa[x := r]) (Suc k') y s"
      by (intro rooted.step) simp_all
    then show ?thesis ..
  qed
qed

lemma rooted_link:
  assumes "fa ! rx = rx" "fa ! ry = ry" "rx \<noteq> ry" "ry < length fa"
    and "rooted fa k y s"
  shows "\<exists>k'. rooted (fa[rx := ry]) k' y (if s = rx then ry else s)"
  using assms(5)
proof (induction rule: rooted.induct)
  case (root y)
  have ry: "rooted (fa[rx := ry]) 0 ry ry"
    using assms by (auto intro: rooted.root)
  show ?case
  proof (cases "y = rx")
    case True
    with root ry assms(3) have "rooted (fa[rx := ry]) (Suc 0) y ry"
      by (intro rooted.step) simp_all
    with True show ?thesis by auto
  next
    case False
    with root have "rooted (fa[rx := ry]) 0 y y" by (intro rooted.root) simp_all
    with False show ?thesis by auto
  qed
next
  case (step y n s)
  then have "y \<noteq> rx" using assms(1) by auto
  moreover from step.IH obtain k' where
    "rooted (fa[rx := ry]) k' (fa ! y) (if s = rx then ry else s)" ..
  ultimately have "rooted (fa[rx := ry]) (Suc k') y (if s = rx then ry else s)"
    using step.hyps(1,2) by (intro rooted.step) simp_all
  then show ?case ..
qed

lemma rooted_cut:
  assumes "rooted fa k y s"
  shows "\<exists>k' s'. rooted (fa[i := i]) k' y s'"
  using assms
proof (induction rule: rooted.induct)
  case (root y)
  then have "rooted (fa[i := i]) 0 y y" by (cases "y = i") (auto intro: rooted.root)
  then show ?case by blast
next
  case (step y n s)
  show ?case
  proof (cases "y = i")
    case True
    with step.hyps(1) have "rooted (fa[i := i]) 0 y y" by (auto intro: rooted.root)
    then show ?thesis by blast
  next
    case False
    from step.IH obtain k' s' where "rooted (fa[i := i]) k' (fa ! y) s'" by blast
    with False step.hyps(1,2) have "rooted (fa[i := i]) (Suc k') y s'"
      by (intro rooted.step) simp_all
    then show ?thesis by blast
  qed
qed

section \<open>find terminates, returns the root and moves no root\<close>

lemma uf_find_fuel_rooted:
  assumes "rooted fa n x r" and "n < k"
  shows "\<exists>fa'. uf_find_fuel k fa x = Ok (r, fa') \<and> length fa' = length fa
           \<and> (\<forall>m y s. rooted fa m y s \<longrightarrow> (\<exists>m'. rooted fa' m' y s))"
  using assms
proof (induction arbitrary: k rule: rooted.induct)
  case (root x)
  then show ?case by (cases k) auto
next
  case (step x n r)
  then obtain k' where k: "k = Suc k'" "n < k'" by (cases k) auto
  with step.IH obtain fa1 where
    fa1: "uf_find_fuel k' fa (fa ! x) = Ok (r, fa1)" "length fa1 = length fa"
      "\<And>m y s. rooted fa m y s \<Longrightarrow> \<exists>m'. rooted fa1 m' y s"
    by blast
  obtain m where m: "rooted fa1 m x r"
    using fa1(3) rooted.step [OF step.hyps] by blast
  have "\<exists>m'. rooted (fa1[x := r]) m' y s" if "rooted fa j y s" for j y s
    using fa1(3) [OF that] rooted_shortcut [OF m] by blast
  with k fa1 step.hyps(1,2) show ?case by (auto simp: Let_def)
qed

lemma uf_find_rooted:
  assumes "rooted fa n x r"
  shows "\<exists>fa'. uf_find fa x = Ok (r, fa') \<and> length fa' = length fa
           \<and> (\<forall>m y s. rooted fa m y s \<longrightarrow> (\<exists>m'. rooted fa' m' y s))"
  unfolding uf_find_def
  by (rule uf_find_fuel_rooted [OF assms]) (use rooted_depth [OF assms] in simp)

lemma uf_rep_rooted: "rooted fa n x r \<Longrightarrow> uf_rep fa x = r"
  using uf_find_rooted by (fastforce simp: uf_rep_def)

lemma uf_inv_rooted: "uf_inv fa \<Longrightarrow> x < length fa \<Longrightarrow> \<exists>n. rooted fa n x (uf_rep fa x)"
  using uf_rep_rooted by (metis uf_inv_def)

text \<open>An array in which roots are kept by an operation keeps its invariant and its classes.\<close>

lemma uf_inv_move:
  assumes "uf_inv fa" and "length fa' = length fa"
    and "\<And>m y s. rooted fa m y s \<Longrightarrow> \<exists>m'. rooted fa' m' y (f s)"
  shows "uf_inv fa' \<and> (\<forall>y < length fa. uf_rep fa' y = f (uf_rep fa y))"
proof -
  have "\<exists>m'. rooted fa' m' y (f (uf_rep fa y))" if "y < length fa" for y
    using uf_inv_rooted [OF assms(1) that] assms(3) by blast
  then show ?thesis using assms(2) uf_rep_rooted by (fastforce simp: uf_inv_def)
qed

lemma uf_find_ok:
  assumes "uf_inv fa" and "x < length fa"
  shows "\<exists>fa'. uf_find fa x = Ok (uf_rep fa x, fa') \<and> uf_inv fa' \<and> length fa' = length fa
           \<and> (\<forall>y < length fa. uf_rep fa' y = uf_rep fa y)"
proof -
  obtain n where "rooted fa n x (uf_rep fa x)" using uf_inv_rooted assms by blast
  from uf_find_rooted [OF this] obtain fa' where
    fa': "uf_find fa x = Ok (uf_rep fa x, fa')" "length fa' = length fa"
      "\<And>m y s. rooted fa m y s \<Longrightarrow> \<exists>m'. rooted fa' m' y (id s)"
    by auto
  show ?thesis
    using fa'(1,2) uf_inv_move [OF assms(1) fa'(2,3)] by auto
qed

lemma uf_rep_root:
  assumes "uf_inv fa" and "x < length fa"
  shows "uf_rep fa x < length fa \<and> fa ! uf_rep fa x = uf_rep fa x"
  using uf_inv_rooted [OF assms] rooted_root by blast

lemma uf_join_ok:
  assumes "uf_inv fa" and "x < length fa" and "y < length fa"
  shows "\<exists>fa'. uf_join fa x y = Ok fa' \<and> uf_inv fa' \<and> length fa' = length fa
           \<and> (\<forall>z < length fa. uf_rep fa' z =
                (if uf_rep fa z = uf_rep fa x then uf_rep fa y else uf_rep fa z))"
proof -
  obtain fa1 where fa1: "uf_find fa x = Ok (uf_rep fa x, fa1)" "uf_inv fa1"
    "length fa1 = length fa" "\<forall>y < length fa. uf_rep fa1 y = uf_rep fa y"
    using uf_find_ok assms(1,2) by blast
  obtain fa2 where fa2: "uf_find fa1 y = Ok (uf_rep fa y, fa2)" "uf_inv fa2"
    "length fa2 = length fa" "\<forall>z < length fa. uf_rep fa2 z = uf_rep fa z"
    using uf_find_ok [OF fa1(2), of y] assms(3) fa1(3,4) by auto
  let ?rx = "uf_rep fa x" and ?ry = "uf_rep fa y"
  have rx: "?rx < length fa2" "fa2 ! ?rx = ?rx" and ry: "?ry < length fa2" "fa2 ! ?ry = ?ry"
    using uf_rep_root [OF fa2(2)] fa2(3,4) assms(2,3) by metis+
  show ?thesis
  proof (cases "?rx = ?ry")
    case True
    with fa1 fa2 show ?thesis by (auto simp: uf_join_def)
  next
    case False
    let ?fa' = "fa2[?rx := ?ry]" and ?f = "\<lambda>s. if s = ?rx then ?ry else s"
    have "uf_inv ?fa' \<and> (\<forall>z < length fa2. uf_rep ?fa' z = ?f (uf_rep fa2 z))"
      by (intro uf_inv_move fa2(2)) (use rx ry False rooted_link in auto)
    with fa1 fa2 rx False show ?thesis by (auto simp: uf_join_def)
  qed
qed

lemma init_prefix:
  assumes "n < length fa" and "uf_inv fa"
  shows "\<exists>fa'. init_unionFindSet fa n = Ok fa' \<and> uf_inv fa' \<and> length fa' = length fa
           \<and> (\<forall>i \<le> n. fa' ! i = i) \<and> (\<forall>i > n. fa' ! i = fa ! i)"
  using assms
proof (induction n)
  case 0
  have "uf_inv (fa[0 := 0])"
    using rooted_cut [of fa _ _ _ 0] 0 by (fastforce simp: uf_inv_def)
  with 0 show ?case by (auto simp: init_unionFindSet_def)
next
  case (Suc n)
  then obtain fa1 where fa1: "init_unionFindSet fa n = Ok fa1" "uf_inv fa1"
    "length fa1 = length fa" "\<forall>i \<le> n. fa1 ! i = i" "\<forall>i > n. fa1 ! i = fa ! i"
    by auto
  have "uf_inv (fa1[Suc n := Suc n])"
    using rooted_cut [of fa1 _ _ _ "Suc n"] fa1(2) by (fastforce simp: uf_inv_def)
  moreover have "init_unionFindSet fa (Suc n) = Ok (fa1[Suc n := Suc n])"
    using fa1(1,3) Suc.prems(1) unfolding init_unionFindSet_def
    by (subst upt_Suc_append) (simp, simp only: go_for_append, simp)
  ultimately show ?case using fa1 Suc.prems(1)
    by (auto simp: nth_list_update le_Suc_eq)
qed

lemma uf_rep_fixpoint: "x < length fa \<Longrightarrow> fa ! x = x \<Longrightarrow> uf_rep fa x = x"
  using rooted.root uf_rep_rooted by blast

lemma init_ok:
  assumes "uf_inv fa" and "n < length fa"
  shows "\<exists>fa'. init_unionFindSet fa n = Ok fa' \<and> uf_inv fa' \<and> length fa' = length fa
           \<and> (\<forall>i \<le> n. uf_rep fa' i = i)"
proof -
  obtain fa' where "init_unionFindSet fa n = Ok fa'" "uf_inv fa'" "length fa' = length fa"
    "\<forall>i \<le> n. fa' ! i = i"
    using init_prefix [OF assms(2,1)] by blast
  then show ?thesis using assms(2) uf_rep_fixpoint by fastforce
qed

lemma init_panics:
  assumes "length fa \<le> n"
  shows "init_unionFindSet fa n = Panic IndexOutOfRange"
proof -
  have len: "go_for (\<lambda>i fa. go_set fa (int i) i) [0..<k] fa = Ok fa' \<Longrightarrow> length fa' = length fa"
    for k fa'
    by (rule go_for_Ok_invariant [where P = "\<lambda>f. length f = length fa"]) (auto split: if_splits)
  have "k \<le> length fa \<Longrightarrow> \<exists>fa'. go_for (\<lambda>i fa. go_set fa (int i) i) [0..<k] fa = Ok fa'" for k
  proof (induction k)
    case (Suc k)
    then obtain fa' where "go_for (\<lambda>i fa. go_set fa (int i) i) [0..<k] fa = Ok fa'" by auto
    with len Suc.prems show ?case by (simp add: go_for_append)
  qed simp
  then obtain fa' where fa': "go_for (\<lambda>i fa. go_set fa (int i) i) [0..<length fa] fa = Ok fa'"
    by blast
  have "[0..<Suc n] = [0..<length fa] @ length fa # [Suc (length fa)..<Suc n]"
    using assms upt_add_eq_append [of 0 "length fa" "Suc n - length fa"]
    by (simp add: upt_conv_Cons del: upt_Suc)
  with fa' len [OF fa'] show ?thesis
    by (simp add: init_unionFindSet_def go_for_append del: upt_Suc)
qed

interpretation uf: disjoint_sets length uf_inv uf_rep init_unionFindSet uf_find uf_join
  by unfold_locales (use uf_find_ok uf_join_ok init_ok in blast)+

lemma fa_initial_inv: "uf_inv fa_initial"
proof -
  have "rooted fa_initial 0 0 0" by (intro rooted.root) (auto simp: fa_initial_def)
  moreover have "rooted fa_initial 1 x 0" if "0 < x" "x < 1024" for x
    using that rooted.step [of x fa_initial 0 0] calculation by (auto simp: fa_initial_def)
  ultimately show ?thesis
    by (metis bot_nat_0.not_eq_extremum fa_initial_def length_replicate uf_inv_def)
qed

lemma length_fa_initial [simp]: "length fa_initial = 1024"
  by (simp add: fa_initial_def)

text \<open>More fuel never changes the result of a search that ended.\<close>

lemma uf_find_fuel_mono:
  "uf_find_fuel k fa x \<noteq> Panic StackOverflow \<Longrightarrow> uf_find_fuel (Suc k) fa x = uf_find_fuel k fa x"
proof (induction k arbitrary: x)
  case 0
  then show ?case by simp
next
  case (Suc k)
  have "uf_find_fuel (Suc k) fa (fa ! x) = uf_find_fuel k fa (fa ! x)"
    if "x \<noteq> fa ! x" "x < length fa"
    using Suc.IH [of "fa ! x"] Suc.prems that by (cases "uf_find_fuel k fa (fa ! x)") auto
  then show ?case by (cases "x < length fa \<and> x \<noteq> fa ! x") auto
qed

end
