(* ===== verification/AffinityServer.thy ===== *)
theory AffinityServer
  imports ApiTypes UnionFind
begin

text \<open>
  The affinity servers. \<open>cmd/grpcServer/main.go\<close> relates pods whose threads share a kernel
  relationship group, \<open>cmd/netRelaServer/main.go\<close> relates pods whose threads appear in a
  network relation; both group the pods of a request with the union-find array and answer one
  affinity group per component of at least two pods, numbered round robin over the NUMA nodes.
  The outside of a server (\<^verbatim>\<open>crictl\<close>, \<^verbatim>\<open>ps\<close>, the YAML decoder, the C
  library) is a record of functions, an argument of the definitions that use it. Concurrent
  requests race on the two globals; the model is one request at a time.
\<close>

section \<open>State and environment\<close>

record server_state =
  sv_numaNums :: int
  sv_fa :: "nat list"

definition server_initial :: server_state where
  "server_initial = \<lparr>sv_numaNums = 0, sv_fa = fa_initial\<rparr>"

text \<open>
  \<^verbatim>\<open>PodInfo\<close> of the two servers: that of \<open>grpcServer\<close> has the relationship groups besides.
  What both do with the common fields is modelled once, for every extension of the record.
\<close>

record net_pod_info =
  pi_uid :: string
  pi_tids :: "int list"

record pod_info = net_pod_info +
  pi_gids :: "int list"

record c_numa_node =
  cn_cpus :: "int list"
  cn_memset :: int

record net_rela =
  nr_pid_a :: int
  nr_pid_b :: int
  nr_level :: int

record server_env =
  ev_crictl :: "string \<Rightarrow> string go"
  ev_yaml_pid :: "string \<Rightarrow> int go"
  ev_ps :: "int \<Rightarrow> string go"
  ev_get_gid :: "int \<Rightarrow> int"

section \<open>Processes of a pod\<close>

definition getPidByContainerdId :: "server_env \<Rightarrow> string \<Rightarrow> int go" where
  "getPidByContainerdId env containerId =
     (let parts = strings_SplitAfter containerId ''://''
      in if 1 < length parts
         then go_bind (ev_crictl env (parts ! 1)) (ev_yaml_pid env)
         else Err ''containerId's fommat is error'')"

text \<open>One line of \<^verbatim>\<open>ps -efT\<close>: field 2 is the thread, field 3 its parent process.\<close>

definition ps_line :: "int \<Rightarrow> string \<Rightarrow> 'a net_pod_info_scheme \<Rightarrow> 'a net_pod_info_scheme go" where
  "ps_line targetPid line pi =
     (let fields = strings_Fields line
      in if length fields < 3 then Ok pi
         else go_bind (go_nth fields 2) (\<lambda>f2.
           case strconv_Atoi f2 of
             Panic p \<Rightarrow> Panic p | Err _ \<Rightarrow> Ok pi
           | Ok pid \<Rightarrow> go_bind (go_nth fields 3) (\<lambda>f3.
               case strconv_Atoi f3 of
                 Panic p \<Rightarrow> Panic p | Err _ \<Rightarrow> Ok pi
               | Ok ppid \<Rightarrow>
                   Ok (if ppid = targetPid then pi\<lparr>pi_tids := pi_tids pi @ [pid]\<rparr> else pi))))"

definition getTids ::
    "server_env \<Rightarrow> int \<Rightarrow> 'a net_pod_info_scheme \<Rightarrow> 'a net_pod_info_scheme go" where
  "getTids env targetPid pi =
     (let pi1 = pi\<lparr>pi_tids := pi_tids pi @ [targetPid]\<rparr>
      in case ev_ps env targetPid of
           Panic p \<Rightarrow> Panic p | Err _ \<Rightarrow> Ok pi1
         | Ok output \<Rightarrow>
             go_for (ps_line targetPid)
               (strings_Split (strings_TrimSpace output) (CHR 0x0A)) pi1)"

text \<open>A pod starts from the zero value of its server's struct.\<close>

definition pod_tids :: "server_env \<Rightarrow> 'a net_pod_info_scheme \<Rightarrow> pb_pod \<Rightarrow> 'a net_pod_info_scheme go" where
  "pod_tids env zero pod =
     go_for (\<lambda>cid pi. case getPidByContainerdId env cid of
         Panic p \<Rightarrow> Panic p | Err _ \<Rightarrow> Ok pi | Ok pid \<Rightarrow> getTids env pid pi)
       (pb_containerdIDs pod) (zero\<lparr>pi_uid := pb_uid pod, pi_tids := []\<rparr>)"

definition getTidListForPods :: "server_env \<Rightarrow> pb_pod list \<Rightarrow> pod_info list go" where
  "getTidListForPods env pods =
     go_for (\<lambda>pod infos. go_map (\<lambda>pi. infos @ [pi])
         (pod_tids env \<lparr>pi_uid = '''', pi_tids = [], pi_gids = []\<rparr> pod)) pods []"

definition netrela_getTidListForPods :: "server_env \<Rightarrow> pb_pod list \<Rightarrow> net_pod_info list go" where
  "netrela_getTidListForPods env pods =
     go_for (\<lambda>pod infos. go_map (\<lambda>pi. infos @ [pi])
         (pod_tids env \<lparr>pi_uid = '''', pi_tids = []\<rparr> pod)) pods []"

section \<open>Affinity of two pods\<close>

text \<open>Relationship groups of the kernel (\<open>grpcServer\<close>); -1 is a thread in no group.\<close>

definition calculateGid :: "server_env \<Rightarrow> pod_info list \<Rightarrow> pod_info list" where
  "calculateGid env infos =
     map (\<lambda>pi. pi\<lparr>pi_gids := map (ev_get_gid env) (pi_tids pi)\<rparr>) infos"

definition hasPodAffinity :: "pod_info \<Rightarrow> pod_info \<Rightarrow> bool" where
  "hasPodAffinity p1 p2 \<longleftrightarrow>
     list_ex (\<lambda>g1. g1 \<noteq> -1 \<and> list_ex (\<lambda>g2. g1 = g2) (pi_gids p2)) (pi_gids p1)
     \<or> list_ex (\<lambda>g1. g1 \<noteq> -1 \<and> list_ex (\<lambda>t2. g1 = t2) (pi_tids p2)) (pi_gids p1)
     \<or> list_ex (\<lambda>g2. g2 \<noteq> -1 \<and> list_ex (\<lambda>t1. g2 = t1) (pi_tids p1)) (pi_gids p2)"

text \<open>How many pairs of equal groups two lists of them have; nothing calls it.\<close>

definition sameGids :: "int list \<Rightarrow> int list \<Rightarrow> nat" where
  "sameGids gids1 gids2 = foldl (\<lambda>sum g1. foldl (\<lambda>sum g2. if g1 = g2 then sum + 1 else sum) sum gids2) 0 gids1"

lemma sameGids_row: "foldl (\<lambda>sum g2. if g1 = g2 then sum + 1 else sum) n gids = n + count_list gids g1"
  by (induction gids arbitrary: n) auto

lemma sameGids_count: "sameGids gids1 gids2 = sum_list (map (count_list gids2) gids1)"
proof -
  have "foldl (\<lambda>sum g1. sum + count_list gids2 g1) n gids1 = n + sum_list (map (count_list gids2) gids1)" for n
    by (induction gids1 arbitrary: n) auto
  from this [of 0] show ?thesis by (simp add: sameGids_def sameGids_row)
qed

lemma sameGids_common: "sameGids gids1 gids2 = 0 \<longleftrightarrow> set gids1 \<inter> set gids2 = {}"
  by (auto simp: sameGids_count sum_list_eq_0_iff count_list_0_iff)

text \<open>
  Network relations (\<open>netRelaServer\<close>): a map of maps from process to process. The second
  insertion of the code writes the same direction as the first one.
\<close>

type_synonym net_graph = "(int, int list) go_map"

definition graph_row :: "net_graph \<Rightarrow> int \<Rightarrow> int list" where
  "graph_row gah p = (case map_of gah p of None \<Rightarrow> [] | Some row \<Rightarrow> row)"

definition graph_touch :: "int \<Rightarrow> net_graph \<Rightarrow> net_graph" where
  "graph_touch p gah = (if map_of gah p = None then AList.update p [] gah else gah)"

definition graph_put :: "int \<Rightarrow> int \<Rightarrow> net_graph \<Rightarrow> net_graph" where
  "graph_put p q gah = AList.update p (List.insert q (graph_row gah p)) gah"

definition generateNetRelaGraph :: "net_rela list \<Rightarrow> net_graph" where
  "generateNetRelaGraph rls =
     fold (\<lambda>r gah.
       let pida = nr_pid_a r; pidb = nr_pid_b r;
           gah1 = graph_put pida pidb (graph_touch pida gah)
       in graph_put pida pidb (graph_touch pidb gah1)) rls []"

definition graph_edge :: "net_graph \<Rightarrow> int \<Rightarrow> int \<Rightarrow> bool" where
  "graph_edge gah p q \<longleftrightarrow> q \<in> set (graph_row gah p)"

definition hasNetAffinity :: "net_graph \<Rightarrow> net_pod_info \<Rightarrow> net_pod_info \<Rightarrow> bool" where
  "hasNetAffinity gah p1 p2 \<longleftrightarrow>
     list_ex (\<lambda>t1. list_ex (\<lambda>t2. graph_edge gah t1 t2 \<or> graph_edge gah t2 t1) (pi_tids p2))
       (pi_tids p1)"

section \<open>Grouping\<close>

text \<open>The double loop over \<^verbatim>\<open>i < j\<close> that joins related pods.\<close>

definition join_related ::
    "('p \<Rightarrow> 'p \<Rightarrow> bool) \<Rightarrow> 'p list \<Rightarrow> nat list \<Rightarrow> nat list go" where
  "join_related affine infos fa =
     go_bind (init_unionFindSet fa (length infos)) (\<lambda>fa1.
       go_for (\<lambda>i. go_for (\<lambda>j fa.
             if affine (infos ! i) (infos ! j) then uf_join fa i j else Ok fa)
           [Suc i..<length infos])
         [0..<length infos] fa1)"

text \<open>\<^verbatim>\<open>groups\<close>: the pods under each root, in the order of the request.\<close>

definition add_to_group :: "nat \<Rightarrow> nat \<Rightarrow> (nat, nat list) go_map \<Rightarrow> (nat, nat list) go_map" where
  "add_to_group i g groups =
     AList.update g ((case map_of groups g of None \<Rightarrow> [] | Some is \<Rightarrow> is) @ [i]) groups"

definition collect_groups :: "nat \<Rightarrow> nat list \<Rightarrow> ((nat, nat list) go_map \<times> nat list) go" where
  "collect_groups n fa =
     go_for (\<lambda>i (groups, fa). go_bind (uf_find fa i) (\<lambda>(g, fa1). Ok (add_to_group i g groups, fa1)))
       [0..<n] ([], fa)"

text \<open>The index \<^verbatim>\<open>pp\<close> of the request's pods by UID; a later pod with the same UID wins.\<close>

definition pods_by_uid :: "pb_pod list \<Rightarrow> (string, pb_pod) go_map" where
  "pods_by_uid pods = fold (\<lambda>pod pp. AList.update (pb_uid pod) pod pp) pods []"

definition group_pod :: "(string, pb_pod) go_map \<Rightarrow> 'a net_pod_info_scheme list \<Rightarrow> nat \<Rightarrow> pb_pod go" where
  "group_pod pp infos idx =
     go_bind (go_nth infos (int idx)) (\<lambda>info.
       let uid = pi_uid info
       in case map_of pp uid of
            None \<Rightarrow> Panic NilDereference
          | Some p \<Rightarrow> Ok \<lparr>pb_containerdIDs = pb_containerdIDs p, pb_uid = uid,
                         pb_podName = pb_podName p, pb_podNamespace = pb_podNamespace p\<rparr>)"

text \<open>
  The answer: groups of fewer than two pods are skipped, the others are numbered round robin.
  \<open>order\<close> is the order in which \<^verbatim>\<open>range groups\<close> visits the map.
\<close>

definition affinity_groups ::
    "((nat \<times> nat list) list \<Rightarrow> (nat \<times> nat list) list) \<Rightarrow> int \<Rightarrow> pb_pod list \<Rightarrow>
     'a net_pod_info_scheme list \<Rightarrow>
     (nat, nat list) go_map \<Rightarrow> pb_affinity_group list go" where
  "affinity_groups order numaNums pods infos groups =
     (let pp = pods_by_uid pods
      in go_map snd (go_for (\<lambda>(g, idxs) (numaNode, resp).
           if length idxs < 2 then Ok (numaNode, resp)
           else go_bind (go_mod (numaNode + 1) numaNums) (\<lambda>numaNode1.
             go_bind (go_for (\<lambda>idx ps. go_map (\<lambda>p. ps @ [p]) (group_pod pp infos idx)) idxs [])
               (\<lambda>ps. Ok (numaNode1, resp @ [\<lparr>pbg_number = numaNode, pbg_pods = ps\<rparr>]))))
         (order groups) (0, [])))"

definition getPodsAffinity ::
    "((nat \<times> nat list) list \<Rightarrow> (nat \<times> nat list) list) \<Rightarrow> pb_pod list \<Rightarrow>
     'a net_pod_info_scheme list \<Rightarrow>
     server_state \<Rightarrow> (pb_affinity_group list \<times> server_state) go" where
  "getPodsAffinity order pods infos st =
     go_bind (collect_groups (length infos) (sv_fa st)) (\<lambda>(groups, fa).
       go_map (\<lambda>resp. (resp, st\<lparr>sv_fa := fa\<rparr>))
         (affinity_groups order (sv_numaNums st) pods infos groups))"

section \<open>The handlers\<close>

definition GetPodAffinity ::
    "server_env \<Rightarrow> ((nat \<times> nat list) list \<Rightarrow> (nat \<times> nat list) list) \<Rightarrow> pb_pod list \<Rightarrow>
     server_state \<Rightarrow> (pb_affinity_group list \<times> server_state) go" where
  "GetPodAffinity env order pods st =
     go_bind (getTidListForPods env pods) (\<lambda>infos0.
       let infos = calculateGid env infos0
       in go_bind (join_related hasPodAffinity infos (sv_fa st)) (\<lambda>fa.
            getPodsAffinity order pods infos (st\<lparr>sv_fa := fa\<rparr>)))"

text \<open>
  \<open>netRelaServer\<close> first copies \<open>n\<close> records out of the C array of 1024 relations.
\<close>

definition read_relations :: "net_rela list \<Rightarrow> nat \<Rightarrow> net_rela list go" where
  "read_relations data n =
     go_for (\<lambda>i rls. go_map (\<lambda>rl. rls @ [rl]) (go_nth data (int i))) [0..<n] []"

definition initNetRelationship ::
    "net_pod_info list \<Rightarrow> net_rela list \<Rightarrow> nat list \<Rightarrow> nat list go" where
  "initNetRelationship infos rls fa =
     join_related (hasNetAffinity (generateNetRelaGraph rls)) infos fa"

definition netrela_GetPodAffinity ::
    "server_env \<Rightarrow> ((nat \<times> nat list) list \<Rightarrow> (nat \<times> nat list) list) \<Rightarrow> net_rela list \<Rightarrow> nat \<Rightarrow>
     pb_pod list \<Rightarrow> server_state \<Rightarrow> (pb_affinity_group list \<times> server_state) go" where
  "netrela_GetPodAffinity env order data n pods st =
     go_bind (read_relations data n) (\<lambda>rls.
     go_bind (netrela_getTidListForPods env pods) (\<lambda>infos.
     go_bind (initNetRelationship infos rls (sv_fa st)) (\<lambda>fa.
       getPodsAffinity order pods infos (st\<lparr>sv_fa := fa\<rparr>))))"

section \<open>NUMA topology\<close>

definition convertCpuSet :: "int list \<Rightarrow> string" where
  "convertCpuSet cpus = strings_Join (map strconv_Itoa cpus) '',''"

text \<open>
  The C arrays are read through a Go array type of 1024 elements, so a larger index panics.
\<close>

definition c_array_max :: nat where
  "c_array_max = 1024"

definition c_array_nth :: "'a list \<Rightarrow> nat \<Rightarrow> 'a go" where
  "c_array_nth xs i = (if c_array_max \<le> i then Panic IndexOutOfRange else go_nth xs (int i))"

definition numa_node_of :: "nat \<Rightarrow> c_numa_node \<Rightarrow> pb_numa_node go" where
  "numa_node_of i node =
     go_bind (go_for (\<lambda>c cpus. go_map (\<lambda>cpu. cpus @ [cpu]) (c_array_nth (cn_cpus node) c))
         [0..<length (cn_cpus node)] [])
       (\<lambda>cpus. Ok \<lparr>pbn_number = int i, pbn_cpuset = convertCpuSet cpus,
                   pbn_memset = strconv_Itoa (cn_memset node)\<rparr>)"

definition GetNumaNodeInof ::
    "c_numa_node list \<Rightarrow> server_state \<Rightarrow> (pb_numa_info \<times> server_state) go" where
  "GetNumaNodeInof nodes st =
     go_bind (go_for (\<lambda>i acc. go_bind (c_array_nth nodes i) (\<lambda>node.
           go_map (\<lambda>n. acc @ [n]) (numa_node_of i node)))
         [0..<length nodes] [])
       (\<lambda>ns. Ok (\<lparr>pbi_valid = True, pbi_nodes = ns\<rparr>, st\<lparr>sv_numaNums := int (length nodes)\<rparr>))"

end
