(* ===== verification/AffinityCorrect.thy ===== *)
theory AffinityCorrect
  imports AffinityServer
begin

text \<open>
  Correctness of the affinity servers: the relations are symmetric, the grouping loop computes
  the connected components of the related pods, and the answer of both servers is exactly the
  components of at least two pods, numbered round robin below the number of NUMA nodes. The
  failures are characterised too: a request of 1024 pods, a server that was never asked for its
  NUMA nodes, a process line of exactly three fields.
\<close>

section \<open>The affinity relations\<close>

lemma hasPodAffinity_iff:
  "hasPodAffinity p1 p2 \<longleftrightarrow>
     (\<exists>g \<in> set (pi_gids p1) - {-1}. g \<in> set (pi_gids p2) \<union> set (pi_tids p2))
     \<or> (\<exists>g \<in> set (pi_gids p2) - {-1}. g \<in> set (pi_tids p1))"
  by (auto simp: hasPodAffinity_def list_ex_iff)

lemma hasPodAffinity_symmetric: "hasPodAffinity p1 p2 \<longleftrightarrow> hasPodAffinity p2 p1"
  by (auto simp: hasPodAffinity_iff)

lemma graph_row_touch [simp]: "graph_row (graph_touch p gah) q = graph_row gah q"
  by (auto simp: graph_row_def graph_touch_def update_conv')

lemma graph_edge_touch [simp]: "graph_edge (graph_touch r gah) p q \<longleftrightarrow> graph_edge gah p q"
  by (simp add: graph_edge_def)

lemma graph_edge_put [simp]:
  "graph_edge (graph_put a b gah) p q \<longleftrightarrow> graph_edge gah p q \<or> p = a \<and> q = b"
  by (auto simp: graph_edge_def graph_put_def graph_row_def update_conv' split: option.splits)

lemma graph_edge_generate:
  "graph_edge (generateNetRelaGraph rls) p q \<longleftrightarrow> (\<exists>r \<in> set rls. nr_pid_a r = p \<and> nr_pid_b r = q)"
proof -
  have "graph_edge (fold (\<lambda>r gah.
       let pida = nr_pid_a r; pidb = nr_pid_b r;
           gah1 = graph_put pida pidb (graph_touch pida gah)
       in graph_put pida pidb (graph_touch pidb gah1)) rls gah) p q
     \<longleftrightarrow> graph_edge gah p q \<or> (\<exists>r \<in> set rls. nr_pid_a r = p \<and> nr_pid_b r = q)" for gah
    by (induction rls arbitrary: gah) (auto simp: Let_def)
  from this [of "[]"] show ?thesis
    by (simp add: generateNetRelaGraph_def graph_edge_def graph_row_def)
qed

text \<open>
  Only one direction of a relation is stored, but the test reads both: two pods are related
  exactly when some record names a thread of each, in either order.
\<close>

definition net_related :: "net_rela list \<Rightarrow> net_pod_info \<Rightarrow> net_pod_info \<Rightarrow> bool" where
  "net_related rls p1 p2 \<longleftrightarrow>
     (\<exists>r \<in> set rls. nr_pid_a r \<in> set (pi_tids p1) \<and> nr_pid_b r \<in> set (pi_tids p2)
                   \<or> nr_pid_b r \<in> set (pi_tids p1) \<and> nr_pid_a r \<in> set (pi_tids p2))"

lemma hasNetAffinity_iff:
  "hasNetAffinity (generateNetRelaGraph rls) p1 p2 \<longleftrightarrow> net_related rls p1 p2"
  by (auto simp: hasNetAffinity_def list_ex_iff graph_edge_generate net_related_def)

section \<open>The grouping loop\<close>

definition affinity_edges ::
    "('p \<Rightarrow> 'p \<Rightarrow> bool) \<Rightarrow> 'p list \<Rightarrow> (nat \<times> nat) set" where
  "affinity_edges affine infos =
     {(i, j). i < j \<and> j < length infos \<and> affine (infos ! i) (infos ! j)}"

lemma go_for_nested:
  "go_for (\<lambda>i. go_for (body i) (ys i)) xs s =
   go_for (\<lambda>(i, j). body i j) (concat (map (\<lambda>i. map (Pair i) (ys i)) xs)) s"
proof -
  have inner: "go_for (\<lambda>(i, j). body i j) (map (Pair i) zs) t = go_for (body i) zs t" for i zs t
    by (induction zs arbitrary: t) (auto intro: go_bind_cong)
  show ?thesis
    by (induction xs arbitrary: s) (auto simp: go_for_append inner intro: go_bind_cong)
qed

lemma join_related_ok:
  assumes "uf_inv fa" and "length infos < length fa"
  shows "\<exists>fa'. join_related affine infos fa = Ok fa' \<and> uf_inv fa' \<and> length fa' = length fa
           \<and> (\<forall>x < length infos. \<forall>y < length infos.
                uf_rep fa' x = uf_rep fa' y \<longleftrightarrow> connected (affinity_edges affine infos) x y)"
proof -
  let ?n = "length infos"
  let ?ps = "concat (map (\<lambda>i. map (Pair i) [Suc i..<?n]) [0..<?n])"
  obtain fa1 where fa1: "init_unionFindSet fa ?n = Ok fa1" "uf_inv fa1" "length fa1 = length fa"
    "\<forall>i \<le> ?n. uf_rep fa1 i = i"
    using init_ok [OF assms] by blast
  have edges: "{(i, j) \<in> set ?ps. affine (infos ! i) (infos ! j)} = affinity_edges affine infos"
    by (force simp: affinity_edges_def image_iff)
  have bound: "\<And>i j. (i, j) \<in> set ?ps \<Longrightarrow> i < ?n \<and> j < ?n" by (simp add: image_iff)
  have le: "?n \<le> length fa1" using assms(2) fa1(3) by simp
  have single: "\<And>x. x < ?n \<Longrightarrow> uf_rep fa1 x = x" using fa1(4) by simp
  have "\<exists>fa'. go_for (\<lambda>(i, j) fa. if affine (infos ! i) (infos ! j) then uf_join fa i j else Ok fa)
            ?ps fa1 = Ok fa' \<and> uf_inv fa' \<and> length fa' = length fa1
          \<and> (\<forall>x < ?n. \<forall>y < ?n. uf_rep fa' x = uf_rep fa' y \<longleftrightarrow>
               connected {(i, j) \<in> set ?ps. affine (infos ! i) (infos ! j)} x y)"
    by (rule uf.join_loop [OF fa1(2) le]) (use bound single in blast)+
  then show ?thesis
    unfolding edges fa1(3) join_related_def fa1(1) go_bind.simps go_for_nested by assumption
qed

section \<open>Collecting the groups\<close>

definition group_fold :: "(nat \<Rightarrow> nat) \<Rightarrow> nat list \<Rightarrow> (nat, nat list) go_map \<Rightarrow> (nat, nat list) go_map" where
  "group_fold f xs m = fold (\<lambda>x. add_to_group x (f x)) xs m"

lemma group_fold_map_of:
  "map_of (group_fold f xs m) g =
     (case filter (\<lambda>x. f x = g) xs of [] \<Rightarrow> map_of m g
      | ys \<Rightarrow> Some ((case map_of m g of None \<Rightarrow> [] | Some is \<Rightarrow> is) @ ys))"
  unfolding group_fold_def
  by (induction xs arbitrary: m)
     (auto simp: add_to_group_def update_conv' split: list.splits option.splits)

lemma group_fold_distinct:
  "distinct (map fst m) \<Longrightarrow> distinct (map fst (group_fold f xs m))"
  unfolding group_fold_def
  by (induction xs arbitrary: m) (auto simp: add_to_group_def distinct_update)

lemma group_fold_mem:
  "(g, c) \<in> set (group_fold f xs []) \<longleftrightarrow> c = filter (\<lambda>x. f x = g) xs \<and> c \<noteq> []"
proof -
  have "(g, c) \<in> set (group_fold f xs []) \<longleftrightarrow> map_of (group_fold f xs []) g = Some c"
    using group_fold_distinct [of "[]" f xs] by (simp add: map_of_eq_Some_iff)
  then show ?thesis by (auto simp: group_fold_map_of split: list.splits)
qed

lemma group_fold_distinct_groups: "distinct (map snd (group_fold f xs []))"
proof -
  let ?m = "group_fold f xs []"
  have "inj_on snd (set ?m)"
  proof (rule inj_onI)
    fix a b assume ab: "a \<in> set ?m" "b \<in> set ?m" "snd a = snd b"
    obtain ga ca gb cb where eq: "a = (ga, ca)" "b = (gb, cb)" by force
    with ab have c: "ca = filter (\<lambda>x. f x = ga) xs" "ca = filter (\<lambda>x. f x = gb) xs" "ca \<noteq> []"
      by (auto simp: group_fold_mem)
    from c(3) obtain x where x: "x \<in> set ca" by (meson last_in_set)
    have "f x = ga" using x unfolding c(1) by simp
    moreover have "f x = gb" using x unfolding c(2) by simp
    ultimately have "ga = gb" by simp
    with eq ab(3) show "a = b" by simp
  qed
  moreover have "distinct ?m"
    using group_fold_distinct [of "[]" f xs] by (simp add: distinct_map)
  ultimately show ?thesis by (simp add: distinct_map)
qed

lemma collect_groups_ok:
  assumes "uf_inv fa" and "n \<le> length fa"
  shows "\<exists>fa'. collect_groups n fa = Ok (group_fold (uf_rep fa) [0..<n] [], fa')
           \<and> uf_inv fa' \<and> length fa' = length fa"
  using uf.find_loop [OF assms(1), of "[0..<n]" "\<lambda>x r. add_to_group x r" "[]"] assms(2)
  by (auto simp: collect_groups_def group_fold_def)

section \<open>Building the answer\<close>

lemma pods_by_uid_lookup:
  assumes "distinct (map pb_uid pods)" and "i < length pods"
  shows "map_of (pods_by_uid pods) (pb_uid (pods ! i)) = Some (pods ! i)"
proof -
  have other: "map_of (fold (\<lambda>pod pp. AList.update (pb_uid pod) pod pp) ps m) u = map_of m u"
    if "u \<notin> pb_uid ` set ps" for ps m u
    using that by (induction ps arbitrary: m) (auto simp: update_conv')
  have "map_of (fold (\<lambda>pod pp. AList.update (pb_uid pod) pod pp) pods m) (pb_uid (pods ! i))
          = Some (pods ! i)" for m
    using assms
  proof (induction pods arbitrary: m i)
    case Nil
    then show ?case by simp
  next
    case (Cons p ps)
    show ?case
    proof (cases i)
      case 0
      with Cons.prems show ?thesis by (auto simp: other update_conv')
    next
      case (Suc j)
      with Cons show ?thesis by auto
    qed
  qed
  then show ?thesis by (simp add: pods_by_uid_def)
qed

lemma group_pod_ok:
  assumes "map pi_uid infos = map pb_uid pods" and "distinct (map pb_uid pods)" and "i < length pods"
  shows "group_pod (pods_by_uid pods) infos i = Ok (pods ! i)"
proof -
  have len: "length infos = length pods" using assms(1) by (metis length_map)
  have "pi_uid (infos ! i) = pb_uid (pods ! i)"
    using assms(1,3) len by (metis nth_map)
  with pods_by_uid_lookup [OF assms(2,3)] assms(3) len show ?thesis
    by (simp add: group_pod_def)
qed

lemma group_pods_ok:
  assumes "map pi_uid infos = map pb_uid pods" and "distinct (map pb_uid pods)"
    and "\<And>i. i \<in> set idxs \<Longrightarrow> i < length pods"
  shows "go_for (\<lambda>idx ps. go_map (\<lambda>p. ps @ [p]) (group_pod (pods_by_uid pods) infos idx)) idxs ps
           = Ok (ps @ map ((!) pods) idxs)"
  using assms(3)
  by (induction idxs arbitrary: ps) (auto simp: group_pod_ok [OF assms(1,2)])

definition group_answer :: "int \<Rightarrow> pb_pod list \<Rightarrow> nat \<times> nat list \<Rightarrow> pb_affinity_group" where
  "group_answer numaNums pods kc =
     \<lparr>pbg_number = int (fst kc) mod numaNums, pbg_pods = map ((!) pods) (snd kc)\<rparr>"

lemma affinity_groups_ok:
  assumes "map pi_uid infos = map pb_uid pods" and "distinct (map pb_uid pods)" and "0 < numaNums"
    and "\<And>g c i. (g, c) \<in> set (order groups) \<Longrightarrow> i \<in> set c \<Longrightarrow> i < length pods"
  shows "affinity_groups order numaNums pods infos groups =
           Ok (map (group_answer numaNums pods)
                (enumerate 0 (filter (\<lambda>c. 2 \<le> length c) (map snd (order groups)))))"
proof -
  let ?body = "\<lambda>(g :: nat, idxs) (numaNode, resp).
      if length idxs < 2 then Ok (numaNode, resp)
      else go_bind (go_mod (numaNode + 1) numaNums) (\<lambda>numaNode1.
        go_bind (go_for (\<lambda>idx ps. go_map (\<lambda>p. ps @ [p]) (group_pod (pods_by_uid pods) infos idx)) idxs [])
          (\<lambda>ps. Ok (numaNode1, resp @ [\<lparr>pbg_number = numaNode, pbg_pods = ps\<rparr>])))"
  have "go_for ?body gs (int k mod numaNums, resp) =
          Ok (int (k + length (filter (\<lambda>c. 2 \<le> length c) (map snd gs))) mod numaNums,
              resp @ map (group_answer numaNums pods)
                (enumerate k (filter (\<lambda>c. 2 \<le> length c) (map snd gs))))"
    if "\<And>g c i. (g, c) \<in> set gs \<Longrightarrow> i \<in> set c \<Longrightarrow> i < length pods" for gs k resp
    using that
  proof (induction gs arbitrary: k resp)
    case Nil
    then show ?case by simp
  next
    case (Cons a gs)
    obtain g idxs where a: "a = (g, idxs)" by force
    have rest: "\<And>g c i. (g, c) \<in> set gs \<Longrightarrow> i \<in> set c \<Longrightarrow> i < length pods"
      using Cons.prems by (meson list.set_intros(2))
    have idxs: "\<And>i. i \<in> set idxs \<Longrightarrow> i < length pods"
      using Cons.prems a by (meson list.set_intros(1))
    show ?case
    proof (cases "length idxs < 2")
      case True
      with a Cons.IH [OF rest, where k = k and resp = resp] show ?thesis by simp
    next
      case False
      have "go_mod (int k mod numaNums + 1) numaNums = Ok (int (Suc k) mod numaNums)"
        using assms(3) by (simp add: go_mod_nonneg mod_simps add.commute)
      with False a Cons.IH [OF rest, where k = "Suc k"] group_pods_ok [OF assms(1,2) idxs]
      show ?thesis by (simp add: group_answer_def)
    qed
  qed
  from this [of "order groups" 0 "[]"] assms(3,4) show ?thesis
    by (simp add: affinity_groups_def)
qed

text \<open>
  The components of the edges among \<open>n\<close> pods that have at least two members, each as the
  increasing list of its members.
\<close>

definition pod_components :: "nat \<Rightarrow> (nat \<times> nat) set \<Rightarrow> nat list set" where
  "pod_components n E = {c. \<exists>i < n. c = filter (connected E i) [0..<n] \<and> 2 \<le> length c}"

text \<open>The groups of an answer, as \<open>order\<close> visits the map.\<close>

definition large_groups :: "((nat \<times> nat list) list \<Rightarrow> (nat \<times> nat list) list) \<Rightarrow> (nat \<times> nat list) list \<Rightarrow> nat list list" where
  "large_groups order m = filter (\<lambda>c. 2 \<le> length c) (map snd (order m))"

lemma getPodsAffinity_ok:
  assumes uids: "map pi_uid infos = map pb_uid pods" and dist: "distinct (map pb_uid pods)"
    and numa: "0 < sv_numaNums st"
    and inv: "uf_inv (sv_fa st)" and len: "length infos \<le> length (sv_fa st)"
    and rep: "\<forall>x < length infos. \<forall>y < length infos.
                uf_rep (sv_fa st) x = uf_rep (sv_fa st) y \<longleftrightarrow> connected E x y"
  shows "\<exists>m fa'. uf_inv fa' \<and> length fa' = length (sv_fa st)
           \<and> (\<forall>order. range_order order \<longrightarrow>
               getPodsAffinity order pods infos st =
                 Ok (map (group_answer (sv_numaNums st) pods) (enumerate 0 (large_groups order m)), st\<lparr>sv_fa := fa'\<rparr>)
               \<and> distinct (large_groups order m) \<and> set (large_groups order m) = pod_components (length pods) E)"
proof -
  let ?n = "length infos" and ?f = "uf_rep (sv_fa st)"
  let ?m = "group_fold ?f [0..<?n] []"
  have n: "length pods = ?n" using uids by (metis length_map)
  obtain fa' where fa': "collect_groups ?n (sv_fa st) = Ok (?m, fa')" "uf_inv fa'"
    "length fa' = length (sv_fa st)"
    using collect_groups_ok [OF inv len] by blast
  have class_eq: "filter (\<lambda>x. ?f x = ?f i) [0..<?n] = filter (connected E i) [0..<?n]"
    if "i < ?n" for i
    using rep that connected_sym by (intro filter_cong) auto
  have "getPodsAffinity order pods infos st =
        Ok (map (group_answer (sv_numaNums st) pods) (enumerate 0 (large_groups order ?m)), st\<lparr>sv_fa := fa'\<rparr>)
      \<and> distinct (large_groups order ?m) \<and> set (large_groups order ?m) = pod_components (length pods) E"
    if order: "range_order order" for order
  proof (intro conjI)
    have mem: "(g, c) \<in> set (order ?m) \<longleftrightarrow> c = filter (\<lambda>x. ?f x = g) [0..<?n] \<and> c \<noteq> []" for g c
      by (simp add: range_order_set [OF order] group_fold_mem)
    then have "affinity_groups order (sv_numaNums st) pods infos ?m =
        Ok (map (group_answer (sv_numaNums st) pods) (enumerate 0 (large_groups order ?m)))"
      using affinity_groups_ok [where order = order and groups = ?m, OF uids dist numa] n
      by (auto simp: large_groups_def)
    then show "getPodsAffinity order pods infos st =
        Ok (map (group_answer (sv_numaNums st) pods) (enumerate 0 (large_groups order ?m)), st\<lparr>sv_fa := fa'\<rparr>)"
      using fa'(1) by (simp add: getPodsAffinity_def)
    have "c \<in> snd ` set (order ?m) \<longleftrightarrow> (\<exists>i < ?n. c = filter (connected E i) [0..<?n])" for c
    proof
      assume "c \<in> snd ` set (order ?m)"
      then obtain g where g: "c = filter (\<lambda>x. ?f x = g) [0..<?n]" "c \<noteq> []"
        using mem by force
      then obtain i where i: "i \<in> set c" by (meson last_in_set)
      have "i < ?n" "?f i = g" using i unfolding g(1) by simp_all
      with g(1) class_eq show "\<exists>i < ?n. c = filter (connected E i) [0..<?n]" by blast
    next
      assume "\<exists>i < ?n. c = filter (connected E i) [0..<?n]"
      then obtain i where i: "i < ?n" "c = filter (\<lambda>x. ?f x = ?f i) [0..<?n]"
        using class_eq by auto
      then have "(?f i, c) \<in> set (order ?m)" unfolding mem by (auto simp: filter_empty_conv)
      then show "c \<in> snd ` set (order ?m)" by force
    qed
    then show "set (large_groups order ?m) = pod_components (length pods) E"
      by (auto simp: pod_components_def n large_groups_def)
    show "distinct (large_groups order ?m)"
      unfolding large_groups_def using group_fold_distinct_groups [of ?f "[0..<?n]"] order
      by (metis distinct_filter mset_eq_imp_distinct_iff mset_map range_order_def)
  qed
  with fa'(2,3) show ?thesis by blast
qed

section \<open>The handlers\<close>

lemma ps_line_uid: "ps_line t l pi = Ok pi' \<Longrightarrow> pi_uid pi' = pi_uid pi"
  by (auto simp: ps_line_def Let_def elim!: go_bind_OkE split: if_split_asm go.split_asm)

lemma getTids_uid:
  fixes pi :: "'a net_pod_info_scheme"
  shows "getTids env pid pi = Ok pi' \<Longrightarrow> pi_uid pi' = pi_uid pi"
proof -
  have "go_for (ps_line t) ls p = Ok p' \<Longrightarrow> pi_uid p = u \<Longrightarrow> pi_uid p' = u"
    for t ls u and p p' :: "'a net_pod_info_scheme"
    by (erule go_for_Ok_invariant [where P = "\<lambda>p. pi_uid p = u"]) (auto dest: ps_line_uid)
  then show "getTids env pid pi = Ok pi' \<Longrightarrow> pi_uid pi' = pi_uid pi"
    by (auto simp: getTids_def Let_def split: go.splits)
qed

lemma pod_tids_uid: "pod_tids env zero pod = Ok pi \<Longrightarrow> pi_uid pi = pb_uid pod"
  unfolding pod_tids_def
  by (erule go_for_Ok_invariant [where P = "\<lambda>p. pi_uid p = pb_uid pod"])
     (auto dest: getTids_uid split: go.splits)

lemma pods_uids:
  assumes "go_for (\<lambda>pod infos. go_map (\<lambda>pi. infos @ [pi]) (pod_tids env zero pod)) pods [] = Ok infos"
  shows "map pi_uid infos = map pb_uid pods"
proof -
  have "go_for (\<lambda>pod infos. go_map (\<lambda>pi. infos @ [pi]) (pod_tids env zero pod)) pods acc = Ok infos
        \<Longrightarrow> map pi_uid infos = map pi_uid acc @ map pb_uid pods" for acc
    by (induction pods arbitrary: acc) (auto simp: go_simps dest: pod_tids_uid)
  from this [of "[]"] assms show ?thesis by simp
qed

lemma getTidListForPods_uids: "getTidListForPods env pods = Ok infos \<Longrightarrow> map pi_uid infos = map pb_uid pods"
  unfolding getTidListForPods_def by (rule pods_uids)

lemma netrela_uids: "netrela_getTidListForPods env pods = Ok infos \<Longrightarrow> map pi_uid infos = map pb_uid pods"
  unfolding netrela_getTidListForPods_def by (rule pods_uids)

lemma calculateGid_uids [simp]: "map pi_uid (calculateGid env infos) = map pi_uid infos"
  by (simp add: calculateGid_def)

lemma grouped_answers:
  assumes "uf_inv (sv_fa st)" and "length pods < length (sv_fa st)" and "0 < sv_numaNums st"
    and "distinct (map pb_uid pods)"
    and uids: "map pi_uid infos = map pb_uid pods"
  shows "\<exists>m fa'. uf_inv fa' \<and> length fa' = length (sv_fa st)
           \<and> (\<forall>order. range_order order \<longrightarrow>
               go_bind (join_related affine infos (sv_fa st))
                 (\<lambda>fa. getPodsAffinity order pods infos (st\<lparr>sv_fa := fa\<rparr>)) =
                 Ok (map (group_answer (sv_numaNums st) pods) (enumerate 0 (large_groups order m)), st\<lparr>sv_fa := fa'\<rparr>)
               \<and> distinct (large_groups order m)
               \<and> set (large_groups order m) = pod_components (length pods) (affinity_edges affine infos))"
proof -
  have n: "length infos = length pods" using uids by (metis length_map)
  obtain fa1 where fa1: "join_related affine infos (sv_fa st) = Ok fa1" "uf_inv fa1"
    "length fa1 = length (sv_fa st)"
    "\<forall>x < length infos. \<forall>y < length infos.
       uf_rep fa1 x = uf_rep fa1 y \<longleftrightarrow> connected (affinity_edges affine infos) x y"
    using join_related_ok [OF assms(1), of infos affine] assms(2) n by auto
  show ?thesis
    using getPodsAffinity_ok [OF uids assms(4), of "st\<lparr>sv_fa := fa1\<rparr>"] fa1 assms(2,3) n by simp
qed

lemma grouped_answer:
  assumes "uf_inv (sv_fa st)" and "length pods < length (sv_fa st)" and "0 < sv_numaNums st"
    and "range_order order" and "distinct (map pb_uid pods)"
    and "map pi_uid infos = map pb_uid pods"
  shows "\<exists>cs fa'. go_bind (join_related affine infos (sv_fa st))
               (\<lambda>fa. getPodsAffinity order pods infos (st\<lparr>sv_fa := fa\<rparr>)) =
             Ok (map (group_answer (sv_numaNums st) pods) (enumerate 0 cs), st\<lparr>sv_fa := fa'\<rparr>)
           \<and> distinct cs
           \<and> set cs = pod_components (length pods) (affinity_edges affine infos)
           \<and> uf_inv fa' \<and> length fa' = length (sv_fa st)"
  using grouped_answers [OF assms(1-3,5,6), of affine] assms(4) by blast

end
