(* ===== verification/TextCodec.thy ===== *)
theory TextCodec
  imports GoStrings
begin

text \<open>
  Text formats that one component writes and another parses: an item codec, and lists of items
  joined by a separator. The agent parses the cpusets that the affinity server prints, and the
  resctrl groups parse the schemata lines they print; both are interpretations of these locales.
\<close>

locale item_codec =
  fixes print :: "'a \<Rightarrow> string" and parse :: "string \<Rightarrow> 'b" and valid :: "'a \<Rightarrow> bool"
    and value_of :: "'a \<Rightarrow> 'b"
  assumes parse_print: "valid x \<Longrightarrow> parse (print x) = value_of x"

locale list_codec = item_codec +
  fixes sep :: char
  assumes no_sep: "valid x \<Longrightarrow> sep \<notin> set (print x)"
begin

lemma split_join:
  assumes "xs \<noteq> []" and "\<And>x. x \<in> set xs \<Longrightarrow> valid x"
  shows "strings_Split (strings_Join (map print xs) [sep]) sep = map print xs"
  using assms no_sep by (intro strings_Split_Join) auto

lemma parse_joined:
  assumes "xs \<noteq> []" and "\<And>x. x \<in> set xs \<Longrightarrow> valid x"
  shows "map parse (strings_Split (strings_Join (map print xs) [sep]) sep) = map value_of xs"
  using split_join [OF assms] assms(2) by (simp add: parse_print)

end

text \<open>Decimal integers, separated by a comma.\<close>

definition int64_range :: "int \<Rightarrow> bool" where
  "int64_range i \<longleftrightarrow> - (2 ^ 63) \<le> i \<and> i < 2 ^ 63"

interpretation cpu_list: list_codec strconv_Itoa strconv_Atoi int64_range Ok "CHR '',''"
  by unfold_locales
     (auto simp: int64_range_def strconv_Atoi_Itoa strconv_Itoa_no_sep)

end
