(* ===== verification/AffinityProps.thy ===== *)
theory AffinityProps
  imports AffinityCorrect TextCodec
begin

text \<open>
  What the affinity servers promise a client: the answer of a request in any state the server
  can reach, the round trip of the NUMA topology through its textual form, and the inputs on
  which a server crashes.
\<close>

section \<open>States of a running server\<close>

text \<open>A panic ends the process, so a running server has only answered requests behind it.\<close>

inductive server_step :: "server_env \<Rightarrow> server_state \<Rightarrow> server_state \<Rightarrow> bool" for env where
  numa: "GetNumaNodeInof nodes st = Ok (info, st') \<Longrightarrow> server_step env st st'"
| affinity: "range_order order \<Longrightarrow> GetPodAffinity env order pods st = Ok (resp, st') \<Longrightarrow>
     server_step env st st'"

inductive server_reachable :: "server_env \<Rightarrow> server_state \<Rightarrow> bool" for env where
  start: "server_reachable env server_initial"
| step: "server_reachable env st \<Longrightarrow> server_step env st st' \<Longrightarrow> server_reachable env st'"

definition server_inv :: "server_state \<Rightarrow> bool" where
  "server_inv st \<longleftrightarrow> uf_inv (sv_fa st) \<and> length (sv_fa st) = 1024 \<and> 0 \<le> sv_numaNums st"

lemma join_related_inv:
  assumes "uf_inv fa" and "join_related affine infos fa = Ok fa'"
  shows "uf_inv fa' \<and> length fa' = length fa \<and> length infos < length fa"
proof -
  have "length infos < length fa"
    using assms(2) init_panics [of fa "length infos"]
    by (cases "length infos < length fa") (auto simp: join_related_def)
  with join_related_ok [OF assms(1), of infos affine] assms(2) show ?thesis by auto
qed

lemma getPodsAffinity_inv:
  assumes "uf_inv (sv_fa st)" and "length infos \<le> length (sv_fa st)"
    and "getPodsAffinity order pods infos st = Ok (resp, st')"
  shows "uf_inv (sv_fa st') \<and> length (sv_fa st') = length (sv_fa st)
       \<and> sv_numaNums st' = sv_numaNums st"
  using collect_groups_ok [OF assms(1,2)] assms(3) by (auto simp: getPodsAffinity_def go_simps)

lemma GetPodAffinity_inv:
  assumes "server_inv st" and "GetPodAffinity env order pods st = Ok (resp, st')"
  shows "server_inv st'"
proof -
  from assms(2) obtain infos fa where
    infos: "join_related hasPodAffinity infos (sv_fa st) = Ok fa"
      "getPodsAffinity order pods infos (st\<lparr>sv_fa := fa\<rparr>) = Ok (resp, st')"
    by (auto simp: GetPodAffinity_def go_simps Let_def)
  with assms(1) join_related_inv [OF _ infos(1)]
    getPodsAffinity_inv [of "st\<lparr>sv_fa := fa\<rparr>" infos order pods resp st']
  show ?thesis by (auto simp: server_inv_def)
qed

lemma GetNumaNodeInof_inv:
  "server_inv st \<Longrightarrow> GetNumaNodeInof nodes st = Ok (info, st') \<Longrightarrow> server_inv st'"
  by (auto simp: GetNumaNodeInof_def server_inv_def go_simps)

lemma server_inv_initial: "server_inv server_initial"
  by (simp add: server_inv_def server_initial_def fa_initial_inv)

lemma server_reachable_inv: "server_reachable env st \<Longrightarrow> server_inv st"
proof (induction rule: server_reachable.induct)
  case start
  show ?case by (rule server_inv_initial)
next
  case (step st st')
  from step.hyps(2) step.IH show ?case
    by (cases rule: server_step.cases) (auto intro: GetPodAffinity_inv GetNumaNodeInof_inv)
qed

section \<open>The answer\<close>

lemma GetPodAffinity_answer:
  assumes "server_reachable env st" and "0 < sv_numaNums st" and "range_order order"
    and "length pods < 1024" and "distinct (map pb_uid pods)"
    and "getTidListForPods env pods = Ok infos"
  shows "\<exists>cs st'. GetPodAffinity env order pods st =
             Ok (map (\<lambda>(k, c). \<lparr>pbg_number = int k mod sv_numaNums st, pbg_pods = map ((!) pods) c\<rparr>)
                   (enumerate 0 cs), st')
           \<and> distinct cs
           \<and> set cs = pod_components (length pods)
                        (affinity_edges hasPodAffinity (calculateGid env infos))"
proof -
  have inv: "uf_inv (sv_fa st)" "length (sv_fa st) = 1024"
    using server_reachable_inv [OF assms(1)] by (auto simp: server_inv_def)
  have uids: "map pi_uid (calculateGid env infos) = map pb_uid pods"
    using getTidListForPods_uids [OF assms(6)] by simp
  have "(\<lambda>(k, c). \<lparr>pbg_number = int k mod sv_numaNums st, pbg_pods = map ((!) pods) c\<rparr>)
          = group_answer (sv_numaNums st) pods"
    by (auto simp: group_answer_def)
  with grouped_answer [where affine = hasPodAffinity, OF inv(1) _ assms(2,3,5) uids]
    inv(2) assms(4,6)
  show ?thesis by (auto simp: GetPodAffinity_def Let_def)
qed

text \<open>
  C3: in every state a running gRPC server can be in, once the NUMA nodes are known, a request
  for fewer than 1024 pods with distinct UIDs whose processes can be listed is answered with
  exactly the connected components of at least two pods of the affinity relation: each group
  lists the request's pods of one component in request order, every such component is listed
  once, and the k-th group gets NUMA node k modulo the number of nodes.
\<close>

theorem GetPodAffinity_components:
  assumes "server_reachable env st" and "0 < sv_numaNums st" and "range_order order"
    and "length pods < 1024" and "distinct (map pb_uid pods)"
    and "getTidListForPods env pods = Ok infos"
  shows "\<exists>cs st'. GetPodAffinity env order pods st =
             Ok (map (\<lambda>(k, c). \<lparr>pbg_number = int k mod sv_numaNums st, pbg_pods = map ((!) pods) c\<rparr>)
                   (enumerate 0 cs), st')
           \<and> distinct cs
           \<and> set cs = pod_components (length pods)
                        (affinity_edges hasPodAffinity (calculateGid env infos))"
  using assms by (rule GetPodAffinity_answer)

text \<open>
  C4: the network-relation server answers with the connected components, of at least two pods,
  of the relation "some record of the network table names a thread of each pod, in either
  order", although it stores only one direction of each record.
\<close>

theorem netrela_GetPodAffinity_components:
  assumes "server_inv st" and "0 < sv_numaNums st" and "range_order order"
    and "length pods < 1024" and "distinct (map pb_uid pods)" and "n \<le> length data"
    and "netrela_getTidListForPods env pods = Ok infos"
  shows "\<exists>cs st'. netrela_GetPodAffinity env order data n pods st =
             Ok (map (\<lambda>(k, c). \<lparr>pbg_number = int k mod sv_numaNums st, pbg_pods = map ((!) pods) c\<rparr>)
                   (enumerate 0 cs), st')
           \<and> server_inv st' \<and> distinct cs
           \<and> set cs = pod_components (length pods)
                        {(i, j). i < j \<and> j < length pods
                                 \<and> net_related (take n data) (infos ! i) (infos ! j)}"
proof -
  have inv: "uf_inv (sv_fa st)" "length (sv_fa st) = 1024" using assms(1)
    by (auto simp: server_inv_def)
  have uids: "map pi_uid infos = map pb_uid pods"
    by (rule netrela_uids [OF assms(7)])
  then have n: "length infos = length pods" by (metis length_map)
  have rd: "read_relations data m = Ok (take m data)" if "m \<le> length data" for m
    using that
    by (induction m) (auto simp: read_relations_def go_for_append take_Suc_conv_app_nth)
  have ans: "(\<lambda>(k, c). \<lparr>pbg_number = int k mod sv_numaNums st, pbg_pods = map ((!) pods) c\<rparr>)
          = group_answer (sv_numaNums st) pods"
    by (auto simp: group_answer_def)
  have edges: "affinity_edges (hasNetAffinity (generateNetRelaGraph rls)) infos
      = {(i, j). i < j \<and> j < length pods \<and> net_related rls (infos ! i) (infos ! j)}" for rls
    by (simp add: affinity_edges_def hasNetAffinity_iff n)
  show ?thesis
    using grouped_answer [where affine = "hasNetAffinity (generateNetRelaGraph (take n data))",
        OF inv(1) _ assms(2,3,5) uids] inv(2) assms(1,4,7) rd [OF assms(6)]
    unfolding edges ans
    by (fastforce simp: netrela_GetPodAffinity_def initNetRelationship_def server_inv_def)
qed

section \<open>A concrete request\<close>

text \<open>
  Three pods, the first two sharing a relationship group, on a server that knows two NUMA nodes.
\<close>

definition ex_env :: server_env where
  "ex_env = \<lparr>ev_crictl = (\<lambda>cid. Ok cid),
     ev_yaml_pid = (\<lambda>out. Ok (if out = ''a'' then 100 else if out = ''b'' then 200 else 300)),
     ev_ps = (\<lambda>pid. if pid = 100 then Ok ''root 100 101 100 0 pause'' else Err ''ps''),
     ev_get_gid = (\<lambda>tid. if tid = 101 \<or> tid = 200 then 7 else -1)\<rparr>"

definition ex_pod :: "string \<Rightarrow> string \<Rightarrow> pb_pod" where
  "ex_pod uid cid = \<lparr>pb_containerdIDs = [''containerd://'' @ cid], pb_uid = uid,
     pb_podName = uid, pb_podNamespace = ''default''\<rparr>"

definition ex_pods :: "pb_pod list" where
  "ex_pods = [ex_pod ''u1'' ''a'', ex_pod ''u2'' ''b'', ex_pod ''u3'' ''c'']"

definition ex_infos :: "pod_info list" where
  "ex_infos = [\<lparr>pi_uid = ''u1'', pi_tids = [100, 101], pi_gids = []\<rparr>,
     \<lparr>pi_uid = ''u2'', pi_tids = [200], pi_gids = []\<rparr>,
     \<lparr>pi_uid = ''u3'', pi_tids = [300], pi_gids = []\<rparr>]"

definition ex_net_infos :: "net_pod_info list" where
  "ex_net_infos = [\<lparr>pi_uid = ''u1'', pi_tids = [100, 101]\<rparr>, \<lparr>pi_uid = ''u2'', pi_tids = [200]\<rparr>,
     \<lparr>pi_uid = ''u3'', pi_tids = [300]\<rparr>]"

definition ex_nodes :: "c_numa_node list" where
  "ex_nodes = [\<lparr>cn_cpus = [0, 1], cn_memset = 0\<rparr>, \<lparr>cn_cpus = [2, 3], cn_memset = 1\<rparr>]"

definition ex_state :: server_state where
  "ex_state = server_initial\<lparr>sv_numaNums := 2\<rparr>"

lemma ex_infos_listed: "getTidListForPods ex_env ex_pods = Ok ex_infos"
  by code_simp

lemma ex_net_infos_listed: "netrela_getTidListForPods ex_env ex_pods = Ok ex_net_infos"
  by code_simp

lemma ex_state_reachable: "server_reachable env ex_state"
proof -
  have "snd (case GetNumaNodeInof ex_nodes server_initial of Ok x \<Rightarrow> x) = ex_state"
    by code_simp
  moreover have "go_is_ok (GetNumaNodeInof ex_nodes server_initial)" by code_simp
  ultimately obtain info where "GetNumaNodeInof ex_nodes server_initial = Ok (info, ex_state)"
    by (auto simp: go_is_ok_iff)
  then show ?thesis by (metis server_reachable.start server_reachable.step server_step.numa)
qed

lemma ex_state_numa: "0 < sv_numaNums ex_state" "server_inv ex_state"
  using server_reachable_inv [OF ex_state_reachable] by (auto simp: ex_state_def)

lemma ex_pods_ok: "length ex_pods < 1024" "distinct (map pb_uid ex_pods)"
  by (auto simp: ex_pods_def ex_pod_def)

lemma GetPodAffinity_components_witness:
  "\<exists>cs st'. GetPodAffinity ex_env rev ex_pods ex_state =
      Ok (map (\<lambda>(k, c). \<lparr>pbg_number = int k mod sv_numaNums ex_state, pbg_pods = map ((!) ex_pods) c\<rparr>)
            (enumerate 0 cs), st')
    \<and> distinct cs
    \<and> set cs = pod_components (length ex_pods)
                 (affinity_edges hasPodAffinity (calculateGid ex_env ex_infos))"
  by (rule GetPodAffinity_components [OF ex_state_reachable ex_state_numa(1) range_order_rev
      ex_pods_ok ex_infos_listed])

lemma netrela_GetPodAffinity_components_witness:
  "\<exists>cs st'. netrela_GetPodAffinity ex_env id [\<lparr>nr_pid_a = 200, nr_pid_b = 101, nr_level = 1\<rparr>] 1
      ex_pods ex_state =
      Ok (map (\<lambda>(k, c). \<lparr>pbg_number = int k mod sv_numaNums ex_state, pbg_pods = map ((!) ex_pods) c\<rparr>)
            (enumerate 0 cs), st')
    \<and> server_inv st' \<and> distinct cs
    \<and> set cs = pod_components (length ex_pods)
        {(i, j). i < j \<and> j < length ex_pods
           \<and> net_related (take 1 [\<lparr>nr_pid_a = 200, nr_pid_b = 101, nr_level = 1\<rparr>])
                (ex_net_infos ! i) (ex_net_infos ! j)}"
  by (rule netrela_GetPodAffinity_components [OF ex_state_numa(2,1) range_order_id
      ex_pods_ok _ ex_net_infos_listed]) simp

section \<open>Crashes\<close>

text \<open>
  The parser of a process line indexes field 3 after checking for three fields only: it
  panics exactly on the lines of three fields whose third field is a number, and on no other.
\<close>

theorem ps_line_panics_iff:
  "go_is_panic (ps_line targetPid line pi) \<longleftrightarrow>
     length (strings_Fields line) = 3 \<and> go_is_ok (strconv_Atoi (strings_Fields line ! 2))"
proof -
  have no_panic: "strconv_Atoi s \<noteq> Panic p" for s p
    by (auto simp: strconv_Atoi_def Let_def split: option.splits)
  consider "length (strings_Fields line) < 3" | "length (strings_Fields line) = 3"
    | "3 < length (strings_Fields line)" by linarith
  then show ?thesis
    by cases (auto simp: ps_line_def Let_def go_nth_def no_panic go_is_ok_iff split: go.splits)
qed

text \<open>
  A request for as many pods as the union-find array has cells, or more, crashes the server
  on an index out of range, whatever the pods are.
\<close>

lemma GetPodAffinity_too_many_pods:
  assumes "server_reachable env st" and "1024 \<le> length pods"
    and "getTidListForPods env pods = Ok infos"
  shows "GetPodAffinity env order pods st = Panic IndexOutOfRange"
proof -
  have "length infos = length pods"
    using getTidListForPods_uids [OF assms(3)] by (metis length_map)
  then have "init_unionFindSet (sv_fa st) (length infos) = Panic IndexOutOfRange"
    using server_reachable_inv [OF assms(1)] assms(2)
    by (intro init_panics) (simp add: server_inv_def)
  then show ?thesis
    using assms(3) by (simp add: GetPodAffinity_def join_related_def calculateGid_def)
qed

lemma replicate_pods_listed:
  "getTidListForPods env (replicate k \<lparr>pb_containerdIDs = [], pb_uid = u, pb_podName = n,
       pb_podNamespace = ns\<rparr>) = Ok (replicate k \<lparr>pi_uid = u, pi_tids = [], pi_gids = []\<rparr>)"
proof -
  have "go_for (\<lambda>pod infos. go_map (\<lambda>pi. infos @ [pi]) (pod_tids env \<lparr>pi_uid = '''', pi_tids = [], pi_gids = []\<rparr> pod))
      (replicate k \<lparr>pb_containerdIDs = [], pb_uid = u, pb_podName = n, pb_podNamespace = ns\<rparr>) acc
      = Ok (acc @ replicate k \<lparr>pi_uid = u, pi_tids = [], pi_gids = []\<rparr>)" for acc
    by (induction k arbitrary: acc) (auto simp: pod_tids_def)
  from this [of "[]"] show ?thesis by (simp add: getTidListForPods_def)
qed

lemma affinity_groups_no_numa:
  "affinity_groups order 0 pods infos groups =
     (if \<exists>(g, c) \<in> set (order groups). 2 \<le> length c then Panic DivideByZero else Ok [])"
proof -
  have "go_map snd (go_for (\<lambda>(g, idxs) (numaNode, resp).
           if length idxs < 2 then Ok (numaNode, resp)
           else go_bind (go_mod (numaNode + 1) 0) (\<lambda>numaNode1.
             go_bind (go_for (\<lambda>idx ps. go_map (\<lambda>p. ps @ [p]) (group_pod pp infos idx)) idxs [])
               (\<lambda>ps. Ok (numaNode1, resp @ [\<lparr>pbg_number = numaNode, pbg_pods = ps\<rparr>]))))
         gs (k, resp)) =
      (if \<exists>(g, c) \<in> set gs. 2 \<le> length c then Panic DivideByZero else Ok resp)"
    for gs k resp and pp :: "(string, pb_pod) go_map"
    by (induction gs arbitrary: k resp) (auto simp: go_mod_def)
  then show ?thesis unfolding affinity_groups_def Let_def by assumption
qed

text \<open>There is a group of two pods exactly when two pods are related.\<close>

lemma group_of_two:
  assumes "\<forall>x < n. \<forall>y < n. rep x = rep y \<longleftrightarrow> connected (affinity_edges affine infos) x y"
    and "n = length infos"
  shows "(\<exists>(g, c) \<in> set (group_fold rep [0..<n] []). 2 \<le> length c) \<longleftrightarrow> affinity_edges affine infos \<noteq> {}"
proof
  assume "affinity_edges affine infos \<noteq> {}"
  then obtain i j where ij: "(i, j) \<in> affinity_edges affine infos" by auto
  then have b: "i < j" "j < n" by (auto simp: affinity_edges_def assms(2))
  let ?c = "filter (\<lambda>x. rep x = rep i) [0..<n]"
  have "rep j = rep i"
    using assms(1) ij b connected_edge [OF ij] connected_sym by fastforce
  then have "{i, j} \<subseteq> set ?c" using b by auto
  then have "card {i, j} \<le> length ?c" by (meson card_length card_mono finite_set order_trans)
  then have "2 \<le> length ?c" using b by simp
  moreover from this have "(rep i, ?c) \<in> set (group_fold rep [0..<n] [])"
    unfolding group_fold_mem by (metis list.size(3) not_numeral_le_zero)
  ultimately show "\<exists>(g, c) \<in> set (group_fold rep [0..<n] []). 2 \<le> length c" by blast
next
  assume "\<exists>(g, c) \<in> set (group_fold rep [0..<n] []). 2 \<le> length c"
  then obtain g c where c: "c = filter (\<lambda>x. rep x = g) [0..<n]" "2 \<le> length c"
    by (auto simp: group_fold_mem)
  have "distinct c" using c(1) by simp
  moreover have "0 < length c" "1 < length c" using c(2) by linarith+
  ultimately have "c ! 0 \<noteq> c ! 1" by (simp add: nth_eq_iff_index_eq del: One_nat_def)
  moreover have "c ! 0 \<in> set c" "c ! 1 \<in> set c" using c(2) by (auto intro: nth_mem)
  then have "rep (c ! 0) = rep (c ! 1)" "c ! 0 < n" "c ! 1 < n" unfolding c(1) by auto
  ultimately show "affinity_edges affine infos \<noteq> {}" using assms(1) by auto
qed

text \<open>
  A server that was never asked for its NUMA nodes divides by zero on the first request
  that has two related pods; a request without related pods is answered with no group.
\<close>

lemma GetPodAffinity_before_numa:
  assumes "server_reachable env st" and "sv_numaNums st = 0" and "range_order order"
    and "length pods < 1024" and "getTidListForPods env pods = Ok infos"
  shows "if affinity_edges hasPodAffinity (calculateGid env infos) \<noteq> {}
         then GetPodAffinity env order pods st = Panic DivideByZero
         else \<exists>st'. GetPodAffinity env order pods st = Ok ([], st')"
proof -
  let ?infos = "calculateGid env infos"
  let ?E = "affinity_edges hasPodAffinity ?infos"
  have inv: "uf_inv (sv_fa st)" "length (sv_fa st) = 1024"
    using server_reachable_inv [OF assms(1)] by (auto simp: server_inv_def)
  have n: "length ?infos = length pods"
    using getTidListForPods_uids [OF assms(5)] by (metis calculateGid_uids length_map)
  obtain fa1 where fa1: "join_related hasPodAffinity ?infos (sv_fa st) = Ok fa1" "uf_inv fa1"
    "length fa1 = 1024"
    "\<forall>x < length pods. \<forall>y < length pods. uf_rep fa1 x = uf_rep fa1 y \<longleftrightarrow> connected ?E x y"
    using join_related_ok [OF inv(1), of ?infos hasPodAffinity] inv(2) assms(4) n by auto
  let ?m = "group_fold (uf_rep fa1) [0..<length pods] []"
  obtain fa2 where fa2: "collect_groups (length pods) fa1 = Ok (?m, fa2)"
    using collect_groups_ok [OF fa1(2), of "length pods"] fa1(3) assms(4) by auto
  have run: "GetPodAffinity env order pods st =
      go_map (\<lambda>resp. (resp, st\<lparr>sv_fa := fa2\<rparr>))
        (if \<exists>(g, c) \<in> set ?m. 2 \<le> length c then Panic DivideByZero else Ok [])"
    using assms(2,5) fa1(1) fa2
    by (simp add: GetPodAffinity_def getPodsAffinity_def affinity_groups_no_numa n
        range_order_set [OF assms(3)] Let_def)
  have "(\<exists>(g, c) \<in> set ?m. 2 \<le> length c) \<longleftrightarrow> ?E \<noteq> {}"
    by (rule group_of_two [OF fa1(4)]) (simp add: n)
  with run show ?thesis by auto
qed

lemma ex_related: "affinity_edges hasPodAffinity (calculateGid ex_env ex_infos) \<noteq> {}"
proof -
  have "hasPodAffinity (calculateGid ex_env ex_infos ! 0) (calculateGid ex_env ex_infos ! 1)"
    by code_simp
  then have "(0, 1) \<in> affinity_edges hasPodAffinity (calculateGid ex_env ex_infos)"
    by (simp add: affinity_edges_def calculateGid_def ex_infos_def)
  then show ?thesis by blast
qed

text \<open>
  C39: a request crashes the server in two cases. One of 1024 pods or more runs over the
  union-find array, whatever the pods are. And while the server was never asked for its NUMA
  nodes, a smaller request divides by zero exactly when two of its pods are related; without
  related pods it is answered with no group.
\<close>

theorem GetPodAffinity_crashes:
  assumes "server_reachable env st" and "range_order order"
    and "getTidListForPods env pods = Ok infos"
  shows "if 1024 \<le> length pods then GetPodAffinity env order pods st = Panic IndexOutOfRange
         else sv_numaNums st = 0 \<longrightarrow>
           (if affinity_edges hasPodAffinity (calculateGid env infos) \<noteq> {}
            then GetPodAffinity env order pods st = Panic DivideByZero
            else \<exists>st'. GetPodAffinity env order pods st = Ok ([], st'))"
  using GetPodAffinity_too_many_pods [OF assms(1) _ assms(3), of order]
    GetPodAffinity_before_numa [OF assms(1) _ assms(2) _ assms(3)] by simp

theorem GetPodAffinity_crashes_witness:
  "GetPodAffinity ex_env id (replicate 1024 \<lparr>pb_containerdIDs = [], pb_uid = ''u'',
      pb_podName = ''p'', pb_podNamespace = ''n''\<rparr>) ex_state = Panic IndexOutOfRange
   \<and> GetPodAffinity ex_env id ex_pods server_initial = Panic DivideByZero"
  using GetPodAffinity_crashes [OF ex_state_reachable range_order_id
      replicate_pods_listed [where k = 1024]]
    GetPodAffinity_crashes [OF server_reachable.start range_order_id ex_infos_listed]
    ex_pods_ok(1) ex_related
  by (simp add: server_initial_def)

section \<open>NUMA topology\<close>

lemma numa_node_of_ok:
  assumes "length (cn_cpus node) \<le> 1024"
  shows "numa_node_of i node = Ok \<lparr>pbn_number = int i, pbn_cpuset = convertCpuSet (cn_cpus node),
           pbn_memset = strconv_Itoa (cn_memset node)\<rparr>"
proof -
  have "go_for (\<lambda>c cpus. go_map (\<lambda>cpu. cpus @ [cpu]) (c_array_nth (cn_cpus node) c)) [0..<k] []
          = Ok (take k (cn_cpus node))" if "k \<le> length (cn_cpus node)" for k
    using that assms
    by (induction k)
       (auto simp: go_for_append c_array_nth_def c_array_max_def take_Suc_conv_app_nth)
  then show ?thesis by (simp add: numa_node_of_def)
qed

lemma GetNumaNodeInof_ok:
  assumes "length nodes \<le> 1024" and "\<And>n. n \<in> set nodes \<Longrightarrow> length (cn_cpus n) \<le> 1024"
  shows "GetNumaNodeInof nodes st =
     Ok (\<lparr>pbi_valid = True, pbi_nodes = map (\<lambda>(i, n).
           \<lparr>pbn_number = int i, pbn_cpuset = convertCpuSet (cn_cpus n),
            pbn_memset = strconv_Itoa (cn_memset n)\<rparr>) (enumerate 0 nodes)\<rparr>,
         st\<lparr>sv_numaNums := int (length nodes)\<rparr>)"
proof -
  let ?f = "\<lambda>(i, n). \<lparr>pbn_number = int i, pbn_cpuset = convertCpuSet (cn_cpus n),
            pbn_memset = strconv_Itoa (cn_memset n)\<rparr>"
  have "go_for (\<lambda>i acc. go_bind (c_array_nth nodes i) (\<lambda>node.
           go_map (\<lambda>n. acc @ [n]) (numa_node_of i node))) [0..<k] []
          = Ok (map ?f (enumerate 0 (take k nodes)))" if "k \<le> length nodes" for k
    using that assms
    by (induction k)
       (auto simp: go_for_append c_array_nth_def c_array_max_def take_Suc_conv_app_nth
          numa_node_of_ok enumerate_append_eq)
  then show ?thesis by (simp add: GetNumaNodeInof_def)
qed

text \<open>
  The textual cpusets of the NUMA answer lose nothing: splitting a node's cpuset at the
  commas, as the agent does, and parsing the pieces gives back the node's CPU numbers. The
  server remembers the number of nodes for the round robin of the groups.
\<close>

theorem GetNumaNodeInof_cpusets:
  assumes "length nodes \<le> 1024"
    and "\<forall>n \<in> set nodes. cn_cpus n \<noteq> [] \<and> length (cn_cpus n) \<le> 1024
           \<and> (\<forall>c \<in> set (cn_cpus n). - (2 ^ 31) \<le> c \<and> c < 2 ^ 31)"
  shows "\<exists>info. GetNumaNodeInof nodes st = Ok (info, st\<lparr>sv_numaNums := int (length nodes)\<rparr>)
     \<and> map (\<lambda>n. map strconv_Atoi (strings_Split (pbn_cpuset n) (CHR '',''))) (pbi_nodes info)
         = map (\<lambda>n. map Ok (cn_cpus n)) nodes
     \<and> map pbn_number (pbi_nodes info) = map int [0..<length nodes]"
proof -
  have "map strconv_Atoi (strings_Split (convertCpuSet (cn_cpus n)) (CHR '','')) = map Ok (cn_cpus n)"
    if "n \<in> set nodes" for n
    unfolding convertCpuSet_def
    by (rule cpu_list.parse_joined) (use assms(2) that in \<open>force simp: int64_range_def\<close>)+
  then have "map ((\<lambda>n. map strconv_Atoi (strings_Split (convertCpuSet (cn_cpus n)) (CHR '','')))
        \<circ> snd) (enumerate 0 nodes) = map (\<lambda>n. map Ok (cn_cpus n)) nodes"
    by (simp add: map_map [symmetric] del: map_map)
  moreover have "map (\<lambda>x. int (fst x)) (enumerate 0 nodes) = map int [0..<length nodes]"
    by (rule nth_equalityI) (auto simp: nth_enumerate_eq)
  ultimately show ?thesis
    using assms by (simp add: GetNumaNodeInof_ok o_def split_def)
qed

lemma GetNumaNodeInof_cpusets_witness:
  "\<exists>info. GetNumaNodeInof ex_nodes server_initial
        = Ok (info, server_initial\<lparr>sv_numaNums := int (length ex_nodes)\<rparr>)
     \<and> map (\<lambda>n. map strconv_Atoi (strings_Split (pbn_cpuset n) (CHR '',''))) (pbi_nodes info)
         = map (\<lambda>n. map Ok (cn_cpus n)) ex_nodes
     \<and> map pbn_number (pbi_nodes info) = map int [0..<length ex_nodes]"
  by (rule GetNumaNodeInof_cpusets) (auto simp: ex_nodes_def)

end
