(* ===== verification/Cluster.thy ===== *)
theory Cluster
  imports ApiTypes
begin

text \<open>
  The outside world of the agent and its access layer: the Kubernetes API server behind the
  dynamic client, the pod API, the affinity service behind gRPC, the converter between
  unstructured objects and resources, and the container runtime. They are functions over an
  abstract world state, arguments of the definitions that use them. On top of them stands
  \<open>configIf\<close> of \<open>pkg/agent/config-interface.go\<close> and the affinity client of
  \<open>pkg/policy/numafast/podaware.go\<close>.
\<close>

record container_update =
  cu_id :: string
  cu_cpus :: string
  cu_mems :: string

text \<open>
  \<^verbatim>\<open>Pods(ns).List\<close> returns a list pointer and an error, both kept: one caller ignores
  the error and uses the pointer. The runtime answers a container update with the updates that
  failed; creating and starting its plugin stub can fail.
\<close>

datatype selector = NoSelector | FieldSelector string | LabelSelector string

record ('w, 'u) cluster =
  cl_get :: "'w \<Rightarrow> string \<Rightarrow> string \<Rightarrow> string \<Rightarrow> 'u go"
  cl_update :: "'w \<Rightarrow> string \<Rightarrow> string \<Rightarrow> 'u \<Rightarrow> 'w \<times> 'u go"
  cl_create :: "'w \<Rightarrow> string \<Rightarrow> string \<Rightarrow> 'u \<Rightarrow> 'w \<times> 'u go"
  cl_list_pods :: "'w \<Rightarrow> string \<Rightarrow> selector \<Rightarrow> k8s_pod list option \<times> string option"
  cl_get_pod :: "'w \<Rightarrow> string \<Rightarrow> string \<Rightarrow> k8s_pod go"
  cl_numa_nodes :: "'w \<Rightarrow> pb_numa_info go"
  cl_pod_affinity :: "'w \<Rightarrow> pb_pod list \<Rightarrow> pb_affinity_group list go"
  cl_to_oenuma :: "'u \<Rightarrow> oenuma go"
  cl_of_oenuma :: "oenuma \<Rightarrow> 'u go"
  cl_to_whitelist :: "'u \<Rightarrow> whitelist go"
  cl_new_oenuma :: "oenuma \<Rightarrow> 'u"
  cl_update_containers :: "'w \<Rightarrow> container_update list \<Rightarrow> 'w \<times> container_update list go"
  cl_stub_new :: "'w \<Rightarrow> 'w \<times> unit go"
  cl_stub_start :: "'w \<Rightarrow> 'w \<times> unit go"
  cl_stub_stop :: "'w \<Rightarrow> 'w"

section \<open>The agent's configuration interface\<close>

definition GetConfigCrd ::
    "('w, 'u) cluster \<Rightarrow> 'w \<Rightarrow> string \<Rightarrow> string \<Rightarrow> string \<Rightarrow> 'u go" where
  "GetConfigCrd cl w ns name resource =
     go_wrap (\<lambda>e. ''get configed crd error: '' @ e) (cl_get cl w resource ns name)"

text \<open>The resource is always \<^verbatim>\<open>oenumas\<close>, whatever object is passed.\<close>

definition UpdateConfigCrd ::
    "('w, 'u) cluster \<Rightarrow> 'w \<Rightarrow> string \<Rightarrow> 'u \<Rightarrow> 'w \<times> 'u go" where
  "UpdateConfigCrd cl w ns un =
     (let (w1, r) = cl_update cl w ''oenumas'' ns un
      in (w1, go_wrap (\<lambda>e. ''update config crd error'' @ e) r))"

definition default_oenuma :: "string \<Rightarrow> string \<Rightarrow> oenuma" where
  "default_oenuma name ns =
     \<lparr>oe_meta = \<lparr>om_name = name, om_namespace = ns\<rparr>,
      oe_spec = \<lparr>spec_name = ''testapp1'', spec_replicas = 1, spec_node = [],
                 spec_update = ''enable''\<rparr>\<rparr>"

text \<open>
  Any failed read counts as "does not exist"; the creation then decides.
\<close>

definition CreateConfigCrd ::
    "('w, 'u) cluster \<Rightarrow> 'w \<Rightarrow> string \<Rightarrow> string \<Rightarrow> 'w \<times> unit go" where
  "CreateConfigCrd cl w name ns =
     (case cl_get cl w ''oenumas'' ns name of
        Panic p \<Rightarrow> (w, Panic p)
      | Ok _ \<Rightarrow> (w, Err ''the target crd: oenuma already exists.'')
      | Err _ \<Rightarrow>
          (let (w1, r) = cl_create cl w ''oenumas'' ns (cl_new_oenuma cl (default_oenuma name ns))
           in (w1, go_map (\<lambda>_. ()) (go_wrap (\<lambda>_.
                ''unable to automatically create crd: oenuma, please try to creating it manually.'') r))))"

section \<open>The affinity client\<close>

definition affinity_request :: "k8s_pod list \<Rightarrow> pb_pod list" where
  "affinity_request pods =
     map (\<lambda>p. \<lparr>pb_containerdIDs = map cs_id (kp_statuses p), pb_uid = kp_uid p,
               pb_podName = kp_name p, pb_podNamespace = kp_ns p\<rparr>) pods"

definition GetNumaNodes :: "('w, 'u) cluster \<Rightarrow> 'w \<Rightarrow> pb_numa_info go" where
  "GetNumaNodes cl w = cl_numa_nodes cl w"

definition GetPodAffinityRelationship ::
    "('w, 'u) cluster \<Rightarrow> 'w \<Rightarrow> k8s_pod list \<Rightarrow> pb_affinity_group list go" where
  "GetPodAffinityRelationship cl w pods =
     go_wrap (\<lambda>e. ''get pod affinity error: '' @ e) (cl_pod_affinity cl w (affinity_request pods))"

section \<open>Shared steps of the agent's handlers\<close>

text \<open>The fields of \<^verbatim>\<open>Agent\<close> that its handlers read.\<close>

record agent_cfg =
  ag_nodeName :: string
  ag_kubeconfig :: string
  ag_configFile :: string
  ag_namespace :: string
  ag_crdname :: string

text \<open>Reading the agent's own Oenuma resource.\<close>

definition read_oenuma :: "('w, 'u) cluster \<Rightarrow> agent_cfg \<Rightarrow> 'w \<Rightarrow> oenuma go" where
  "read_oenuma cl a w =
     go_bind (GetConfigCrd cl w (ag_namespace a) (ag_crdname a) ''oenumas'') (cl_to_oenuma cl)"

text \<open>
  Writing it back: \<^verbatim>\<open>un.Object\<close> is replaced by the converted resource and sent.
\<close>

definition write_oenuma ::
    "('w, 'u) cluster \<Rightarrow> agent_cfg \<Rightarrow> 'w \<Rightarrow> oenuma \<Rightarrow> 'w \<times> unit go" where
  "write_oenuma cl a w oe =
     (case cl_of_oenuma cl oe of
        Ok un \<Rightarrow> (let (w1, r) = UpdateConfigCrd cl w (ag_namespace a) un
                   in (w1, go_map (\<lambda>_. ()) r))
      | Err e \<Rightarrow> (w, Err e)
      | Panic p \<Rightarrow> (w, Panic p))"

definition getManagedPods :: "('w, 'u) cluster \<Rightarrow> agent_cfg \<Rightarrow> 'w \<Rightarrow> whitelist go" where
  "getManagedPods cl a w =
     go_bind (GetConfigCrd cl w (ag_namespace a) ''whitelist'' ''whitelists'') (cl_to_whitelist cl)"

text \<open>
  \<^verbatim>\<open>targetNode\<close> is a pointer: to an element of \<^verbatim>\<open>oenuma.Spec.Node\<close>, or to a
  node of its own. A value appended to the slice is a copy, so a later write through a pointer
  of the second kind does not reach the resource.
\<close>

datatype target = SpecNode nat | LocalNode node

definition update_spec_nodes :: "(node list \<Rightarrow> node list) \<Rightarrow> oenuma \<Rightarrow> oenuma" where
  "update_spec_nodes f oe = oe\<lparr>oe_spec := (oe_spec oe)\<lparr>spec_node := f (spec_node (oe_spec oe))\<rparr>\<rparr>"

definition oe_nodes :: "oenuma \<Rightarrow> node list" where
  "oe_nodes oe = spec_node (oe_spec oe)"

fun write_target :: "target \<Rightarrow> (node \<Rightarrow> node) \<Rightarrow> oenuma \<Rightarrow> target \<times> oenuma" where
  "write_target (SpecNode i) f oe =
     (SpecNode i, update_spec_nodes (\<lambda>ns. ns[i := f (ns ! i)]) oe)"
| "write_target (LocalNode n) f oe = (LocalNode (f n), oe)"

fun read_target :: "target \<Rightarrow> oenuma \<Rightarrow> node" where
  "read_target (SpecNode i) oe = oe_nodes oe ! i"
| "read_target (LocalNode n) oe = n"

text \<open>The search loop: the first node with the agent's name.\<close>

fun node_index :: "string \<Rightarrow> node list \<Rightarrow> nat option" where
  "node_index name [] = None"
| "node_index name (n # ns) =
     (if node_name n = name then Some 0 else map_option Suc (node_index name ns))"

definition numa_entries :: "pb_numa_info \<Rightarrow> numa list" where
  "numa_entries info =
     map (\<lambda>n. \<lparr>numa_num = to_int32 (pbn_number n), numa_cpuset = pbn_cpuset n,
               numa_memset = pbn_memset n\<rparr>) (pbi_nodes info)"

lemma node_index_Some:
  "node_index name ns = Some i \<Longrightarrow> i < length ns \<and> node_name (ns ! i) = name
     \<and> (\<forall>j < i. node_name (ns ! j) \<noteq> name)"
proof (induction ns arbitrary: i)
  case (Cons n ns)
  show ?case
  proof (cases "node_name n = name")
    case False
    with Cons.prems obtain k where "node_index name ns = Some k" "i = Suc k" by auto
    with Cons.IH [of k] False show ?thesis by (auto simp: less_Suc_eq_0_disj)
  qed (use Cons.prems in auto)
qed simp

lemma node_index_None: "node_index name ns = None \<longleftrightarrow> name \<notin> node_name ` set ns"
  by (induction ns) auto

lemma oe_nodes_update [simp]: "oe_nodes (update_spec_nodes f oe) = f (oe_nodes oe)"
  by (simp add: oe_nodes_def update_spec_nodes_def)

lemma oe_meta_update [simp]: "oe_meta (update_spec_nodes f oe) = oe_meta oe"
  by (simp add: update_spec_nodes_def)

end
