(* ===== verification/LoadBalance.thy ===== *)
theory LoadBalance
  imports Cluster
begin

text \<open>
  \<open>updateByLoadBalancing\<close> of \<open>pkg/agent/agent.go\<close>: whitelisted pods are spread over the NUMA
  nodes; a pod of class Guaranteed gets as many CPUs as its containers request, taken in order
  from the CPUs of all nodes, any other pod gets a whole node, round robin.
\<close>

section \<open>The whitelist\<close>

definition whitelist_key :: "string \<Rightarrow> string \<Rightarrow> string" where
  "whitelist_key ns name = ns @ ''-'' @ name"

definition whitelist_map :: "whitelist \<Rightarrow> (string, bool) go_map" where
  "whitelist_map wl =
     fold (\<lambda>tp m. fold (\<lambda>name m. AList.update (whitelist_key (tp_ns tp) name) True m) (tp_names tp) m)
       (wl_targets (wl_spec wl)) []"

definition whitelisted :: "(string, bool) go_map \<Rightarrow> k8s_pod \<Rightarrow> bool" where
  "whitelisted m pod \<longleftrightarrow> map_of m (whitelist_key (kp_ns pod) (kp_name pod)) = Some True"

section \<open>The CPUs\<close>

definition all_cpus :: "pb_numa_info \<Rightarrow> string list" where
  "all_cpus info = concat (map (\<lambda>n. strings_Split (pbn_cpuset n) (CHR '','')) (pbi_nodes info))"

text \<open>
  One CPU of a Guaranteed container: the next one of all CPUs while the index is inside the
  pod's NUMA node, one of the overflow index otherwise. The state is the CPUs so far,
  \<^verbatim>\<open>guranteedPodCpuIdx\<close> and \<^verbatim>\<open>overFlowCpuIdx\<close>.
\<close>

definition lb_take_cpu ::
    "int \<Rightarrow> string list \<Rightarrow> int \<Rightarrow> string list \<times> int \<times> int \<Rightarrow> (string list \<times> int \<times> int) go" where
  "lb_take_cpu perNuma cpus numaNo = (\<lambda>(acc, idx, overflow).
     go_bind (go_div idx perNuma) (\<lambda>q.
       if q = numaNo
       then go_bind (go_nth cpus idx) (\<lambda>c. Ok (acc @ [c], idx + 1, overflow))
       else go_bind (go_nth cpus overflow) (\<lambda>c.
              let overflow1 = overflow + 1
              in Ok (acc @ [c], idx,
                     if overflow1 = (numaNo + 1) * perNuma then numaNo * perNuma else overflow1))))"

definition lb_take_cpus ::
    "int \<Rightarrow> string list \<Rightarrow> int \<Rightarrow> int \<Rightarrow> int \<Rightarrow> int \<Rightarrow> (string list \<times> int \<times> int) go" where
  "lb_take_cpus perNuma cpus numaNo quantity idx overflow =
     go_for (\<lambda>_. lb_take_cpu perNuma cpus numaNo) [0..<nat quantity] ([], idx, overflow)"

text \<open>All containers of a Guaranteed pod; the overflow index lives as long as the pod.\<close>

definition lb_container ::
    "int \<Rightarrow> string list \<Rightarrow> int \<Rightarrow> container_status list \<Rightarrow> k8s_container \<Rightarrow>
     container list \<times> int \<times> int \<Rightarrow> (container list \<times> int \<times> int) go" where
  "lb_container perNuma cpus numaNo statuses c = (\<lambda>(acc, idx, overflow).
     go_bind (lb_take_cpus perNuma cpus numaNo (kc_cpus c) idx overflow)
       (\<lambda>(got, idx1, overflow1).
         Ok (acc @ [\<lparr>ctr_id = status_id statuses (kc_name c), ctr_name = kc_name c,
                     ctr_cpuset = strings_Join got '','', ctr_memset = strconv_Itoa numaNo\<rparr>],
             idx1, overflow1)))"

definition lb_containers ::
    "int \<Rightarrow> string list \<Rightarrow> int \<Rightarrow> container_status list \<Rightarrow> k8s_container list \<Rightarrow> int \<Rightarrow> int \<Rightarrow>
     (container list \<times> int \<times> int) go" where
  "lb_containers perNuma cpus numaNo statuses cs idx overflow =
     go_for (lb_container perNuma cpus numaNo statuses) cs ([], idx, overflow)"

section \<open>The pods\<close>

text \<open>State of the pod loop: the two indices and the affinity entries.\<close>

type_synonym lb_state = "int \<times> int \<times> pod_affinity list"

definition lb_pod ::
    "int \<Rightarrow> int \<Rightarrow> string list \<Rightarrow> (string, bool) go_map \<Rightarrow> k8s_pod \<Rightarrow> lb_state \<Rightarrow> lb_state go" where
  "lb_pod numas perNuma cpus wl pod = (\<lambda>(idx, nonIdx, pas).
     if \<not> whitelisted wl pod then Ok (idx, nonIdx, pas)
     else go_bind (go_div idx perNuma) (\<lambda>overflow.
       if kp_qos pod = ''Guaranteed''
       then go_bind (go_div idx perNuma) (\<lambda>numaNo.
            go_bind (lb_containers perNuma cpus numaNo (kp_statuses pod) (kp_containers pod) idx overflow)
              (\<lambda>(cs, idx1, _).
                Ok (idx1, nonIdx, pas @ [\<lparr>pa_numa = to_int32 numaNo, pa_pod = kp_name pod,
                                          pa_ns = kp_ns pod, pa_containers = cs\<rparr>])))
       else go_bind (go_mod (nonIdx + 1) numas) (\<lambda>nonIdx1.
              Ok (idx, nonIdx1, pas @ [\<lparr>pa_numa = to_int32 nonIdx, pa_pod = kp_name pod,
                                        pa_ns = kp_ns pod, pa_containers = []\<rparr>]))))"

definition lb_pods ::
    "pb_numa_info \<Rightarrow> (string, bool) go_map \<Rightarrow> k8s_pod list option \<Rightarrow> pod_affinity list go" where
  "lb_pods info wl pods =
     (let cpus = all_cpus info; numas = int (length (pbi_nodes info))
      in go_bind (go_div (int (length cpus)) numas) (\<lambda>perNuma.
           case pods of
             None \<Rightarrow> Panic NilDereference
           | Some ps \<Rightarrow>
               go_map (\<lambda>(_, _, pas). pas) (go_for (lb_pod numas perNuma cpus wl) ps (0, 0, []))))"

section \<open>The handler\<close>

text \<open>
  The target node: the first one with the agent's name, or a new one, of which a copy is
  appended to the resource.
\<close>

definition lb_target :: "string \<Rightarrow> pb_numa_info \<Rightarrow> oenuma \<Rightarrow> target \<times> oenuma" where
  "lb_target name info oe =
     (case node_index name (oe_nodes oe) of
        Some i \<Rightarrow> (SpecNode i, oe)
      | None \<Rightarrow>
          (let n = \<lparr>node_name = name, node_numa = numa_entries info, node_affinity = []\<rparr>
           in (LocalNode n, update_spec_nodes (\<lambda>ns. ns @ [n]) oe)))"

text \<open>
  The error of \<open>getManagedPods\<close> and that of the pod list are not looked at: the nil whitelist is
  dereferenced, the list pointer is used as it is.
\<close>

definition updateByLoadBalancing ::
    "('w, 'u) cluster \<Rightarrow> agent_cfg \<Rightarrow> 'w \<Rightarrow> 'w \<times> unit go" where
  "updateByLoadBalancing cl a w =
     (case go_bind (GetNumaNodes cl w) (\<lambda>info.
        go_bind (case getManagedPods cl a w of
                   Ok wl \<Rightarrow> Ok (whitelist_map wl)
                 | Err _ \<Rightarrow> Panic NilDereference
                 | Panic p \<Rightarrow> Panic p) (\<lambda>wl.
        go_bind (read_oenuma cl a w) (\<lambda>oe.
          let (tgt, oe1) = lb_target (ag_nodeName a) info oe;
              podList = fst (cl_list_pods cl w '''' (FieldSelector (''spec.nodeName='' @ ag_nodeName a)))
          in go_bind (lb_pods info wl podList) (\<lambda>pas.
               Ok (snd (write_target tgt (\<lambda>n. n\<lparr>node_affinity := pas\<rparr>) oe1))))))
      of Ok oe \<Rightarrow> write_oenuma cl a w oe
       | Err e \<Rightarrow> (w, Err e)
       | Panic p \<Rightarrow> (w, Panic p))"

end
