(* ===== verification/CpuBlocks.thy ===== *)
theory CpuBlocks
  imports ApiTypes
begin

text \<open>
  How both CPU policies are specified: a list of CPUs cut into consecutive blocks, one per
  container, of the size it asks for.
\<close>

fun blocks :: "nat list \<Rightarrow> 'a list \<Rightarrow> 'a list list" where
  "blocks [] xs = []"
| "blocks (q # qs) xs = take q xs # blocks qs (drop q xs)"

text \<open>A list read round and round.\<close>

definition cycle_take :: "nat \<Rightarrow> nat \<Rightarrow> 'a list \<Rightarrow> 'a list" where
  "cycle_take i n xs = map (\<lambda>k. xs ! ((i + k) mod length xs)) [0..<n]"

text \<open>What the containers of a pod ask for.\<close>

definition requests :: "k8s_pod \<Rightarrow> nat list" where
  "requests pod = map (\<lambda>c. nat (kc_cpus c)) (kp_containers pod)"

lemma blocks_append: "blocks (qs @ rs) xs = blocks qs xs @ blocks rs (drop (sum_list qs) xs)"
  by (induction qs arbitrary: xs) (auto simp: add.commute)

lemma concat_blocks: "concat (blocks qs xs) = take (sum_list qs) xs"
  by (induction qs arbitrary: xs) (auto simp: take_add)

lemma length_blocks [simp]: "length (blocks qs xs) = length qs"
  by (induction qs arbitrary: xs) auto

lemma blocks_set: "b \<in> set (blocks qs xs) \<Longrightarrow> set b \<subseteq> set (take (sum_list qs) xs)"
  by (metis UN_upper concat_blocks set_concat)

lemma cycle_take_add: "cycle_take i (m + n) xs = cycle_take i m xs @ cycle_take (i + m) n xs"
proof -
  have "[0..<m + n] = [0..<m] @ map (\<lambda>k. k + m) [0..<n]"
    using upt_add_eq_append [of 0 m n] by (simp only: map_add_upt add_0 add.commute [of n m])
  then show ?thesis by (simp add: cycle_take_def ac_simps)
qed

lemma length_cycle_take [simp]: "length (cycle_take i n xs) = n"
  by (simp add: cycle_take_def)

lemma cycle_take_0 [simp]: "cycle_take i 0 xs = []"
  by (simp add: cycle_take_def)

lemma cycle_take_mod: "cycle_take (i mod length xs) n xs = cycle_take i n xs"
  by (simp add: cycle_take_def mod_add_left_eq)

text \<open>Up to its length the cycle is the list itself, so nothing is read twice.\<close>

lemma cycle_take_once: "n \<le> length xs \<Longrightarrow> cycle_take 0 n xs = take n xs"
  by (rule nth_equalityI) (auto simp: cycle_take_def)

lemma set_cycle_take: "xs \<noteq> [] \<Longrightarrow> set (cycle_take i n xs) \<subseteq> set xs"
  by (auto simp: cycle_take_def)

lemma blocks_prefix: "sum_list qs \<le> length ys \<Longrightarrow> blocks qs (ys @ zs) = blocks qs ys"
  by (induction qs arbitrary: ys) (auto simp: drop_append)

lemma blocks_append_lists:
  "length ys = sum_list qs \<Longrightarrow> blocks (qs @ rs) (ys @ zs) = blocks qs ys @ blocks rs zs"
  by (simp add: blocks_append blocks_prefix)

end
