(* ===== verification/ClusterSample.thy ===== *)
theory ClusterSample
  imports Cluster
begin

text \<open>
  A concrete cluster: an API server that keeps its resources in maps, one node's pods and
  topology. It instantiates the external functions wherever a property is applied to a
  concrete case.
\<close>

record world =
  wd_oenumas :: "((string \<times> string) \<times> oenuma) list"
  wd_whitelists :: "((string \<times> string) \<times> whitelist) list"
  wd_pods :: "k8s_pod list"
  wd_numa :: pb_numa_info
  wd_groups :: "pb_affinity_group list"
  wd_updates :: "container_update list"

type_synonym uobject = "oenuma + whitelist"

definition world_get :: "world \<Rightarrow> string \<Rightarrow> string \<Rightarrow> string \<Rightarrow> uobject go" where
  "world_get w resource ns name =
     (if resource = ''oenumas''
      then (case map_of (wd_oenumas w) (ns, name) of
              Some oe \<Rightarrow> Ok (Inl oe) | None \<Rightarrow> Err ''not found'')
      else if resource = ''whitelists''
      then (case map_of (wd_whitelists w) (ns, name) of
              Some wl \<Rightarrow> Ok (Inr wl) | None \<Rightarrow> Err ''not found'')
      else Err ''no such resource'')"

definition world_put :: "world \<Rightarrow> string \<Rightarrow> string \<Rightarrow> uobject \<Rightarrow> world \<times> uobject go" where
  "world_put w resource ns un =
     (case un of
        Inl oe \<Rightarrow> (if resource = ''oenumas''
          then (w\<lparr>wd_oenumas := AList.update (ns, om_name (oe_meta oe)) oe (wd_oenumas w)\<rparr>, Ok un)
          else (w, Err ''wrong kind''))
      | Inr wl \<Rightarrow> (w, Err ''wrong kind''))"

definition sample_cluster :: "(world, uobject) cluster" where
  "sample_cluster =
     \<lparr>cl_get = world_get, cl_update = world_put, cl_create = world_put,
      cl_list_pods = (\<lambda>w ns sel. (Some (filter (\<lambda>p. (ns = '''' \<or> kp_ns p = ns) \<and>
          (case sel of LabelSelector l \<Rightarrow> (case kp_labels p of Some m \<Rightarrow> l \<in> fst ` set m | None \<Rightarrow> False)
           | _ \<Rightarrow> True)) (wd_pods w)), None)),
      cl_get_pod = (\<lambda>w ns name.
        case find (\<lambda>p. kp_ns p = ns \<and> kp_name p = name) (wd_pods w) of
          Some p \<Rightarrow> Ok p | None \<Rightarrow> Err ''pod not found''),
      cl_numa_nodes = (\<lambda>w. Ok (wd_numa w)),
      cl_pod_affinity = (\<lambda>w pods. Ok (wd_groups w)),
      cl_to_oenuma = (\<lambda>un. case un of Inl oe \<Rightarrow> Ok oe | Inr _ \<Rightarrow> Err ''not an oenuma''),
      cl_of_oenuma = (\<lambda>oe. Ok (Inl oe)),
      cl_to_whitelist = (\<lambda>un. case un of Inr wl \<Rightarrow> Ok wl | Inl _ \<Rightarrow> Err ''not a whitelist''),
      cl_new_oenuma = Inl,
      cl_update_containers = (\<lambda>w us. (w\<lparr>wd_updates := wd_updates w @ us\<rparr>, Ok [])),
      cl_stub_new = (\<lambda>w. (w, Ok ())), cl_stub_start = (\<lambda>w. (w, Ok ())), cl_stub_stop = id\<rparr>"

definition sample_agent :: agent_cfg where
  "sample_agent =
     \<lparr>ag_nodeName = ''n1'', ag_kubeconfig = '''', ag_configFile = '''',
      ag_namespace = ''tcs'', ag_crdname = ''podafi''\<rparr>"

definition sample_numa :: pb_numa_info where
  "sample_numa =
     \<lparr>pbi_valid = True,
      pbi_nodes = [\<lparr>pbn_number = 0, pbn_cpuset = ''0,1'', pbn_memset = ''0''\<rparr>,
                   \<lparr>pbn_number = 1, pbn_cpuset = ''2,3'', pbn_memset = ''1''\<rparr>]\<rparr>"

definition sample_pod :: "string \<Rightarrow> string \<Rightarrow> string \<Rightarrow> int list \<Rightarrow> k8s_pod" where
  "sample_pod ns name qos cpus =
     \<lparr>kp_name = name, kp_ns = ns, kp_uid = name @ ''-uid'', kp_labels = None, kp_qos = qos,
      kp_containers = map (\<lambda>(i, q). \<lparr>kc_name = ''c'' @ strconv_Itoa (int i), kc_cpus = q\<rparr>)
        (List.enumerate 0 cpus),
      kp_statuses = map (\<lambda>(i, _). \<lparr>cs_name = ''c'' @ strconv_Itoa (int i),
          cs_id = name @ ''/'' @ strconv_Itoa (int i)\<rparr>) (List.enumerate 0 cpus)\<rparr>"

definition sample_whitelist :: "(string \<times> string list) list \<Rightarrow> whitelist" where
  "sample_whitelist ts =
     \<lparr>wl_meta = \<lparr>om_name = ''whitelist'', om_namespace = ''tcs''\<rparr>,
      wl_spec = \<lparr>wl_name = ''whitelist'', wl_effective = True,
        wl_targets = map (\<lambda>(ns, names). \<lparr>tp_ns = ns, tp_names = names\<rparr>) ts\<rparr>\<rparr>"

definition sample_oenuma :: "node list \<Rightarrow> oenuma" where
  "sample_oenuma ns =
     \<lparr>oe_meta = \<lparr>om_name = ''podafi'', om_namespace = ''tcs''\<rparr>,
      oe_spec = \<lparr>spec_name = ''testapp1'', spec_replicas = 1, spec_node = ns, spec_update = ''enable''\<rparr>\<rparr>"

definition sample_world ::
    "node list \<Rightarrow> (string \<times> string list) list \<Rightarrow> k8s_pod list \<Rightarrow> pb_affinity_group list \<Rightarrow> world" where
  "sample_world ns ts pods groups =
     \<lparr>wd_oenumas = [((''tcs'', ''podafi''), sample_oenuma ns)],
      wd_whitelists = [((''tcs'', ''whitelist''), sample_whitelist ts)],
      wd_pods = pods, wd_numa = sample_numa, wd_groups = groups, wd_updates = []\<rparr>"

end
