(* ===== verification/LoadBalanceProps.thy ===== *)
theory LoadBalanceProps
  imports LoadBalance CpuBlocks ClusterSample
begin

text \<open>
  The CPUs that \<open>updateByLoadBalancing\<close> hands out. As long as every Guaranteed pod fits into what
  is left of its NUMA node, the containers get consecutive blocks of the CPU list, so no CPU is
  given twice and none crosses a node; when a pod overflows its node, or the CPUs run out, the
  code goes wrong in ways the last properties state.
\<close>

section \<open>The reference allocation\<close>

text \<open>The pods that take CPUs, and how many they take.\<close>

definition pinned :: "(string, bool) go_map \<Rightarrow> k8s_pod \<Rightarrow> bool" where
  "pinned wl pod \<longleftrightarrow> whitelisted wl pod \<and> kp_qos pod = ''Guaranteed''"

definition pinned_demand :: "(string, bool) go_map \<Rightarrow> k8s_pod list \<Rightarrow> nat" where
  "pinned_demand wl pods = sum_list (concat (map requests (filter (pinned wl) pods)))"

text \<open>Every pinned pod asks for CPUs and fits into the rest of the node the index is in.\<close>

fun lb_fits :: "nat \<Rightarrow> (string, bool) go_map \<Rightarrow> nat \<Rightarrow> k8s_pod list \<Rightarrow> bool" where
  "lb_fits P wl idx [] = True"
| "lb_fits P wl idx (p # ps) =
     (if pinned wl p
      then 0 < sum_list (requests p) \<and> idx mod P + sum_list (requests p) \<le> P
           \<and> lb_fits P wl (idx + sum_list (requests p)) ps
      else lb_fits P wl idx ps)"

lemma pinned_demand_Cons:
  "pinned_demand wl (p # ps) =
     (if pinned wl p then sum_list (requests p) else 0) + pinned_demand wl ps"
  by (simp add: pinned_demand_def)

section \<open>One container\<close>

lemma index_in_node: "n * P \<le> i \<Longrightarrow> i < (n + 1) * P \<Longrightarrow> i div P = (n :: nat)"
  by (metis Suc_eq_plus1 div_nat_eqI mult.commute)

lemma take_in_node:
  assumes "n * P \<le> i" and "i + length xs \<le> (n + 1) * P" and "i + length xs \<le> length cpus"
  shows "go_for (\<lambda>_. lb_take_cpu (int P) cpus (int n)) xs (acc, int i, ov) =
         Ok (acc @ take (length xs) (drop i cpus), int (i + length xs), ov)"
  using assms
proof (induction xs arbitrary: i acc)
  case (Cons x xs)
  from Cons.prems have i: "i < (n + 1) * P" "i < length cpus" by auto
  then have "0 < P" by (cases P) auto
  have "go_div (int i) (int P) = Ok (int n)"
    using index_in_node [OF Cons.prems(1) i(1)] \<open>0 < P\<close> by (simp add: go_div_nonneg flip: zdiv_int)
  then have step: "lb_take_cpu (int P) cpus (int n) (acc, int i, ov) = Ok (acc @ [cpus ! i], int (i + 1), ov)"
    using i(2) by (simp add: lb_take_cpu_def)
  have rest: "take (Suc (length xs)) (drop i cpus) = cpus ! i # take (length xs) (drop (Suc i) cpus)"
    using i(2) by (metis Cons_nth_drop_Suc take_Suc_Cons)
  show ?case
    using Cons.IH [of "i + 1" "acc @ [cpus ! i]"] Cons.prems by (simp add: step rest)
qed simp

lemma lb_take_cpus_in_node:
  assumes "n * P \<le> i" and "i + nat q \<le> (n + 1) * P" and "i + nat q \<le> length cpus"
  shows "lb_take_cpus (int P) cpus (int n) q (int i) ov =
         Ok (take (nat q) (drop i cpus), int (i + nat q), ov)"
  using take_in_node [of n P i "[0..<nat q]" cpus "[]" ov] assms by (simp add: lb_take_cpus_def)

text \<open>In general both indices stay in the node, so no read is out of range.\<close>

lemma lb_take_cpus_ok:
  assumes "0 < P" and "n * P \<le> i" and "i \<le> (n + 1) * P" and "0 \<le> ov" and "ov < int ((n + 1) * P)"
    and "0 < q \<Longrightarrow> (n + 1) * P \<le> length cpus"
  shows "\<exists>got j ov'. lb_take_cpus (int P) cpus (int n) q (int i) ov = Ok (got, int j, ov')
           \<and> i \<le> j \<and> j \<le> i + nat q \<and> j \<le> (n + 1) * P \<and> 0 \<le> ov' \<and> ov' < int ((n + 1) * P)
           \<and> length got = nat q"
proof -
  let ?body = "\<lambda>_ :: nat. lb_take_cpu (int P) cpus (int n)"
  have "\<exists>got j ov'. go_for ?body xs (acc, int i, ov) = Ok (got, int j, ov')
           \<and> i \<le> j \<and> j \<le> i + length xs \<and> j \<le> (n + 1) * P \<and> 0 \<le> ov' \<and> ov' < int ((n + 1) * P)
           \<and> length got = length acc + length xs"
    if "xs \<noteq> [] \<Longrightarrow> (n + 1) * P \<le> length cpus" for xs acc
    using assms(2-5) that
  proof (induction xs arbitrary: i ov acc)
    case (Cons x xs)
    have len: "(n + 1) * P \<le> length cpus" using Cons.prems(5) by simp
    have div: "go_div (int i) (int P) = Ok (int (i div P))"
      using assms(1) by (simp add: go_div_nonneg zdiv_int)
    show ?case
    proof (cases "i div P = n")
      case True
      then have "i < (n + 1) * P" using assms(1)
        by (metis Suc_eq_plus1 dividend_less_div_times mult.commute mult_Suc add.commute)
      then have step: "?body x (acc, int i, ov) = Ok (acc @ [cpus ! i], int (i + 1), ov)"
        using True len by (simp add: lb_take_cpu_def div)
      have "\<exists>got j ov'. go_for ?body xs (acc @ [cpus ! i], int (i + 1), ov) = Ok (got, int j, ov')
           \<and> i + 1 \<le> j \<and> j \<le> i + 1 + length xs \<and> j \<le> (n + 1) * P \<and> 0 \<le> ov' \<and> ov' < int ((n + 1) * P)
           \<and> length got = length (acc @ [cpus ! i]) + length xs"
        by (rule Cons.IH) (use Cons.prems \<open>i < (n + 1) * P\<close> len in auto)
      then show ?thesis by (fastforce simp: step simp del: of_nat_add)
    next
      case False
      let ?ov = "if ov + 1 = (int n + 1) * int P then int n * int P else ov + 1"
      have ov: "nat ov < length cpus" "0 \<le> ov" using Cons.prems(3,4) len by linarith+
      have step: "?body x (acc, int i, ov) = Ok (acc @ [cpus ! nat ov], int i, ?ov)"
        using False ov by (simp add: lb_take_cpu_def div go_nth_def)
      have range: "0 \<le> ?ov" "?ov < int ((n + 1) * P)"
        using Cons.prems(3,4) assms(1) by (auto simp: algebra_simps)
      have "\<exists>got j ov'. go_for ?body xs (acc @ [cpus ! nat ov], int i, ?ov) = Ok (got, int j, ov')
           \<and> i \<le> j \<and> j \<le> i + length xs \<and> j \<le> (n + 1) * P \<and> 0 \<le> ov' \<and> ov' < int ((n + 1) * P)
           \<and> length got = length (acc @ [cpus ! nat ov]) + length xs"
        by (rule Cons.IH) (use Cons.prems range len in auto)
      then show ?thesis by (fastforce simp: step simp del: of_nat_add)
    qed
  qed simp
  from this [of "[0..<nat q]" "[]"] assms(6) show ?thesis
    by (simp add: lb_take_cpus_def)
qed

section \<open>One pod\<close>

definition placed :: "nat \<Rightarrow> container_status list \<Rightarrow> k8s_container \<Rightarrow> string list \<Rightarrow> container" where
  "placed n statuses c got =
     \<lparr>ctr_id = status_id statuses (kc_name c), ctr_name = kc_name c,
      ctr_cpuset = strings_Join got '','', ctr_memset = strconv_Itoa (int n)\<rparr>"

lemma lb_container_eq:
  assumes "lb_take_cpus (int P) cpus (int n) (kc_cpus c) idx ov = Ok (got, idx1, ov1)"
  shows "lb_container (int P) cpus (int n) statuses c (acc, idx, ov) =
         Ok (acc @ [placed n statuses c got], idx1, ov1)"
  using assms by (simp add: lb_container_def placed_def)

lemma lb_containers_in_node:
  assumes "n * P \<le> i" and "i + (\<Sum>c\<leftarrow>cs. nat (kc_cpus c)) \<le> (n + 1) * P"
    and "(n + 1) * P \<le> length cpus"
  shows "lb_containers (int P) cpus (int n) statuses cs (int i) ov =
         Ok (map2 (placed n statuses) cs (blocks (map (\<lambda>c. nat (kc_cpus c)) cs) (drop i cpus)),
             int (i + (\<Sum>c\<leftarrow>cs. nat (kc_cpus c))), ov)"
proof -
  let ?body = "lb_container (int P) cpus (int n) statuses"
  have "go_for ?body cs (acc, int i, ov) =
         Ok (acc @ map2 (placed n statuses) cs (blocks (map (\<lambda>c. nat (kc_cpus c)) cs) (drop i cpus)),
             int (i + (\<Sum>c\<leftarrow>cs. nat (kc_cpus c))), ov)" for acc
    using assms(1,2)
  proof (induction cs arbitrary: i acc)
    case (Cons c cs)
    let ?q = "nat (kc_cpus c)"
    let ?first = "placed n statuses c (take ?q (drop i cpus))"
    have step: "?body c (acc, int i, ov) = Ok (acc @ [?first], int (i + ?q), ov)"
      by (rule lb_container_eq, rule lb_take_cpus_in_node) (use Cons.prems assms(3) in auto)
    have rest: "go_for ?body cs (acc @ [?first], int (i + ?q), ov) =
        Ok ((acc @ [?first]) @ map2 (placed n statuses) cs
              (blocks (map (\<lambda>c. nat (kc_cpus c)) cs) (drop (i + ?q) cpus)),
            int (i + ?q + (\<Sum>c\<leftarrow>cs. nat (kc_cpus c))), ov)"
      by (rule Cons.IH) (use Cons.prems in auto)
    have drop: "drop ?q (drop i cpus) = drop (i + ?q) cpus" by (simp add: add.commute)
    show ?case
      by (simp only: go_for.simps step go_bind.simps rest list.map blocks.simps drop
          zip_Cons_Cons prod.case sum_list.Cons append_assoc append_Cons append_Nil add.assoc)
  qed simp
  from this [of "[]"] show ?thesis by (simp add: lb_containers_def)
qed

lemma lb_containers_ok:
  assumes "0 < P" and "n * P \<le> i" and "i \<le> (n + 1) * P" and "0 \<le> ov" and "ov < int ((n + 1) * P)"
    and "0 < (\<Sum>c\<leftarrow>cs. nat (kc_cpus c)) \<Longrightarrow> (n + 1) * P \<le> length cpus"
  shows "\<exists>out j ov'. lb_containers (int P) cpus (int n) statuses cs (int i) ov = Ok (out, int j, ov')
           \<and> i \<le> j \<and> j \<le> i + (\<Sum>c\<leftarrow>cs. nat (kc_cpus c)) \<and> map ctr_name out = map kc_name cs"
proof -
  let ?body = "lb_container (int P) cpus (int n) statuses"
  have "\<exists>out j ov'. go_for ?body cs (acc, int i, ov) = Ok (out, int j, ov')
           \<and> i \<le> j \<and> j \<le> i + (\<Sum>c\<leftarrow>cs. nat (kc_cpus c))
           \<and> map ctr_name out = map ctr_name acc @ map kc_name cs" for acc
    using assms(2-6)
  proof (induction cs arbitrary: i ov acc)
    case (Cons c cs)
    have cap: "0 < kc_cpus c \<Longrightarrow> (n + 1) * P \<le> length cpus" using Cons.prems(5) by auto
    obtain got j ov' where take: "lb_take_cpus (int P) cpus (int n) (kc_cpus c) (int i) ov = Ok (got, int j, ov')"
        "i \<le> j" "j \<le> i + nat (kc_cpus c)" "j \<le> (n + 1) * P" "0 \<le> ov'" "ov' < int ((n + 1) * P)"
      using lb_take_cpus_ok [OF assms(1) Cons.prems(1-4) cap] by blast
    have "\<exists>out k ov''. go_for ?body cs (acc @ [placed n statuses c got], int j, ov') = Ok (out, int k, ov'')
           \<and> j \<le> k \<and> k \<le> j + (\<Sum>c\<leftarrow>cs. nat (kc_cpus c))
           \<and> map ctr_name out = map ctr_name (acc @ [placed n statuses c got]) @ map kc_name cs"
      by (rule Cons.IH) (use Cons.prems take in auto)
    then obtain out k ov'' where rest:
        "go_for ?body cs (acc @ [placed n statuses c got], int j, ov') = Ok (out, int k, ov'')"
        "j \<le> k" "k \<le> j + (\<Sum>c\<leftarrow>cs. nat (kc_cpus c))"
        "map ctr_name out = map ctr_name (acc @ [placed n statuses c got]) @ map kc_name cs"
      by blast
    have "go_for ?body (c # cs) (acc, int i, ov) = Ok (out, int k, ov'')"
      by (simp only: go_for.simps lb_container_eq [OF take(1)] go_bind.simps rest(1))
    moreover have "i \<le> k" "k \<le> i + (\<Sum>c\<leftarrow>c # cs. nat (kc_cpus c))"
      using take(2,3) rest(2,3) by simp_all
    moreover have "map ctr_name out = map ctr_name acc @ map kc_name (c # cs)"
      using rest(4) by (simp add: placed_def)
    ultimately show ?case by blast
  qed simp
  from this [of "[]"] show ?thesis by (simp add: lb_containers_def)
qed

section \<open>All pods\<close>

definition uniform :: "nat \<Rightarrow> pb_numa_info \<Rightarrow> bool" where
  "uniform P info \<longleftrightarrow> 0 < P \<and> pbi_nodes info \<noteq> []
     \<and> (\<forall>n \<in> set (pbi_nodes info). length (strings_Split (pbn_cpuset n) (CHR '','')) = P)"

abbreviation pod_key :: "k8s_pod \<Rightarrow> string \<times> string" where
  "pod_key p \<equiv> (kp_ns p, kp_name p)"

abbreviation entry_key :: "pod_affinity \<Rightarrow> string \<times> string" where
  "entry_key pa \<equiv> (pa_ns pa, pa_pod pa)"

text \<open>The containers of an entry stay in the node the entry names.\<close>

definition in_own_node :: "nat \<Rightarrow> nat \<Rightarrow> string list \<Rightarrow> pod_affinity \<Rightarrow> bool" where
  "in_own_node N P cpus pa \<longleftrightarrow> (\<forall>c \<in> set (pa_containers pa). \<exists>n < N. \<exists>got.
     pa_numa pa = to_int32 (int n) \<and> ctr_memset c = strconv_Itoa (int n)
     \<and> ctr_cpuset c = strings_Join got '','' \<and> set got \<subseteq> set (take P (drop (n * P) cpus)))"

lemma concat_uniform:
  assumes "\<forall>n \<in> set ns. length (f n) = P" and "i < length ns"
  shows "take P (drop (i * P) (concat (map f ns))) = f (ns ! i)"
    and "length (concat (map f ns)) = length ns * P"
proof -
  show "length (concat (map f ns)) = length ns * P"
    using assms(1) by (induction ns) auto
  show "take P (drop (i * P) (concat (map f ns))) = f (ns ! i)"
    using assms
  proof (induction ns arbitrary: i)
    case (Cons n ns)
    then show ?case by (cases i) (auto simp: add.commute)
  qed simp
qed

lemma uniform_cpus:
  assumes "uniform P info"
  shows "length (all_cpus info) = length (pbi_nodes info) * P"
    and "n < length (pbi_nodes info) \<Longrightarrow>
         take P (drop (n * P) (all_cpus info)) = strings_Split (pbn_cpuset (pbi_nodes info ! n)) (CHR '','')"
proof -
  have u: "\<forall>n \<in> set (pbi_nodes info). length (strings_Split (pbn_cpuset n) (CHR '','')) = P"
    "0 < length (pbi_nodes info)"
    using assms by (auto simp: uniform_def)
  show "length (all_cpus info) = length (pbi_nodes info) * P"
    unfolding all_cpus_def by (rule concat_uniform(2) [OF u])
  show "n < length (pbi_nodes info) \<Longrightarrow>
         take P (drop (n * P) (all_cpus info)) = strings_Split (pbn_cpuset (pbi_nodes info ! n)) (CHR '','')"
    unfolding all_cpus_def by (rule concat_uniform(1) [OF u(1)])
qed

lemma uniform_perNuma:
  assumes "uniform P info"
  shows "go_div (int (length (all_cpus info))) (int (length (pbi_nodes info))) = Ok (int P)"
proof -
  have "0 < length (pbi_nodes info)" using assms by (simp add: uniform_def)
  then show ?thesis
    by (simp add: uniform_cpus(1) [OF assms] go_div_nonneg)
qed

lemma lb_pods_eq:
  assumes "uniform P info"
  shows "lb_pods info wl (Some pods) =
         go_map (\<lambda>(_, _, pas). pas)
           (go_for (lb_pod (int (length (pbi_nodes info))) (int P) (all_cpus info) wl) pods (0, 0, []))"
  by (simp add: lb_pods_def uniform_perNuma [OF assms])

lemma lb_pod_other:
  assumes "whitelisted wl pod" and "kp_qos pod \<noteq> ''Guaranteed''" and "0 < P" and "0 < N"
  shows "lb_pod (int N) (int P) cpus wl pod (int idx, int k, acc) =
         Ok (int idx, int (Suc k mod N), acc @ [\<lparr>pa_numa = to_int32 (int k), pa_pod = kp_name pod,
                                               pa_ns = kp_ns pod, pa_containers = []\<rparr>])"
proof -
  have "go_mod (int k + 1) (int N) = Ok (int (Suc k mod N))"
    using assms(4) by (simp add: go_mod_nonneg zmod_int add.commute)
  then show ?thesis
    using assms by (simp add: lb_pod_def go_div_nonneg)
qed

lemma lb_pod_pinned:
  assumes "pinned wl pod" and "0 < P"
    and "lb_containers (int P) cpus (int (idx div P)) (kp_statuses pod) (kp_containers pod)
           (int idx) (int (idx div P)) = Ok (cs, idx1, ov1)"
  shows "lb_pod N (int P) cpus wl pod (int idx, k, acc) =
         Ok (idx1, k, acc @ [\<lparr>pa_numa = to_int32 (int (idx div P)), pa_pod = kp_name pod,
                              pa_ns = kp_ns pod, pa_containers = cs\<rparr>])"
  using assms by (simp add: lb_pod_def pinned_def go_div_nonneg zdiv_int)

lemma lb_pod_fits:
  assumes "pinned wl pod" and "0 < P" and "0 < sum_list (requests pod)"
    and "idx mod P + sum_list (requests pod) \<le> P" and "(idx div P + 1) * P \<le> length cpus"
  shows "\<exists>cs. lb_pod N (int P) cpus wl pod (int idx, k, acc) =
           Ok (int (idx + sum_list (requests pod)), k,
               acc @ [\<lparr>pa_numa = to_int32 (int (idx div P)), pa_pod = kp_name pod,
                       pa_ns = kp_ns pod, pa_containers = cs\<rparr>])
         \<and> map ctr_cpuset cs = map (\<lambda>b. strings_Join b '','') (blocks (requests pod) (drop idx cpus))
         \<and> (\<forall>c \<in> set cs. ctr_memset c = strconv_Itoa (int (idx div P))
              \<and> (\<exists>got. ctr_cpuset c = strings_Join got '','' \<and>
                       set got \<subseteq> set (take P (drop (idx div P * P) cpus))))"
proof -
  let ?n = "idx div P" and ?cs = "kp_containers pod" and ?sts = "kp_statuses pod"
  let ?d = "sum_list (requests pod)"
  let ?out = "map2 (placed ?n ?sts) ?cs (blocks (requests pod) (drop idx cpus))"
  have low: "?n * P \<le> idx" by simp
  have up: "idx + ?d \<le> (?n + 1) * P"
    using assms(4) div_mult_mod_eq [of idx P] by (simp only: distrib_right)
  have run: "lb_containers (int P) cpus (int ?n) ?sts ?cs (int idx) (int ?n) = Ok (?out, int (idx + ?d), int ?n)"
    using lb_containers_in_node [OF low up [unfolded requests_def] assms(5), of ?sts "int ?n"]
    by (simp only: requests_def)
  have len: "length ?cs = length (blocks (requests pod) (drop idx cpus))"
    by (simp add: requests_def)
  have sub: "set (take ?d (drop idx cpus)) \<subseteq> set (take P (drop (?n * P) cpus))"
  proof -
    have "drop idx cpus = drop (idx mod P) (drop (?n * P) cpus)"
      by (simp add: add.commute)
    then have "take ?d (drop idx cpus) = drop (idx mod P) (take (idx mod P + ?d) (drop (?n * P) cpus))"
      by (simp add: take_drop add.commute)
    then show ?thesis
      using set_drop_subset [of "idx mod P" "take (idx mod P + ?d) (drop (?n * P) cpus)"]
        set_take_subset_set_take [OF assms(4), of "drop (?n * P) cpus"] by simp
  qed
  have "map ctr_cpuset ?out = map (\<lambda>b. strings_Join b '','') (blocks (requests pod) (drop idx cpus))"
    using len by (induction rule: list_induct2) (auto simp: placed_def)
  moreover have "\<forall>c \<in> set ?out. ctr_memset c = strconv_Itoa (int ?n)
              \<and> (\<exists>got. ctr_cpuset c = strings_Join got '','' \<and> set got \<subseteq> set (take P (drop (?n * P) cpus)))"
    using sub blocks_set by (fastforce simp: placed_def dest: set_zip_rightD)
  ultimately show ?thesis
    using lb_pod_pinned [OF assms(1,2) run] by blast
qed

text \<open>The loop over the pods while every pinned pod fits.\<close>

lemma node_before_end:
  assumes "idx mod P + d \<le> P" and "0 < d" and "idx + d \<le> N * P" and "0 < P"
  shows "idx div P < N" and "(idx div P + 1) * P \<le> N * (P :: nat)"
proof -
  show "idx div P < N"
    using assms by (metis add_less_same_cancel1 add_lessD1 le_eq_less_or_eq less_mult_imp_div_less
        linorder_not_less nat_arith.rule0 not_add_less1 less_add_same_cancel1 order_less_le_trans)
  then show "(idx div P + 1) * P \<le> N * P"
    by (metis Suc_eq_plus1 Suc_leI mult_le_mono1)
qed

text \<open>What the loop has done when all pinned pods fit their nodes, and what each kind of pod adds.\<close>

definition loop_fits ::
    "nat \<Rightarrow> nat \<Rightarrow> string list \<Rightarrow> (string, bool) go_map \<Rightarrow> k8s_pod list \<Rightarrow> nat \<Rightarrow> nat \<Rightarrow> pod_affinity list \<Rightarrow> bool" where
  "loop_fits N P cpus wl pods idx k acc \<longleftrightarrow>
     (\<exists>pas k'. go_for (lb_pod (int N) (int P) cpus wl) pods (int idx, int k, acc) =
             Ok (int (idx + pinned_demand wl pods), int k', acc @ pas)
         \<and> map entry_key pas = map pod_key (filter (whitelisted wl) pods)
         \<and> map ctr_cpuset (concat (map pa_containers pas)) =
             map (\<lambda>b. strings_Join b '','')
               (blocks (concat (map requests (filter (pinned wl) pods))) (drop idx cpus))
         \<and> (\<forall>pa \<in> set pas. in_own_node N P cpus pa))"

lemma loop_fits_entry:
  assumes "lb_pod (int N) (int P) cpus wl p (int idx, int k, acc) = Ok (int (idx + d), int k1, acc @ [pa])"
    and "loop_fits N P cpus wl ps (idx + d) k1 (acc @ [pa])"
    and "pinned_demand wl (p # ps) = d + pinned_demand wl ps"
    and "whitelisted wl p" and "entry_key pa = pod_key p" and "in_own_node N P cpus pa"
    and "map ctr_cpuset (pa_containers pa) =
      map (\<lambda>b. strings_Join b '','') (blocks (if pinned wl p then requests p else []) (drop idx cpus))"
    and "d = (if pinned wl p then sum_list (requests p) else 0)"
  shows "loop_fits N P cpus wl (p # ps) idx k acc"
proof -
  obtain pas k' where IH: "go_for (lb_pod (int N) (int P) cpus wl) ps (int (idx + d), int k1, acc @ [pa]) =
        Ok (int (idx + d + pinned_demand wl ps), int k', (acc @ [pa]) @ pas)"
    "map entry_key pas = map pod_key (filter (whitelisted wl) ps)"
    "map ctr_cpuset (concat (map pa_containers pas)) = map (\<lambda>b. strings_Join b '','')
       (blocks (concat (map requests (filter (pinned wl) ps))) (drop (idx + d) cpus))"
    "\<forall>pa \<in> set pas. in_own_node N P cpus pa"
    using assms(2) unfolding loop_fits_def by blast
  have "go_for (lb_pod (int N) (int P) cpus wl) (p # ps) (int idx, int k, acc) =
      Ok (int (idx + pinned_demand wl (p # ps)), int k', acc @ pa # pas)"
    using IH(1) by (simp only: go_for.simps assms(1,3) go_bind.simps add.assoc append_assoc append_Cons
        append_Nil)
  moreover have "map entry_key (pa # pas) = map pod_key (filter (whitelisted wl) (p # ps))"
    using IH(2) assms(4,5) by simp
  moreover have "map ctr_cpuset (concat (map pa_containers (pa # pas))) = map (\<lambda>b. strings_Join b '','')
       (blocks (concat (map requests (filter (pinned wl) (p # ps)))) (drop idx cpus))"
    using IH(3) assms(7,8) by (cases "pinned wl p") (simp_all add: blocks_append add.commute)
  moreover have "\<forall>pa \<in> set (pa # pas). in_own_node N P cpus pa" using IH(4) assms(6) by simp
  ultimately show ?thesis unfolding loop_fits_def by blast
qed

lemma loop_fits_pinned:
  assumes "pinned wl p" and "0 < P" and "length cpus = N * P"
    and fit: "0 < sum_list (requests p)" "idx mod P + sum_list (requests p) \<le> P"
    and dem: "idx + sum_list (requests p) \<le> N * P"
    and IH: "\<And>acc. loop_fits N P cpus wl ps (idx + sum_list (requests p)) k acc"
  shows "loop_fits N P cpus wl (p # ps) idx k acc"
proof -
  note node = node_before_end [OF fit(2,1) dem assms(2)]
  obtain cs where step: "lb_pod (int N) (int P) cpus wl p (int idx, int k, acc) =
      Ok (int (idx + sum_list (requests p)), int k, acc @ [\<lparr>pa_numa = to_int32 (int (idx div P)),
            pa_pod = kp_name p, pa_ns = kp_ns p, pa_containers = cs\<rparr>])"
    and cs: "map ctr_cpuset cs = map (\<lambda>b. strings_Join b '','') (blocks (requests p) (drop idx cpus))"
      "\<forall>c \<in> set cs. ctr_memset c = strconv_Itoa (int (idx div P))
         \<and> (\<exists>got. ctr_cpuset c = strings_Join got '','' \<and> set got \<subseteq> set (take P (drop (idx div P * P) cpus)))"
    using lb_pod_fits [OF assms(1,2) fit, of cpus "int N" "int k" acc] node(2) assms(3) by metis
  show ?thesis
    by (rule loop_fits_entry [OF step IH])
      (use assms(1) cs node(1) in \<open>auto simp: pinned_demand_Cons in_own_node_def pinned_def\<close>)
qed

lemma lb_pods_loop_fits:
  assumes "0 < P" and "0 < N" and "length cpus = N * P"
    and "lb_fits P wl idx pods" and "idx + pinned_demand wl pods \<le> N * P"
  shows "loop_fits N P cpus wl pods idx k acc"
  using assms(4,5)
proof (induction pods arbitrary: idx k acc)
  case Nil
  then show ?case by (auto simp: loop_fits_def pinned_demand_def intro!: exI [of _ "[]"])
next
  case (Cons p ps idx k acc)
  consider "pinned wl p" | "whitelisted wl p" "kp_qos p \<noteq> ''Guaranteed''" | "\<not> whitelisted wl p"
    by (auto simp: pinned_def)
  then show ?case
  proof cases
    case 1
    then show ?thesis
      using Cons by (intro loop_fits_pinned assms(1,3)) (auto simp: pinned_demand_Cons)
  next
    case 2
    have "loop_fits N P cpus wl ps (idx + 0) (Suc k mod N) acc" for acc
      using Cons 2 by (simp add: pinned_demand_Cons pinned_def)
    then show ?thesis
      by (rule loop_fits_entry [rotated]) (use 2 lb_pod_other [OF 2 assms(1,2)] in
        \<open>simp_all add: pinned_demand_Cons pinned_def in_own_node_def\<close>)
  next
    case 3
    have "loop_fits N P cpus wl ps idx k acc"
      using Cons 3 by (simp add: pinned_demand_Cons pinned_def)
    then show ?thesis using 3 by (simp add: loop_fits_def pinned_demand_Cons pinned_def lb_pod_def)
  qed
qed

text \<open>The loop while the demand is within the number of CPUs, whether or not pods overflow.\<close>

definition round_robin :: "nat \<Rightarrow> nat \<Rightarrow> k8s_pod list \<Rightarrow> pod_affinity list \<Rightarrow> bool" where
  "round_robin N k pods pas \<longleftrightarrow>
     map (pa_numa \<circ> snd) (filter (\<lambda>(p, _). kp_qos p \<noteq> ''Guaranteed'') (zip pods pas)) =
     map (\<lambda>j. to_int32 (int ((k + j) mod N)))
       [0..<length (filter (\<lambda>p. kp_qos p \<noteq> ''Guaranteed'') pods)]"

lemma round_robin_other:
  assumes "round_robin N (Suc k mod N) pods pas" and "kp_qos p \<noteq> ''Guaranteed''" and "k < N"
    and "pa_numa pa = to_int32 (int k)"
  shows "round_robin N k (p # pods) (pa # pas)"
proof -
  let ?f = "\<lambda>k j. to_int32 (int ((k + j) mod N))"
  have "map (?f k) [0..<Suc n] = to_int32 (int k) # map (?f (Suc k mod N)) [0..<n]" for n
  proof -
    have "map (?f k) [0..<Suc n] = ?f k 0 # map (?f k) (map Suc [0..<n])"
      by (simp only: upt_rec [of 0 "Suc n"] map_Suc_upt) simp
    moreover have "?f k (Suc j) = ?f (Suc k mod N) j" for j
      by (simp add: mod_add_left_eq)
    ultimately show ?thesis using assms(3) by simp
  qed
  then show ?thesis using assms(1,2,4) by (simp add: round_robin_def)
qed

definition loop_ok ::
    "nat \<Rightarrow> nat \<Rightarrow> string list \<Rightarrow> (string, bool) go_map \<Rightarrow> k8s_pod list \<Rightarrow> nat \<Rightarrow> nat \<Rightarrow> pod_affinity list \<Rightarrow> bool" where
  "loop_ok N P cpus wl pods idx k acc \<longleftrightarrow>
     (\<exists>pas idx' k'. go_for (lb_pod (int N) (int P) cpus wl) pods (int idx, int k, acc) =
             Ok (int idx', int k', acc @ pas)
         \<and> map entry_key pas = map pod_key (filter (whitelisted wl) pods)
         \<and> round_robin N k (filter (whitelisted wl) pods) pas)"

lemma loop_ok_entry:
  assumes "lb_pod (int N) (int P) cpus wl p (int idx, int k, acc) = Ok (int idx1, int k1, acc @ [pa])"
    and "loop_ok N P cpus wl ps idx1 k1 (acc @ [pa])"
    and "whitelisted wl p" and "entry_key pa = pod_key p" and "k < N"
    and "if kp_qos p = ''Guaranteed'' then k1 = k else k1 = Suc k mod N \<and> pa_numa pa = to_int32 (int k)"
  shows "loop_ok N P cpus wl (p # ps) idx k acc"
proof -
  obtain pas idx' k' where IH: "go_for (lb_pod (int N) (int P) cpus wl) ps (int idx1, int k1, acc @ [pa]) =
        Ok (int idx', int k', (acc @ [pa]) @ pas)"
    "map entry_key pas = map pod_key (filter (whitelisted wl) ps)"
    "round_robin N k1 (filter (whitelisted wl) ps) pas"
    using assms(2) unfolding loop_ok_def by blast
  have "go_for (lb_pod (int N) (int P) cpus wl) (p # ps) (int idx, int k, acc) =
      Ok (int idx', int k', acc @ pa # pas)"
    using IH(1) by (simp only: go_for.simps assms(1) go_bind.simps append_assoc append_Cons append_Nil)
  moreover have "map entry_key (pa # pas) = map pod_key (filter (whitelisted wl) (p # ps))"
    using IH(2) assms(3,4) by simp
  moreover have "round_robin N k (filter (whitelisted wl) (p # ps)) (pa # pas)"
  proof (cases "kp_qos p = ''Guaranteed''")
    case True
    then show ?thesis using IH(3) assms(3,6) by (simp add: round_robin_def)
  next
    case False
    then show ?thesis
      using round_robin_other [of N k "filter (whitelisted wl) ps" pas p pa] IH(3) assms(3,5,6) by simp
  qed
  ultimately show ?thesis unfolding loop_ok_def by blast
qed

text \<open>A pinned pod, with the indices inside its node, at least as far as there are CPUs.\<close>

lemma lb_pod_pinned_ok:
  assumes "pinned wl p" and "0 < P" and "length cpus = N * P"
    and "idx + sum_list (requests p) \<le> N * P"
  shows "\<exists>cs j. lb_pod (int N) (int P) cpus wl p (int idx, int k, acc) =
      Ok (int j, int k, acc @ [\<lparr>pa_numa = to_int32 (int (idx div P)), pa_pod = kp_name p,
          pa_ns = kp_ns p, pa_containers = cs\<rparr>]) \<and> j \<le> idx + sum_list (requests p)"
proof -
  let ?n = "idx div P"
  have cap: "(?n + 1) * P \<le> length cpus" if "0 < sum_list (requests p)"
  proof -
    have "idx < N * P" using assms(4) that by simp
    then have "?n < N" by (simp add: less_mult_imp_div_less)
    then show ?thesis using assms(3) by (metis Suc_eq_plus1 Suc_leI mult_le_mono1)
  qed
  have "idx < (?n + 1) * P"
    using assms(2) by (metis Suc_eq_plus1 dividend_less_div_times mult_Suc add.commute)
  moreover have "int ?n < int ((?n + 1) * P)"
  proof -
    have "(?n + 1) * 1 \<le> (?n + 1) * P" using assms(2) by (intro mult_le_mono2) simp
    then have "?n < (?n + 1) * P" by (simp only: mult_1_right Suc_le_eq flip: Suc_eq_plus1)
    then show ?thesis by (simp only: of_nat_less_iff)
  qed
  ultimately obtain cs j ov' where run: "lb_containers (int P) cpus (int ?n) (kp_statuses p)
        (kp_containers p) (int idx) (int ?n) = Ok (cs, int j, ov')"
    and j: "j \<le> idx + sum_list (requests p)"
    using lb_containers_ok [where P = P and n = ?n and i = idx and ov = "int ?n" and cpus = cpus
        and cs = "kp_containers p" and statuses = "kp_statuses p"] assms(2) cap
    by (auto simp: requests_def)
  show ?thesis using lb_pod_pinned [OF assms(1,2) run] j by blast
qed

lemma lb_pods_loop_ok:
  assumes "0 < P" and "0 < N" and "length cpus = N * P" and "idx + pinned_demand wl pods \<le> N * P"
    and "k < N"
  shows "loop_ok N P cpus wl pods idx k acc"
  using assms(4,5)
proof (induction pods arbitrary: idx k acc)
  case Nil
  then show ?case by (auto simp: loop_ok_def round_robin_def intro!: exI [of _ "[]"])
next
  case (Cons p ps idx k acc)
  consider "pinned wl p" | "whitelisted wl p" "kp_qos p \<noteq> ''Guaranteed''" | "\<not> whitelisted wl p"
    by (auto simp: pinned_def)
  then show ?case
  proof cases
    case 1
    then obtain cs j where "lb_pod (int N) (int P) cpus wl p (int idx, int k, acc) =
        Ok (int j, int k, acc @ [\<lparr>pa_numa = to_int32 (int (idx div P)), pa_pod = kp_name p,
          pa_ns = kp_ns p, pa_containers = cs\<rparr>])" and "j \<le> idx + sum_list (requests p)"
      using lb_pod_pinned_ok [OF 1 assms(1,3), of idx k acc] Cons.prems(1) by (auto simp: pinned_demand_Cons)
    then show ?thesis
      using 1 Cons.prems by (intro loop_ok_entry [OF _ Cons.IH]) (auto simp: pinned_demand_Cons pinned_def)
  next
    case 2
    then show ?thesis
      using Cons.prems assms(2) by (intro loop_ok_entry [OF lb_pod_other [OF 2 assms(1,2)] Cons.IH])
        (auto simp: pinned_demand_Cons pinned_def)
  next
    case 3
    have "loop_ok N P cpus wl ps idx k acc"
      using Cons 3 by (simp add: pinned_demand_Cons pinned_def)
    then show ?thesis using 3 by (simp add: loop_ok_def lb_pod_def)
  qed
qed

section \<open>When the CPUs run out\<close>

lemma lb_containers_exhausted:
  assumes "0 < P" and "length cpus = N * P" and "0 < (\<Sum>c\<leftarrow>cs. nat (kc_cpus c))"
  shows "lb_containers (int P) cpus (int N) statuses cs (int (N * P)) ov = Panic IndexOutOfRange"
proof -
  let ?body = "lb_container (int P) cpus (int N) statuses"
  have "go_for ?body cs (acc, int (N * P), ov) = Panic IndexOutOfRange" for acc
    using assms(3)
  proof (induction cs arbitrary: acc)
    case (Cons c cs)
    show ?case
    proof (cases "0 < kc_cpus c")
      case True
      have "lb_take_cpu (int P) cpus (int N) ([], int (N * P), ov) = Panic IndexOutOfRange"
        using assms(1,2) by (simp add: lb_take_cpu_def go_div_nonneg go_nth_def)
      moreover have "[0..<nat (kc_cpus c)] = 0 # [Suc 0..<nat (kc_cpus c)]"
        using True by (simp add: upt_rec)
      ultimately have "lb_take_cpus (int P) cpus (int N) (kc_cpus c) (int (N * P)) ov = Panic IndexOutOfRange"
        by (simp only: lb_take_cpus_def go_for.simps go_bind.simps)
      then show ?thesis by (simp add: lb_container_def)
    next
      case False
      have "lb_take_cpus (int P) cpus (int N) (kc_cpus c) (int (N * P)) ov = Ok ([], int (N * P), ov)"
        using False by (simp add: lb_take_cpus_def)
      from lb_container_eq [OF this] show ?thesis
        using Cons False by (simp only: go_for.simps go_bind.simps) simp
    qed
  qed simp
  then show ?thesis by (simp add: lb_containers_def)
qed

section \<open>Properties of the pod loop\<close>

text \<open>
  C9: on a machine whose NUMA nodes all have the same number of CPUs, at least one: while every
  Guaranteed pod of the whitelist fits into the rest of its NUMA node, and all of them ask for no
  more CPUs than there are, the
  entries are the whitelisted pods in list order, the containers get consecutive blocks of the
  CPU list (so no CPU is given twice), and every container's CPUs and memory are those of the
  node its entry names.
\<close>

theorem lb_pods_consecutive:
  assumes "uniform P info" and "lb_fits P wl 0 pods"
    and "pinned_demand wl pods \<le> length (all_cpus info)"
  shows "\<exists>pas. lb_pods info wl (Some pods) = Ok pas
     \<and> map entry_key pas = map pod_key (filter (whitelisted wl) pods)
     \<and> map ctr_cpuset (concat (map pa_containers pas)) =
         map (\<lambda>b. strings_Join b '','')
           (blocks (concat (map requests (filter (pinned wl) pods))) (all_cpus info))
     \<and> (\<forall>pa \<in> set pas. \<forall>c \<in> set (pa_containers pa). \<exists>n < length (pbi_nodes info). \<exists>got.
          pa_numa pa = to_int32 (int n) \<and> ctr_memset c = strconv_Itoa (int n)
          \<and> ctr_cpuset c = strings_Join got '',''
          \<and> set got \<subseteq> set (strings_Split (pbn_cpuset (pbi_nodes info ! n)) (CHR '','')))"
proof -
  let ?N = "length (pbi_nodes info)"
  have "0 < P" "0 < ?N" using assms(1) by (auto simp: uniform_def)
  then obtain pas k' where run: "go_for (lb_pod (int ?N) (int P) (all_cpus info) wl) pods (0, 0, []) =
        Ok (int (pinned_demand wl pods), int k', pas)"
      "map entry_key pas = map pod_key (filter (whitelisted wl) pods)"
      "map ctr_cpuset (concat (map pa_containers pas)) =
         map (\<lambda>b. strings_Join b '','')
           (blocks (concat (map requests (filter (pinned wl) pods))) (all_cpus info))"
      "\<forall>pa \<in> set pas. in_own_node ?N P (all_cpus info) pa"
    using lb_pods_loop_fits [of P ?N "all_cpus info" wl 0 pods 0 "[]", unfolded loop_fits_def] assms(2,3)
      uniform_cpus(1) [OF assms(1)] by auto
  moreover have "lb_pods info wl (Some pods) = Ok pas"
    by (simp add: lb_pods_eq [OF assms(1)] run(1))
  ultimately show ?thesis
    using uniform_cpus(2) [OF assms(1)] by (fastforce simp: in_own_node_def)
qed

lemma lb_pods_consecutive_witness:
  "\<exists>pas. lb_pods sample_numa [(''ns-a'', True), (''ns-b'', True)]
       (Some [sample_pod ''ns'' ''a'' ''Guaranteed'' [1, 1], sample_pod ''ns'' ''b'' ''Guaranteed'' [2]]) = Ok pas
     \<and> map ctr_cpuset (concat (map pa_containers pas)) = [''0'', ''1'', ''2,3'']"
proof -
  let ?pods = "[sample_pod ''ns'' ''a'' ''Guaranteed'' [1, 1], sample_pod ''ns'' ''b'' ''Guaranteed'' [2]]"
  let ?wl = "[(''ns-a'', True), (''ns-b'', True)]"
  have h: "uniform 2 sample_numa" "lb_fits 2 ?wl 0 ?pods"
    "pinned_demand ?wl ?pods \<le> length (all_cpus sample_numa)"
    "map (\<lambda>b. strings_Join b '','') (blocks (concat (map requests (filter (pinned ?wl) ?pods)))
       (all_cpus sample_numa)) = [''0'', ''1'', ''2,3'']"
    by code_simp+
  from lb_pods_consecutive [OF h(1-3)] show ?thesis unfolding h(4)
    by (elim exE conjE, intro exI conjI)
qed

text \<open>
  On a machine whose NUMA nodes all have the same number of CPUs, while the Guaranteed pods of the
  whitelist ask for no more CPUs than there are, the loop
  never panics; it answers one entry per whitelisted pod, in order, and the pods of the other
  classes get the NUMA nodes round robin.
\<close>

theorem lb_pods_within_capacity:
  assumes "uniform P info" and "pinned_demand wl pods \<le> length (all_cpus info)"
  shows "\<exists>pas. lb_pods info wl (Some pods) = Ok pas
     \<and> map entry_key pas = map pod_key (filter (whitelisted wl) pods)
     \<and> map (pa_numa \<circ> snd)
         (filter (\<lambda>(p, _). kp_qos p \<noteq> ''Guaranteed'') (zip (filter (whitelisted wl) pods) pas)) =
       map (\<lambda>j. to_int32 (int (j mod length (pbi_nodes info))))
         [0..<length (filter (\<lambda>p. kp_qos p \<noteq> ''Guaranteed'') (filter (whitelisted wl) pods))]"
proof -
  let ?N = "length (pbi_nodes info)"
  have "0 < P" "0 < ?N" using assms(1) by (auto simp: uniform_def)
  then obtain pas idx' k' where run: "go_for (lb_pod (int ?N) (int P) (all_cpus info) wl) pods (0, 0, []) =
        Ok (int idx', int k', pas)"
      "map entry_key pas = map pod_key (filter (whitelisted wl) pods)"
      "round_robin ?N 0 (filter (whitelisted wl) pods) pas"
    using lb_pods_loop_ok [of P ?N "all_cpus info" 0 wl pods 0 "[]", unfolded loop_ok_def] assms(2)
      uniform_cpus(1) [OF assms(1)] by auto
  moreover have "lb_pods info wl (Some pods) = Ok pas"
    by (simp add: lb_pods_eq [OF assms(1)] run(1))
  ultimately show ?thesis
    unfolding round_robin_def by (simp only: add_0) blast
qed

lemma lb_pods_within_capacity_witness:
  "\<exists>pas. lb_pods sample_numa [(''ns-a'', True), (''ns-b'', True)]
       (Some [sample_pod ''ns'' ''a'' ''Burstable'' [0], sample_pod ''ns'' ''x'' ''Burstable'' [0],
              sample_pod ''ns'' ''b'' ''Guaranteed'' [4]]) = Ok pas
     \<and> map entry_key pas = [(''ns'', ''a''), (''ns'', ''b'')]"
proof -
  let ?pods = "[sample_pod ''ns'' ''a'' ''Burstable'' [0], sample_pod ''ns'' ''x'' ''Burstable'' [0],
    sample_pod ''ns'' ''b'' ''Guaranteed'' [4]]"
  let ?wl = "[(''ns-a'', True), (''ns-b'', True)]"
  have h: "uniform 2 sample_numa" "pinned_demand ?wl ?pods \<le> length (all_cpus sample_numa)"
    "map pod_key (filter (whitelisted ?wl) ?pods) = [(''ns'', ''a''), (''ns'', ''b'')]"
    by code_simp+
  from lb_pods_within_capacity [OF h(1,2)] show ?thesis unfolding h(3)
    by (elim exE conjE, intro exI conjI)
qed

text \<open>CPU \<open>m\<close> of NUMA node \<open>j\<close> in the list of all CPUs.\<close>

lemma uniform_nth:
  assumes "uniform P info" and "j < length (pbi_nodes info)" and "m < P"
  shows "all_cpus info ! (j * P + m) = strings_Split (pbn_cpuset (pbi_nodes info ! j)) (CHR '','') ! m"
proof -
  have "(j + 1) * P \<le> length (all_cpus info)"
    using assms(2) uniform_cpus(1) [OF assms(1)] by (metis Suc_eq_plus1 Suc_leI mult_le_mono1)
  then have "j * P \<le> length (all_cpus info)" by simp
  then show ?thesis
    unfolding uniform_cpus(2) [OF assms(1,2), symmetric] nth_take [OF assms(3)] by (rule nth_drop [symmetric])
qed

text \<open>
  A Guaranteed pod that overflows its node leaves it: the pod that starts at the last CPU of
  node n > 0 and asks for two gets that CPU and the CPU number n of node 0, while its entry and
  its memory name node n. The overflow index starts at the node's number, not at its first CPU.
\<close>

theorem lb_pod_overflow_leaves_node:
  assumes "uniform P info" and "1 \<le> n" and "n < length (pbi_nodes info)" and "n < P"
    and "pinned wl pod" and "kp_containers pod = [c]" and "kc_cpus c = 2"
  shows "lb_pod (int (length (pbi_nodes info))) (int P) (all_cpus info) wl pod (int (n * P + P - 1), k, acc) =
    Ok (int ((n + 1) * P), k, acc @
      [\<lparr>pa_numa = to_int32 (int n), pa_pod = kp_name pod, pa_ns = kp_ns pod,
        pa_containers = [\<lparr>ctr_id = status_id (kp_statuses pod) (kc_name c), ctr_name = kc_name c,
          ctr_cpuset = strings_Join
            [last (strings_Split (pbn_cpuset (pbi_nodes info ! n)) (CHR '','')),
             strings_Split (pbn_cpuset (pbi_nodes info ! 0)) (CHR '','') ! n] '','',
          ctr_memset = strconv_Itoa (int n)\<rparr>]\<rparr>])"
proof -
  let ?N = "length (pbi_nodes info)" and ?cpus = "all_cpus info"
  let ?split = "\<lambda>i. strings_Split (pbn_cpuset (pbi_nodes info ! i)) (CHR '','')"
  define i where "i = n * P + P - 1"
  have P: "0 < P" using assms(4) by simp
  have L: "length ?cpus = ?N * P" by (rule uniform_cpus(1) [OF assms(1)])
  have cap: "(n + 1) * P \<le> length ?cpus" using assms(3) L by (metis Suc_eq_plus1 Suc_leI mult_le_mono1)
  have i: "i < length ?cpus" "n < length ?cpus" "i + 1 = (n + 1) * P"
    using cap assms(4) P by (auto simp: i_def)
  have div: "i div P = n" by (rule index_in_node) (use P in \<open>auto simp: i_def\<close>)
  have d1: "go_div (int i) (int P) = Ok (int n)"
    using P div by (simp add: go_div_nonneg flip: zdiv_int del: of_nat_diff of_nat_add of_nat_mult)
  have d2: "go_div (int i + 1) (int P) = Ok (int n + 1)"
  proof -
    have "int i + 1 = (int n + 1) * int P"
      by (metis i(3) of_nat_1 of_nat_add of_nat_mult)
    then show ?thesis using P by (simp add: go_div_nonneg)
  qed
  have len: "length (?split n) = P" using assms(1,3) by (simp add: uniform_def)
  have "?cpus ! i = ?split n ! (P - 1)"
    using uniform_nth [OF assms(1,3), of "P - 1"] P by (simp add: i_def)
  also have "\<dots> = last (?split n)"
    using len P by (metis last_conv_nth length_0_conv less_numeral_extra(3))
  finally have c1: "?cpus ! i = last (?split n)" .
  have c2: "?cpus ! n = ?split 0 ! n"
    using uniform_nth [OF assms(1) _ assms(4), of 0] assms(3) by (cases "pbi_nodes info") auto
  have take: "lb_take_cpus (int P) ?cpus (int n) (kc_cpus c) (int i) (int n) =
      Ok ([last (?split n), ?split 0 ! n], int (i + 1),
          if int n + 1 = (int n + 1) * int P then int n * int P else int n + 1)"
    using i(1,2) by (simp add: lb_take_cpus_def lb_take_cpu_def assms(7) numeral_2_eq_2 d1 d2 c1 c2
        go_nth_nat del: of_nat_diff)
  show ?thesis
    unfolding i_def [symmetric] i(3) [symmetric]
    using lb_pod_pinned [OF assms(5) P, of ?cpus i] lb_container_eq [OF take]
    by (simp add: div lb_containers_def assms(6) placed_def del: of_nat_diff of_nat_add)
qed

lemma lb_pod_overflow_leaves_node_witness:
  "lb_pod 2 2 (all_cpus sample_numa) [(''ns-b'', True)] (sample_pod ''ns'' ''b'' ''Guaranteed'' [2]) (3, 0, []) =
   Ok (4, 0, [\<lparr>pa_numa = 1, pa_pod = ''b'', pa_ns = ''ns'', pa_containers =
     [\<lparr>ctr_id = ''b/0'', ctr_name = ''c0'', ctr_cpuset = ''3,1'', ctr_memset = ''1''\<rparr>]\<rparr>])"
proof -
  let ?pod = "sample_pod ''ns'' ''b'' ''Guaranteed'' [2]"
  let ?c = "\<lparr>kc_name = ''c0'', kc_cpus = 2\<rparr>"
  have h: "uniform 2 sample_numa" "(1 :: nat) \<le> 1" "1 < length (pbi_nodes sample_numa)" "1 < (2 :: nat)"
    "pinned [(''ns-b'', True)] ?pod" "kp_containers ?pod = [?c]" "kc_cpus ?c = 2"
    by code_simp+
  have e: "int (length (pbi_nodes sample_numa)) = 2" "int 2 = 2" "int (1 * 2 + 2 - 1) = 3" "int ((1 + 1) * 2) = 4"
    "to_int32 (int 1) = 1" "kp_name ?pod = ''b''" "kp_ns ?pod = ''ns''"
    "status_id (kp_statuses ?pod) ''c0'' = ''b/0''" "kc_name ?c = ''c0''" "strconv_Itoa (int 1) = ''1''"
    "strings_Join [last (strings_Split (pbn_cpuset (pbi_nodes sample_numa ! 1)) (CHR '','')),
       strings_Split (pbn_cpuset (pbi_nodes sample_numa ! 0)) (CHR '','') ! 1] '','' = ''3,1''"
    by code_simp+
  from lb_pod_overflow_leaves_node [OF h, of 0 "[]"] show ?thesis
    by (simp only: e append_Nil)
qed

text \<open>
  Once the Guaranteed pods have used up all CPUs, one more of them that asks for a CPU
  crashes the agent with an index out of range, whatever follows it in the list.
\<close>

theorem lb_pods_exhausted:
  assumes "uniform P info" and "lb_fits P wl 0 pods"
    and "pinned_demand wl pods = length (all_cpus info)"
    and "pinned wl pod" and "0 < sum_list (requests pod)"
  shows "lb_pods info wl (Some (pods @ pod # rest)) = Panic IndexOutOfRange"
proof -
  let ?N = "length (pbi_nodes info)"
  have P: "0 < P" "0 < ?N" using assms(1) by (auto simp: uniform_def)
  have L: "length (all_cpus info) = ?N * P" by (rule uniform_cpus(1) [OF assms(1)])
  obtain pas k' where run: "go_for (lb_pod (int ?N) (int P) (all_cpus info) wl) pods (0, 0, []) =
      Ok (int (?N * P), int k', pas)"
    using lb_pods_loop_fits [OF P L assms(2), of 0 "[]", unfolded loop_fits_def] assms(3) L by auto
  have "lb_containers (int P) (all_cpus info) (int ?N) (kp_statuses pod) (kp_containers pod)
      (int (?N * P)) (int ?N) = Panic IndexOutOfRange"
    by (rule lb_containers_exhausted [OF P(1) L]) (use assms(5) in \<open>simp add: requests_def\<close>)
  moreover have "go_div (int (?N * P)) (int P) = Ok (int ?N)"
    using P by (simp add: go_div_nonneg)
  ultimately have "lb_pod (int ?N) (int P) (all_cpus info) wl pod (int (?N * P), int k', pas) =
      Panic IndexOutOfRange"
    using assms(4) by (simp add: lb_pod_def pinned_def)
  then show ?thesis
    by (simp add: lb_pods_eq [OF assms(1)] go_for_append run)
qed

lemma lb_pods_exhausted_witness:
  "lb_pods sample_numa [(''ns-a'', True), (''ns-b'', True), (''ns-c'', True)]
     (Some ([sample_pod ''ns'' ''a'' ''Guaranteed'' [2], sample_pod ''ns'' ''b'' ''Guaranteed'' [1, 1]]
            @ sample_pod ''ns'' ''c'' ''Guaranteed'' [1] # [])) = Panic IndexOutOfRange"
  by (rule lb_pods_exhausted [where P = 2]) code_simp+

section \<open>Properties of the handler\<close>

lemma whitelist_map_dom:
  "map_of (whitelist_map wl) key =
   (if \<exists>tp \<in> set (wl_targets (wl_spec wl)). \<exists>name \<in> set (tp_names tp). key = whitelist_key (tp_ns tp) name
    then Some True else None)"
proof -
  have inner: "map_of (fold (\<lambda>name m. AList.update (whitelist_key ns name) True m) names m) key =
      (if \<exists>name \<in> set names. key = whitelist_key ns name then Some True else map_of m key)"
    for ns names m
    by (induction names arbitrary: m) (auto simp: update_conv')
  have "map_of (fold (\<lambda>tp m. fold (\<lambda>name m. AList.update (whitelist_key (tp_ns tp) name) True m)
            (tp_names tp) m) tps m) key =
      (if \<exists>tp \<in> set tps. \<exists>name \<in> set (tp_names tp). key = whitelist_key (tp_ns tp) name
       then Some True else map_of m key)" for tps m
    by (induction tps arbitrary: m) (auto simp: inner)
  from this [of "wl_targets (wl_spec wl)" "[]"] show ?thesis
    unfolding whitelist_map_def by (simp only: map_of.simps)
qed

text \<open>
  A pod is managed exactly when some entry of the whitelist joins to the same
  namespace-dash-name string; as names may contain dashes, that is more than the pods the
  whitelist names.
\<close>

theorem whitelisted_iff:
  "whitelisted (whitelist_map wl) pod \<longleftrightarrow>
     (\<exists>tp \<in> set (wl_targets (wl_spec wl)). \<exists>name \<in> set (tp_names tp).
        tp_ns tp @ ''-'' @ name = kp_ns pod @ ''-'' @ kp_name pod)"
  unfolding whitelisted_def whitelist_map_dom whitelist_key_def by (auto simp: eq_commute)

text \<open>
  When the whitelist cannot be read, the agent does not report the error: it crashes on the
  nil result, whatever the error, and nothing is written.
\<close>

theorem updateByLoadBalancing_no_whitelist:
  assumes "GetNumaNodes cl w = Ok info" and "getManagedPods cl a w = Err e"
  shows "updateByLoadBalancing cl a w = (w, Panic NilDereference)"
  using assms by (simp add: updateByLoadBalancing_def)

lemma updateByLoadBalancing_no_whitelist_witness:
  "updateByLoadBalancing sample_cluster sample_agent
     ((sample_world [] [] [] [])\<lparr>wd_whitelists := []\<rparr>) =
   ((sample_world [] [] [] [])\<lparr>wd_whitelists := []\<rparr>, Panic NilDereference)"
  by (rule updateByLoadBalancing_no_whitelist
      [where info = sample_numa and e = "''get configed crd error: not found''"]) code_simp+

text \<open>
  With every input readable, the handler replaces the affinity entries of the agent's own
  node by the computed ones and leaves every other node of the resource as it was; but when the
  node is new, the node it appends has no entry at all: the computed ones are lost.
\<close>

theorem updateByLoadBalancing_writes:
  assumes "GetNumaNodes cl w = Ok info" and "getManagedPods cl a w = Ok wl"
    and "read_oenuma cl a w = Ok oe"
    and "fst (cl_list_pods cl w '''' (FieldSelector (''spec.nodeName='' @ ag_nodeName a))) = podList"
    and "lb_pods info (whitelist_map wl) podList = Ok pas"
  shows "updateByLoadBalancing cl a w =
    write_oenuma cl a w (update_spec_nodes (\<lambda>ns.
      case node_index (ag_nodeName a) (oe_nodes oe) of
        Some i \<Rightarrow> ns[i := (ns ! i)\<lparr>node_affinity := pas\<rparr>]
      | None \<Rightarrow> ns @ [\<lparr>node_name = ag_nodeName a, node_numa = numa_entries info,
                       node_affinity = []\<rparr>]) oe)"
  using assms
  by (simp add: updateByLoadBalancing_def lb_target_def Let_def split: option.split)

lemma updateByLoadBalancing_writes_witness:
  "updateByLoadBalancing sample_cluster sample_agent
     (sample_world [] [(''ns'', [''a''])] [sample_pod ''ns'' ''a'' ''Guaranteed'' [1]] []) =
   (sample_world [\<lparr>node_name = ''n1'', node_numa = numa_entries sample_numa, node_affinity = []\<rparr>]
      [(''ns'', [''a''])] [sample_pod ''ns'' ''a'' ''Guaranteed'' [1]] [], Ok ())"
proof -
  let ?w = "sample_world [] [(''ns'', [''a''])] [sample_pod ''ns'' ''a'' ''Guaranteed'' [1]] []"
  have "updateByLoadBalancing sample_cluster sample_agent ?w =
    write_oenuma sample_cluster sample_agent ?w (update_spec_nodes (\<lambda>ns.
      case node_index (ag_nodeName sample_agent) (oe_nodes (sample_oenuma [])) of
        Some i \<Rightarrow> ns[i := (ns ! i)\<lparr>node_affinity := [\<lparr>pa_numa = 0, pa_pod = ''a'', pa_ns = ''ns'',
          pa_containers = [\<lparr>ctr_id = ''a/0'', ctr_name = ''c0'', ctr_cpuset = ''0'', ctr_memset = ''0''\<rparr>]\<rparr>]\<rparr>]
      | None \<Rightarrow> ns @ [\<lparr>node_name = ag_nodeName sample_agent, node_numa = numa_entries sample_numa,
                       node_affinity = []\<rparr>]) (sample_oenuma []))"
    by (rule updateByLoadBalancing_writes [where wl = "sample_whitelist [(''ns'', [''a''])]"
          and podList = "Some [sample_pod ''ns'' ''a'' ''Guaranteed'' [1]]" and info = sample_numa]) code_simp+
  also have "\<dots> = (sample_world [\<lparr>node_name = ''n1'', node_numa = numa_entries sample_numa, node_affinity = []\<rparr>]
      [(''ns'', [''a''])] [sample_pod ''ns'' ''a'' ''Guaranteed'' [1]] [], Ok ())"
    by code_simp
  finally show ?thesis .
qed

end
