(* ===== verification/NumafastUpdate.thy ===== *)
theory NumafastUpdate
  imports Cluster
begin

text \<open>
  \<open>updateByNumafastAware\<close> of \<open>pkg/agent/agent.go\<close>: the affinity groups of the server are merged
  into the affinity entries of the agent's node, then every entry gets its containers: those of
  a pod of class Guaranteed take the CPUs of their NUMA node one after the other, any other pod
  gets the whole node.
\<close>

section \<open>Merging the affinity groups\<close>

text \<open>
  An entry of the same pod name, in whatever namespace, gets the NUMA number of the group; only
  when there is none an entry is appended, without containers.
\<close>

fun nf_place :: "int32 \<Rightarrow> pb_pod \<Rightarrow> pod_affinity list \<Rightarrow> pod_affinity list" where
  "nf_place num p [] =
     [\<lparr>pa_numa = num, pa_pod = pb_podName p, pa_ns = pb_podNamespace p, pa_containers = []\<rparr>]"
| "nf_place num p (pa # pas) =
     (if pa_pod pa = pb_podName p then pa\<lparr>pa_numa := num\<rparr> # pas else pa # nf_place num p pas)"

definition nf_merge :: "pb_affinity_group list \<Rightarrow> pod_affinity list \<Rightarrow> pod_affinity list" where
  "nf_merge groups pas =
     fold (\<lambda>g. fold (nf_place (to_int32 (pbg_number g))) (pbg_pods g)) groups pas"

text \<open>\<^verbatim>\<open>mps\<close>: the class of each pod by name; a name that is not there reads as empty.\<close>

definition pod_classes :: "k8s_pod list \<Rightarrow> (string, string) go_map" where
  "pod_classes pods = fold (\<lambda>p. AList.update (kp_name p) (kp_qos p)) pods []"

definition class_of :: "(string, string) go_map \<Rightarrow> string \<Rightarrow> string" where
  "class_of mps name = (case map_of mps name of Some c \<Rightarrow> c | None \<Rightarrow> '''')"

section \<open>The containers of an entry\<close>

text \<open>All containers, with their statuses, of the listed pods that an entry names.\<close>

definition entry_containers ::
    "k8s_pod list \<Rightarrow> pod_affinity \<Rightarrow> (container_status list \<times> k8s_container) list" where
  "entry_containers pods pa =
     concat (map (\<lambda>p. map (Pair (kp_statuses p)) (kp_containers p))
       (filter (\<lambda>p. kp_name p = pa_pod pa \<and> kp_ns p = pa_ns pa) pods))"

text \<open>A pod that is not Guaranteed: every container gets the entry of the resource's own node.\<close>

definition nf_shared ::
    "numa list \<Rightarrow> k8s_pod list \<Rightarrow> pod_affinity \<Rightarrow> container list go" where
  "nf_shared numas pods pa =
     go_for (\<lambda>(statuses, c) acc.
         go_bind (go_nth numas (of_int32 (pa_numa pa))) (\<lambda>n.
           Ok (acc @ [\<lparr>ctr_id = status_id statuses (kc_name c), ctr_name = [],
                       ctr_cpuset = numa_cpuset n, ctr_memset = numa_memset n\<rparr>])))
       (entry_containers pods pa) []"

text \<open>
  A Guaranteed pod: CPUs of the NUMA node one after the other, round and round. The state is the
  CPUs so far and the index \<^verbatim>\<open>idx\<close>.
\<close>

definition nf_take_cpu :: "string list \<Rightarrow> string list \<times> int \<Rightarrow> (string list \<times> int) go" where
  "nf_take_cpu cpuset = (\<lambda>(acc, idx).
     go_bind (go_nth cpuset idx) (\<lambda>c.
     go_bind (go_mod (idx + 1) (int (length cpuset))) (\<lambda>idx1. Ok (acc @ [c], idx1))))"

definition nf_container ::
    "string list \<Rightarrow> int32 \<Rightarrow> container_status list \<times> k8s_container \<Rightarrow>
     container list \<times> int \<Rightarrow> (container list \<times> int) go" where
  "nf_container cpuset num = (\<lambda>(statuses, c) (acc, idx).
     go_bind (go_for (\<lambda>_. nf_take_cpu cpuset) [0..<nat (kc_cpus c)] ([], idx)) (\<lambda>(got, idx1).
       Ok (acc @ [\<lparr>ctr_id = status_id statuses (kc_name c), ctr_name = kc_name c,
                   ctr_cpuset = strings_Join got '','', ctr_memset = strconv_Itoa (of_int32 num)\<rparr>],
           idx1)))"

definition alloc_idx :: "(int, int) go_map \<Rightarrow> int \<Rightarrow> int" where
  "alloc_idx alloc n = (case map_of alloc n of Some i \<Rightarrow> i | None \<Rightarrow> 0)"

text \<open>
  One entry. The state is \<^verbatim>\<open>cpuAllocIdx\<close>, the next CPU of each NUMA node, and the entries
  done so far.
\<close>

definition nf_entry ::
    "pb_numa_node list \<Rightarrow> numa list \<Rightarrow> (string, string) go_map \<Rightarrow> k8s_pod list \<Rightarrow> pod_affinity \<Rightarrow>
     (int, int) go_map \<times> pod_affinity list \<Rightarrow> ((int, int) go_map \<times> pod_affinity list) go" where
  "nf_entry infos numas mps pods pa = (\<lambda>(alloc, acc).
     let num = of_int32 (pa_numa pa)
     in if class_of mps (pa_pod pa) \<noteq> ''Guaranteed''
        then go_bind (nf_shared numas pods pa) (\<lambda>cs. Ok (alloc, acc @ [pa\<lparr>pa_containers := cs\<rparr>]))
        else go_bind (go_nth infos num) (\<lambda>info.
             go_bind (go_for (nf_container (strings_Split (pbn_cpuset info) (CHR '','')) (pa_numa pa))
                        (entry_containers pods pa) ([], alloc_idx alloc num)) (\<lambda>(cs, idx).
               Ok (AList.update num idx alloc, acc @ [pa\<lparr>pa_containers := cs\<rparr>]))))"

definition nf_entries ::
    "pb_numa_node list \<Rightarrow> numa list \<Rightarrow> k8s_pod list \<Rightarrow> pod_affinity list \<Rightarrow> pod_affinity list go" where
  "nf_entries infos numas pods pas =
     go_map snd (go_for (nf_entry infos numas (pod_classes pods) pods) pas ([], []))"

section \<open>The handler\<close>

definition updateByNumafastAware ::
    "('w, 'u) cluster \<Rightarrow> agent_cfg \<Rightarrow> 'w \<Rightarrow> 'w \<times> unit go" where
  "updateByNumafastAware cl a w =
     (case go_bind (read_oenuma cl a w) (\<lambda>oe.
        go_bind (GetNumaNodes cl w) (\<lambda>info.
          case node_index (ag_nodeName a) (oe_nodes oe) of
            None \<Rightarrow> Err ''faile to get targetNode''
          | Some i \<Rightarrow>
              (case cl_list_pods cl w ''default'' NoSelector of
                 (_, Some e) \<Rightarrow> Err (''get pods list error: '' @ e)
               | (None, None) \<Rightarrow> Panic NilDereference
               | (Some pods, None) \<Rightarrow>
                   go_bind (GetPodAffinityRelationship cl w pods) (\<lambda>groups.
                   let n = oe_nodes oe ! i
                   in go_bind (nf_entries (pbi_nodes info) (node_numa n) pods
                                (nf_merge groups (node_affinity n))) (\<lambda>pas.
                      Ok (update_spec_nodes (\<lambda>ns. ns[i := n\<lparr>node_affinity := pas\<rparr>]) oe))))))
      of Ok oe \<Rightarrow> write_oenuma cl a w oe
       | Err e \<Rightarrow> (w, Err e)
       | Panic p \<Rightarrow> (w, Panic p))"

end
