(* ===== verification/NumafastMerge.thy ===== *)
theory NumafastMerge
  imports NumafastUpdate "HOL-Library.AList"
begin

text \<open>
  The merge of the server's affinity groups into the entries of a node (the first loop of
  \<open>updateByNumafastAware\<close>), and a reference for it that does not search and place pod by pod:
  which names get a number is read off the groups once, the entries that are there are
  renumbered, and the pods without an entry are appended.
\<close>

section \<open>What the merge assigns\<close>

definition assigned :: "pb_affinity_group list \<Rightarrow> (string \<times> int32) list" where
  "assigned groups = concat (map (\<lambda>g. map (\<lambda>p. (pb_podName p, to_int32 (pbg_number g))) (pbg_pods g)) groups)"

abbreviation numbers :: "pod_affinity list \<Rightarrow> (string \<times> int32) list" where
  "numbers pas \<equiv> map (\<lambda>pa. (pa_pod pa, pa_numa pa)) pas"

lemma nf_place_numbers: "map_of (numbers (nf_place num p pas)) = (map_of (numbers pas))(pb_podName p \<mapsto> num)"
  by (induction num p pas rule: nf_place.induct) auto

lemma nf_place_prefix:
  "map (\<lambda>pa. pa\<lparr>pa_numa := 0\<rparr>) (take (length pas) (nf_place num p pas)) = map (\<lambda>pa. pa\<lparr>pa_numa := 0\<rparr>) pas
   \<and> length pas \<le> length (nf_place num p pas)"
  by (induction num p pas rule: nf_place.induct) auto

lemma nf_place_distinct: "distinct (map pa_pod (nf_place num p pas)) = distinct (map pa_pod pas)"
proof -
  have "set (map pa_pod (nf_place num p pas)) = insert (pb_podName p) (set (map pa_pod pas))"
    for pas by (induction num p pas rule: nf_place.induct) auto
  then show ?thesis
    by (induction num p pas rule: nf_place.induct) auto
qed

text \<open>The merge places the pods one after the other.\<close>

lemma nf_merge_flat:
  "nf_merge groups pas = fold (\<lambda>(num, p). nf_place num p)
     (concat (map (\<lambda>g. map (Pair (to_int32 (pbg_number g))) (pbg_pods g)) groups)) pas"
proof -
  have "fold (nf_place num) qs pas = fold (\<lambda>(num, p). nf_place num p) (map (Pair num) qs) pas" for num qs pas
    by (induction qs arbitrary: pas) auto
  then show ?thesis
    unfolding nf_merge_def by (induction groups arbitrary: pas) auto
qed

lemma nf_merge_as_places:
  "\<exists>ps. nf_merge groups pas = fold (\<lambda>(num, p). nf_place num p) ps pas
     \<and> map (\<lambda>(num, p). (pb_podName p, num)) ps = assigned groups"
  unfolding nf_merge_flat by (rule exI) (auto simp: assigned_def map_concat comp_def)

lemma nf_merge_map:
  "map_of (numbers (nf_merge groups pas)) = map_of (numbers pas) ++ map_of (rev (assigned groups))"
proof -
  obtain ps where ps: "nf_merge groups pas = fold (\<lambda>(num, p). nf_place num p) ps pas"
    "map (\<lambda>(num, p). (pb_podName p, num)) ps = assigned groups"
    using nf_merge_as_places by blast
  have "map_of (numbers (fold (\<lambda>(num, p). nf_place num p) ps pas)) =
      map_of (numbers pas) ++ map_of (rev (map (\<lambda>(num, p). (pb_podName p, num)) ps))"
    by (induction ps arbitrary: pas) (auto simp: nf_place_numbers)
  then show ?thesis unfolding ps .
qed

lemma nf_merge_keys: "distinct (map pa_pod (nf_merge groups pas)) = distinct (map pa_pod pas)"
proof -
  obtain ps where ps: "nf_merge groups pas = fold (\<lambda>(num, p). nf_place num p) ps pas"
    using nf_merge_as_places by blast
  show ?thesis
    unfolding ps by (induction ps arbitrary: pas) (auto simp: nf_place_distinct split: prod.split)
qed

lemma nf_merge_keeps:
  "map (\<lambda>pa. pa\<lparr>pa_numa := 0\<rparr>) (take (length pas) (nf_merge groups pas)) = map (\<lambda>pa. pa\<lparr>pa_numa := 0\<rparr>) pas"
proof -
  obtain ps where ps: "nf_merge groups pas = fold (\<lambda>(num, p). nf_place num p) ps pas"
    using nf_merge_as_places by blast
  let ?merge = "fold (\<lambda>(num, p). nf_place num p)" and ?zero = "map (\<lambda>pa. pa\<lparr>pa_numa := 0\<rparr>)"
  have "?zero (take (length pas) (?merge ps pas)) = ?zero pas"
  proof (induction ps arbitrary: pas)
    case (Cons x xs)
    obtain num p where x: "x = (num, p)" by fastforce
    let ?mid = "nf_place num p pas"
    have "?zero (take (length pas) (?merge xs ?mid)) = take (length pas) (?zero (take (length ?mid) (?merge xs ?mid)))"
      using nf_place_prefix [of pas num p] by (simp add: take_map min_def)
    also have "\<dots> = ?zero (take (length pas) ?mid)" by (simp only: Cons.IH take_map)
    also have "\<dots> = ?zero pas" using nf_place_prefix by blast
    finally show ?case by (simp add: x)
  qed simp
  then show ?thesis unfolding ps .
qed

text \<open>
  After the merge every pod of a group has the group's NUMA number and every other entry
  its old one; no pod name appears twice that did not before; and the old entries keep their
  place, their namespace and their containers, so a pod of a group whose name an entry of
  another namespace has gets no entry, but changes the number of that other pod.
\<close>

theorem nf_merge_numbers:
  "map_of (numbers (nf_merge groups pas)) = map_of (numbers pas) ++ map_of (rev (assigned groups))
   \<and> distinct (map pa_pod (nf_merge groups pas)) = distinct (map pa_pod pas)
   \<and> map (\<lambda>pa. pa\<lparr>pa_numa := 0\<rparr>) (take (length pas) (nf_merge groups pas)) = map (\<lambda>pa. pa\<lparr>pa_numa := 0\<rparr>) pas"
  using nf_merge_map nf_merge_keys nf_merge_keeps by blast

section \<open>The reference merge\<close>

text \<open>The first entry of each name gets the number of the name.\<close>

fun renumber :: "(string \<rightharpoonup> int32) \<Rightarrow> pod_affinity list \<Rightarrow> pod_affinity list" where
  "renumber f [] = []"
| "renumber f (pa # pas) =
     (case f (pa_pod pa) of None \<Rightarrow> pa | Some v \<Rightarrow> pa\<lparr>pa_numa := v\<rparr>) # renumber (f(pa_pod pa := None)) pas"

lemma renumber_empty: "renumber Map.empty pas = pas"
  by (induction pas) auto

lemma nf_place_renumber:
  "pb_podName p \<in> pa_pod ` set pas \<Longrightarrow> nf_place num p (renumber f pas) = renumber (f(pb_podName p \<mapsto> num)) pas"
proof (induction pas arbitrary: f)
  case (Cons pa pas)
  show ?case
  proof (cases "pa_pod pa = pb_podName p")
    case True
    then have "(f(pb_podName p \<mapsto> num))(pa_pod pa := None) = f(pb_podName p := None)" by simp
    moreover have "(f(pb_podName p \<mapsto> num)) (pb_podName p) = Some num" by simp
    ultimately show ?thesis using True by (simp del: fun_upd_apply split: option.split)
  next
    case False
    then have "nf_place num p (renumber (f(pa_pod pa := None)) pas) =
        renumber ((f(pb_podName p \<mapsto> num))(pa_pod pa := None)) pas"
      unfolding fun_upd_twist [OF False [symmetric]] by - (rule Cons.IH, use Cons.prems False in auto)
    moreover have "(f(pb_podName p \<mapsto> num)) (pa_pod pa) = f (pa_pod pa)" using False by simp
    ultimately show ?thesis using False by (simp del: fun_upd_apply split: option.split)
  qed
qed simp

text \<open>The pods of the groups, by name and namespace, and the entries of those that had none.\<close>

definition grouped :: "pb_affinity_group list \<Rightarrow> (string \<times> string) list" where
  "grouped groups = concat (map (\<lambda>g. map (\<lambda>p. (pb_podName p, pb_podNamespace p)) (pbg_pods g)) groups)"

definition new_entry :: "(string \<rightharpoonup> int32) \<Rightarrow> string \<times> string \<Rightarrow> pod_affinity" where
  "new_entry f = (\<lambda>(name, ns). \<lparr>pa_numa = the (f name), pa_pod = name, pa_ns = ns, pa_containers = []\<rparr>)"

text \<open>
  The last group that has a pod of a name gives the name its number. The first entry of each name
  is renumbered. A name without an entry gets one behind the others, in the order in which the
  names come first in the groups, in the namespace of that first pod and without containers.
\<close>

definition merge_spec :: "pb_affinity_group list \<Rightarrow> pod_affinity list \<Rightarrow> pod_affinity list" where
  "merge_spec groups pas =
     (let number = map_of (rev (assigned groups))
      in renumber number pas @ map (new_entry number)
           (filter (\<lambda>(name, _). name \<notin> pa_pod ` set pas) (AList.clearjunk (grouped groups))))"

lemma renumber_names [simp]: "map pa_pod (renumber f pas) = map pa_pod pas"
  by (induction pas arbitrary: f) (auto split: option.split)

lemma renumber_append:
  "renumber f (pas @ qs) = renumber f pas @ renumber (f |` (- (pa_pod ` set pas))) qs"
proof (induction pas arbitrary: f)
  case (Cons pa pas)
  have "(f(pa_pod pa := None)) |` (- (pa_pod ` set pas)) = f |` (- (pa_pod ` set (pa # pas)))"
    by (rule ext) (auto simp: restrict_map_def)
  then show ?case by (simp add: Cons.IH del: fun_upd_apply)
qed (simp add: restrict_map_def)

lemma renumber_cong:
  "(\<And>name. name \<in> pa_pod ` set pas \<Longrightarrow> f name = g name) \<Longrightarrow> renumber f pas = renumber g pas"
proof (induction pas arbitrary: f g)
  case (Cons pa pas)
  have "renumber (f(pa_pod pa := None)) pas = renumber (g(pa_pod pa := None)) pas"
    using Cons.prems by (intro Cons.IH) auto
  then show ?case using Cons.prems [of "pa_pod pa"] by (simp del: fun_upd_apply)
qed simp

lemma nf_place_new:
  "pb_podName p \<notin> pa_pod ` set pas \<Longrightarrow> nf_place num p pas =
     pas @ [\<lparr>pa_numa = num, pa_pod = pb_podName p, pa_ns = pb_podNamespace p, pa_containers = []\<rparr>]"
  by (induction pas) auto

lemma nf_place_old:
  assumes "pb_podName p \<in> pa_pod ` set pas"
  shows "nf_place num p pas = renumber [pb_podName p \<mapsto> num] pas"
  using nf_place_renumber [OF assms, of num Map.empty] by (simp add: renumber_empty)

lemma renumber_renumber:
  "renumber g (renumber f pas) = renumber (f ++ g) pas"
proof (induction pas arbitrary: f g)
  case (Cons pa pas)
  have "f(pa_pod pa := None) ++ g(pa_pod pa := None) = (f ++ g)(pa_pod pa := None)"
    by (rule ext) (auto simp: map_add_def split: option.split)
  then show ?case by (auto simp: Cons.IH simp del: fun_upd_apply split: option.split)
qed simp

text \<open>One pod placed, then the reference on the others, is the reference on all of them.\<close>

definition spec_with :: "(string \<rightharpoonup> int32) \<Rightarrow> (string \<times> string) list \<Rightarrow> pod_affinity list \<Rightarrow> pod_affinity list" where
  "spec_with f ks pas = renumber f pas @ map (new_entry f)
     (filter (\<lambda>(name, _). name \<notin> pa_pod ` set pas) (AList.clearjunk ks))"

lemma new_entry_cong:
  "(\<And>kn. kn \<in> set kns \<Longrightarrow> f (fst kn) = g (fst kn)) \<Longrightarrow> map (new_entry f) kns = map (new_entry g) kns"
  by (auto simp: new_entry_def)

lemma filter_delete:
  "filter (\<lambda>(name, _). name \<notin> A) (AList.delete k ks) = filter (\<lambda>(name, _). name \<notin> insert k A) ks"
  unfolding AList.delete_eq filter_filter by (intro filter_cong) auto

lemma place_then_spec:
  "spec_with f ks (nf_place num p pas) =
   spec_with ([pb_podName p \<mapsto> num] ++ f) ((pb_podName p, pb_podNamespace p) # ks) pas"
proof -
  let ?k = "pb_podName p" and ?names = "pa_pod ` set pas"
  let ?f = "[?k \<mapsto> num] ++ f" and ?left = "\<lambda>A. filter (\<lambda>(name, _). name \<notin> A) (AList.clearjunk ks)"
  have other: "?f name = f name" if "name \<noteq> ?k" for name
    using that by (auto simp: map_add_def split: option.split)
  have rest: "map (new_entry ?f) (?left (insert ?k ?names)) = map (new_entry f) (?left (insert ?k ?names))"
    by (intro new_entry_cong other) auto
  show ?thesis
  proof (cases "?k \<in> ?names")
    case True
    have "pa_pod ` set (nf_place num p pas) = ?names"
      unfolding nf_place_old [OF True] by (metis list.set_map renumber_names)
    then show ?thesis
      using True rest by (simp add: spec_with_def clearjunk_delete filter_delete nf_place_old renumber_renumber insert_absorb)
  next
    case False
    let ?e = "\<lparr>pa_numa = num, pa_pod = ?k, pa_ns = pb_podNamespace p, pa_containers = []\<rparr>"
    have "renumber ?f pas = renumber f pas"
      using False other by (intro renumber_cong) metis
    moreover have "renumber (f |` (- ?names)) [?e] = [new_entry ?f (?k, pb_podNamespace p)]"
      using False by (simp add: new_entry_def restrict_map_def map_add_def split: option.split)
    ultimately show ?thesis
      using False rest by (simp add: spec_with_def clearjunk_delete filter_delete nf_place_new renumber_append
          del: renumber.simps)
  qed
qed

text \<open>The merge is the reference merge.\<close>

lemma nf_merge_spec: "nf_merge groups pas = merge_spec groups pas"
proof -
  let ?ps = "concat (map (\<lambda>g. map (Pair (to_int32 (pbg_number g))) (pbg_pods g)) groups)"
  have "fold (\<lambda>(num, p). nf_place num p) ps pas =
      spec_with (map_of (rev (map (\<lambda>(num, p). (pb_podName p, num)) ps)))
        (map (\<lambda>(num, p). (pb_podName p, pb_podNamespace p)) ps) pas" for ps
  proof (induction ps arbitrary: pas)
    case Nil
    then show ?case by (simp add: spec_with_def renumber_empty)
  next
    case (Cons x ps)
    then show ?case by (cases x) (simp add: place_then_spec)
  qed
  moreover have "nf_merge groups pas = fold (\<lambda>(num, p). nf_place num p) ?ps pas"
    by (rule nf_merge_flat)
  moreover have "map (\<lambda>(num, p). (pb_podName p, num)) ?ps = assigned groups"
    "map (\<lambda>(num, p). (pb_podName p, pb_podNamespace p)) ?ps = grouped groups"
    by (simp_all add: assigned_def grouped_def map_concat comp_def)
  ultimately show ?thesis by (simp add: merge_spec_def spec_with_def Let_def)
qed

end
