(* ===== verification/NumafastProps.thy ===== *)
theory NumafastProps
  imports NumafastMerge CpuBlocks ClusterSample
begin

text \<open>
  What \<open>updateByNumafastAware\<close> writes. The entry loop is first shown equal to a reference
  allocation that keeps only the number of CPUs taken from each NUMA node; its properties follow
  from the reference.
\<close>

section \<open>The reference allocation\<close>

definition info_cpus :: "pb_numa_node list \<Rightarrow> nat \<Rightarrow> string list" where
  "info_cpus infos n = strings_Split (pbn_cpuset (infos ! n)) (CHR '','')"

definition entry_requests :: "k8s_pod list \<Rightarrow> pod_affinity \<Rightarrow> nat list" where
  "entry_requests pods pa = map (\<lambda>(_, c). nat (kc_cpus c)) (entry_containers pods pa)"

definition entry_numa :: "pod_affinity \<Rightarrow> nat" where
  "entry_numa pa = nat (of_int32 (pa_numa pa))"

definition entry_pinned :: "k8s_pod list \<Rightarrow> pod_affinity \<Rightarrow> bool" where
  "entry_pinned pods pa \<longleftrightarrow> class_of (pod_classes pods) (pa_pod pa) = ''Guaranteed''"

text \<open>
  The NUMA numbers the loop can follow: a Guaranteed entry indexes the nodes of the affinity
  server, any other entry with containers indexes the nodes of the resource.
\<close>

definition in_range :: "int32 \<Rightarrow> 'a list \<Rightarrow> bool" where
  "in_range num xs \<longleftrightarrow> 0 \<le> of_int32 num \<and> of_int32 num < int (length xs)"

definition entry_in_range ::
    "pb_numa_node list \<Rightarrow> numa list \<Rightarrow> k8s_pod list \<Rightarrow> pod_affinity \<Rightarrow> bool" where
  "entry_in_range infos numas pods pa \<longleftrightarrow>
     (if entry_pinned pods pa then in_range (pa_numa pa) infos
      else entry_containers pods pa = [] \<or> in_range (pa_numa pa) numas)"

definition pinned_container ::
    "int32 \<Rightarrow> container_status list \<times> k8s_container \<Rightarrow> string list \<Rightarrow> container" where
  "pinned_container num = (\<lambda>(statuses, c) got.
     \<lparr>ctr_id = status_id statuses (kc_name c), ctr_name = kc_name c,
      ctr_cpuset = strings_Join got '','', ctr_memset = strconv_Itoa (of_int32 num)\<rparr>)"

definition shared_container :: "numa \<Rightarrow> container_status list \<times> k8s_container \<Rightarrow> container" where
  "shared_container n = (\<lambda>(statuses, c).
     \<lparr>ctr_id = status_id statuses (kc_name c), ctr_name = [],
      ctr_cpuset = numa_cpuset n, ctr_memset = numa_memset n\<rparr>)"

definition spec_containers ::
    "pb_numa_node list \<Rightarrow> numa list \<Rightarrow> k8s_pod list \<Rightarrow> nat \<Rightarrow> pod_affinity \<Rightarrow> container list" where
  "spec_containers infos numas pods used pa =
     (let cs = entry_containers pods pa; qs = entry_requests pods pa
      in if entry_pinned pods pa
         then map2 (pinned_container (pa_numa pa)) cs
                (blocks qs (cycle_take used (sum_list qs) (info_cpus infos (entry_numa pa))))
         else map (shared_container (numas ! entry_numa pa)) cs)"

definition spec_used :: "k8s_pod list \<Rightarrow> (nat \<Rightarrow> nat) \<Rightarrow> pod_affinity \<Rightarrow> nat \<Rightarrow> nat" where
  "spec_used pods u pa =
     (if entry_pinned pods pa
      then u(entry_numa pa := u (entry_numa pa) + sum_list (entry_requests pods pa)) else u)"

fun spec_entries ::
    "pb_numa_node list \<Rightarrow> numa list \<Rightarrow> k8s_pod list \<Rightarrow> (nat \<Rightarrow> nat) \<Rightarrow> pod_affinity list \<Rightarrow>
     pod_affinity list" where
  "spec_entries infos numas pods u [] = []"
| "spec_entries infos numas pods u (pa # pas) =
     pa\<lparr>pa_containers := spec_containers infos numas pods (u (entry_numa pa)) pa\<rparr>
       # spec_entries infos numas pods (spec_used pods u pa) pas"

section \<open>The entry loop is the reference allocation\<close>

lemma nf_take_cycle:
  assumes "i < length cpuset"
  shows "go_for (\<lambda>_. nf_take_cpu cpuset) xs (acc, int i) =
         Ok (acc @ cycle_take i (length xs) cpuset, int ((i + length xs) mod length cpuset))"
  using assms
proof (induction xs arbitrary: i acc)
  case (Cons x xs)
  let ?L = "length cpuset"
  have L: "0 < ?L" using Cons.prems by linarith
  have "go_mod (int i + 1) (int ?L) = Ok (int (Suc i mod ?L))"
    using L by (simp add: go_mod_nonneg zmod_int add.commute)
  then have step: "nf_take_cpu cpuset (acc, int i) = Ok (acc @ [cpuset ! i], int (Suc i mod ?L))"
    using Cons.prems by (simp add: nf_take_cpu_def)
  have one: "cycle_take i (Suc (length xs)) cpuset = cpuset ! i # cycle_take (Suc i mod ?L) (length xs) cpuset"
    using cycle_take_add [of i 1 "length xs" cpuset] Cons.prems
    by (simp add: cycle_take_mod cycle_take_def [of i "Suc 0"])
  have "go_for (\<lambda>_. nf_take_cpu cpuset) xs (acc @ [cpuset ! i], int (Suc i mod ?L)) =
      Ok ((acc @ [cpuset ! i]) @ cycle_take (Suc i mod ?L) (length xs) cpuset,
          int ((Suc i mod ?L + length xs) mod ?L))"
    by (rule Cons.IH) (use L in simp)
  then show ?case
    by (simp only: go_for.simps step go_bind.simps length_Cons one) (simp add: mod_simps)
qed simp

lemma nf_containers_cycle:
  assumes "cpuset \<noteq> []"
  shows "go_for (nf_container cpuset num) cs (acc, int (i mod length cpuset)) =
     Ok (acc @ map2 (pinned_container num) cs (blocks (map (\<lambda>(_, c). nat (kc_cpus c)) cs)
            (cycle_take i (\<Sum>(_, c)\<leftarrow>cs. nat (kc_cpus c)) cpuset)),
         int ((i + (\<Sum>(_, c)\<leftarrow>cs. nat (kc_cpus c))) mod length cpuset))"
proof (induction cs arbitrary: i acc)
  case (Cons sc cs)
  obtain sts c where sc: "sc = (sts, c)" by fastforce
  let ?q = "nat (kc_cpus c)" and ?L = "length cpuset"
  let ?qs = "\<Sum>(_, c)\<leftarrow>cs. nat (kc_cpus c)"
  let ?first = "pinned_container num sc (cycle_take i ?q cpuset)"
  have "go_for (\<lambda>_. nf_take_cpu cpuset) [0..<?q] ([], int (i mod ?L)) =
      Ok (cycle_take i ?q cpuset, int ((i + ?q) mod ?L))"
    using assms by (subst nf_take_cycle) (auto simp: cycle_take_mod mod_simps)
  then have step: "nf_container cpuset num sc (acc, int (i mod ?L)) =
      Ok (acc @ [?first], int ((i + ?q) mod ?L))"
    by (simp add: sc nf_container_def pinned_container_def)
  have blk: "blocks (?q # map (\<lambda>(_, c). nat (kc_cpus c)) cs) (cycle_take i (?q + ?qs) cpuset) =
      cycle_take i ?q cpuset # blocks (map (\<lambda>(_, c). nat (kc_cpus c)) cs) (cycle_take (i + ?q) ?qs cpuset)"
    by (simp add: cycle_take_add)
  have rest: "go_for (nf_container cpuset num) cs (acc @ [?first], int ((i + ?q) mod ?L)) =
      Ok ((acc @ [?first]) @ map2 (pinned_container num) cs (blocks (map (\<lambda>(_, c). nat (kc_cpus c)) cs)
            (cycle_take (i + ?q) ?qs cpuset)), int ((i + ?q + ?qs) mod ?L))"
    by (rule Cons.IH)
  show ?case
    by (simp only: go_for.simps step [unfolded sc] go_bind.simps rest [unfolded sc] list.map sc prod.case blk zip_Cons_Cons
        sum_list.Cons append_assoc append_Cons append_Nil add.assoc)
qed simp

lemma nf_shared_eq:
  "nf_shared numas pods pa =
     (if entry_containers pods pa = [] \<or> in_range (pa_numa pa) numas
      then Ok (map (shared_container (numas ! entry_numa pa)) (entry_containers pods pa))
      else Panic IndexOutOfRange)"
proof -
  let ?body = "\<lambda>(statuses, c) acc.
         go_bind (go_nth numas (of_int32 (pa_numa pa))) (\<lambda>n.
           Ok (acc @ [\<lparr>ctr_id = status_id statuses (kc_name c), ctr_name = [],
                       ctr_cpuset = numa_cpuset n, ctr_memset = numa_memset n\<rparr>]))"
  have ok: "go_for ?body cs acc = Ok (acc @ map (shared_container (numas ! entry_numa pa)) cs)"
    if "in_range (pa_numa pa) numas" for cs acc
    using that by (induction cs arbitrary: acc)
      (auto simp: go_nth_def in_range_def entry_numa_def shared_container_def)
  have panic: "go_for ?body (x # cs) acc = Panic IndexOutOfRange"
    if "\<not> in_range (pa_numa pa) numas" for x cs acc
    using that by (cases x) (auto simp: go_nth_def in_range_def)
  show ?thesis
  proof (cases "in_range (pa_numa pa) numas")
    case True
    then show ?thesis unfolding nf_shared_def ok [OF True] by simp
  next
    case False
    then show ?thesis
      unfolding nf_shared_def using panic [OF False]
      by (cases "entry_containers pods pa") (simp, simp only: list.distinct False simp_thms if_False)
  qed
qed

text \<open>The index map stands for the numbers of CPUs taken.\<close>

definition alloc_rep :: "pb_numa_node list \<Rightarrow> (nat \<Rightarrow> nat) \<Rightarrow> (int, int) go_map \<Rightarrow> bool" where
  "alloc_rep infos u alloc \<longleftrightarrow>
     (\<forall>n < length infos. alloc_idx alloc (int n) = int (u n mod length (info_cpus infos n)))"

lemma alloc_idx_update: "alloc_idx (AList.update n i alloc) k = (if k = n then i else alloc_idx alloc k)"
  by (simp add: alloc_idx_def update_conv')

lemma nf_entry_eq:
  assumes "alloc_rep infos u alloc"
  shows "if entry_in_range infos numas pods pa
    then \<exists>alloc'. nf_entry infos numas (pod_classes pods) pods pa (alloc, acc) =
             Ok (alloc', acc @ [pa\<lparr>pa_containers := spec_containers infos numas pods (u (entry_numa pa)) pa\<rparr>])
           \<and> alloc_rep infos (spec_used pods u pa) alloc'
    else nf_entry infos numas (pod_classes pods) pods pa (alloc, acc) = Panic IndexOutOfRange"
proof (cases "entry_pinned pods pa")
  case False
  then have "class_of (pod_classes pods) (pa_pod pa) \<noteq> ''Guaranteed''" by (simp add: entry_pinned_def)
  then show ?thesis
    using False assms by (simp add: nf_entry_def nf_shared_eq entry_in_range_def spec_containers_def
        spec_used_def Let_def)
next
  case True
  then have G: "class_of (pod_classes pods) (pa_pod pa) = ''Guaranteed''" by (simp add: entry_pinned_def)
  show ?thesis
  proof (cases "in_range (pa_numa pa) infos")
    case False
    then have "go_nth infos (of_int32 (pa_numa pa)) = Panic IndexOutOfRange"
      by (auto simp: in_range_def go_nth_def)
    then show ?thesis
      using True G False by (simp add: nf_entry_def entry_in_range_def)
  next
    case r: True
    let ?n = "entry_numa pa"
    let ?cpus = "info_cpus infos ?n" and ?d = "sum_list (entry_requests pods pa)"
    have n: "int ?n = of_int32 (pa_numa pa)" "?n < length infos"
      using r by (auto simp: in_range_def entry_numa_def)
    have "?cpus \<noteq> []" by (simp add: info_cpus_def strings_Split_not_Nil)
    from nf_containers_cycle [OF this, of "pa_numa pa" "entry_containers pods pa" "[]" "u ?n"]
    have run: "go_for (nf_container ?cpus (pa_numa pa)) (entry_containers pods pa)
          ([], int (u ?n mod length ?cpus)) =
        Ok (spec_containers infos numas pods (u ?n) pa, int ((u ?n + ?d) mod length ?cpus))"
      using True by (simp add: spec_containers_def entry_requests_def Let_def)
    have "nf_entry infos numas (pod_classes pods) pods pa (alloc, acc) =
        Ok (AList.update (int ?n) (int ((u ?n + ?d) mod length ?cpus)) alloc,
            acc @ [pa\<lparr>pa_containers := spec_containers infos numas pods (u ?n) pa\<rparr>])"
      using G n assms run unfolding nf_entry_def alloc_rep_def n(1) [symmetric]
      by (simp add: info_cpus_def [symmetric])
    moreover have "alloc_rep infos (spec_used pods u pa)
        (AList.update (int ?n) (int ((u ?n + ?d) mod length ?cpus)) alloc)"
      using assms True by (auto simp: alloc_rep_def alloc_idx_update spec_used_def)
    ultimately show ?thesis
      using True r by (auto simp: entry_in_range_def)
  qed
qed

lemma nf_loop_eq:
  assumes "alloc_rep infos u alloc"
  shows "go_map snd (go_for (nf_entry infos numas (pod_classes pods) pods) pas (alloc, acc)) =
    (if \<forall>pa \<in> set pas. entry_in_range infos numas pods pa
     then Ok (acc @ spec_entries infos numas pods u pas) else Panic IndexOutOfRange)"
  using assms
proof (induction pas arbitrary: u alloc acc)
  case (Cons pa pas)
  show ?case
  proof (cases "entry_in_range infos numas pods pa")
    case True
    with nf_entry_eq [OF Cons.prems, of numas pods pa acc] obtain alloc' where
      step: "nf_entry infos numas (pod_classes pods) pods pa (alloc, acc) =
        Ok (alloc', acc @ [pa\<lparr>pa_containers := spec_containers infos numas pods (u (entry_numa pa)) pa\<rparr>])"
      and rep: "alloc_rep infos (spec_used pods u pa) alloc'" by auto
    from Cons.IH [OF rep] True show ?thesis by (simp add: step)
  next
    case False
    with nf_entry_eq [OF Cons.prems, of numas pods pa acc] show ?thesis by simp
  qed
qed simp

lemma nf_entries_eq:
  "nf_entries infos numas pods pas =
     (if \<forall>pa \<in> set pas. entry_in_range infos numas pods pa
      then Ok (spec_entries infos numas pods (\<lambda>_. 0) pas) else Panic IndexOutOfRange)"
proof -
  have "alloc_rep infos (\<lambda>_. 0) []" by (simp add: alloc_rep_def alloc_idx_def)
  from nf_loop_eq [OF this, of numas pods pas "[]"] show ?thesis by (simp add: nf_entries_def)
qed

section \<open>Properties of the allocation\<close>

lemma spec_entries_shape:
  "length (spec_entries infos numas pods u pas) = length pas"
  "i < length pas \<Longrightarrow> \<exists>used. spec_entries infos numas pods u pas ! i =
     (pas ! i)\<lparr>pa_containers := spec_containers infos numas pods used (pas ! i)\<rparr>"
proof -
  show "length (spec_entries infos numas pods u pas) = length pas"
    by (induction pas arbitrary: u) auto
  show "i < length pas \<Longrightarrow> \<exists>used. spec_entries infos numas pods u pas ! i =
     (pas ! i)\<lparr>pa_containers := spec_containers infos numas pods used (pas ! i)\<rparr>"
    by (induction pas arbitrary: u i) (auto simp: nth_Cons split: nat.split)
qed

definition pinned_to :: "k8s_pod list \<Rightarrow> nat \<Rightarrow> pod_affinity \<Rightarrow> bool" where
  "pinned_to pods n pa \<longleftrightarrow> entry_pinned pods pa \<and> entry_numa pa = n"

definition node_requests :: "k8s_pod list \<Rightarrow> nat \<Rightarrow> pod_affinity list \<Rightarrow> nat list" where
  "node_requests pods n pas = concat (map (entry_requests pods) (filter (pinned_to pods n) pas))"

lemma pinned_to_containers [simp]: "pinned_to pods n (pa\<lparr>pa_containers := cs\<rparr>) = pinned_to pods n pa"
  by (simp add: pinned_to_def entry_pinned_def entry_numa_def)

lemma pinned_cpusets:
  assumes "entry_pinned pods pa"
  shows "map ctr_cpuset (spec_containers infos numas pods used pa) =
    map (\<lambda>b. strings_Join b '','') (blocks (entry_requests pods pa)
      (cycle_take used (sum_list (entry_requests pods pa)) (info_cpus infos (entry_numa pa))))"
proof -
  have "map ctr_cpuset (map2 (pinned_container num) cs bs) = map (\<lambda>b. strings_Join b '','') bs"
    if "length cs = length bs" for num cs and bs :: "string list list"
    using that by (induction rule: list_induct2) (auto simp: pinned_container_def)
  then show ?thesis
    using assms by (simp add: spec_containers_def Let_def entry_requests_def)
qed

lemma spec_entries_blocks:
  "map ctr_cpuset (concat (map pa_containers
       (filter (pinned_to pods n) (spec_entries infos numas pods u pas)))) =
   map (\<lambda>b. strings_Join b '','') (blocks (node_requests pods n pas)
       (cycle_take (u n) (sum_list (node_requests pods n pas)) (info_cpus infos n)))"
proof (induction pas arbitrary: u)
  case (Cons pa pas)
  show ?case
  proof (cases "pinned_to pods n pa")
    case True
    then have "spec_used pods u pa n = u n + sum_list (entry_requests pods pa)"
      "entry_pinned pods pa" "entry_numa pa = n"
      by (auto simp: pinned_to_def spec_used_def)
    then show ?thesis
      using Cons [of "spec_used pods u pa"] True
      by (simp add: pinned_cpusets node_requests_def cycle_take_add blocks_append_lists)
  next
    case False
    then have "spec_used pods u pa n = u n" by (auto simp: pinned_to_def spec_used_def)
    then show ?thesis
      using Cons [of "spec_used pods u pa"] False by (simp add: node_requests_def)
  qed
qed (simp add: node_requests_def)

text \<open>
  C10: the entry loop, with its map of next CPU indices, computes the reference allocation: each
  Guaranteed entry takes the next CPUs of its NUMA node after those that the entries before it on
  that node asked for, cyclically, every other entry takes the whole node; it panics exactly when
  an entry is out of range.
\<close>

theorem nf_entries_reference:
  "nf_entries infos numas pods pas =
     (if \<forall>pa \<in> set pas. entry_in_range infos numas pods pa
      then Ok (spec_entries infos numas pods (\<lambda>_. 0) pas) else Panic IndexOutOfRange)"
  by (rule nf_entries_eq)

text \<open>
  The entry loop either panics, exactly when some entry names a NUMA node that is not there
  (of the affinity server for a Guaranteed pod, of the resource for another pod that has
  containers), or gives every entry its containers without touching the rest of it.
\<close>

theorem nf_entries_panics_iff:
  "if list_all (entry_in_range infos numas pods) pas
   then \<exists>pas'. nf_entries infos numas pods pas = Ok pas'
        \<and> map (\<lambda>pa. pa\<lparr>pa_containers := []\<rparr>) pas' = map (\<lambda>pa. pa\<lparr>pa_containers := []\<rparr>) pas
   else nf_entries infos numas pods pas = Panic IndexOutOfRange"
proof -
  have "map (\<lambda>pa. pa\<lparr>pa_containers := []\<rparr>) (spec_entries infos numas pods u pas) =
      map (\<lambda>pa. pa\<lparr>pa_containers := []\<rparr>) pas" for u
    by (induction pas arbitrary: u) auto
  then show ?thesis by (auto simp: nf_entries_eq list_all_iff)
qed

text \<open>
  C11: on every NUMA node the containers of the Guaranteed pods bound to it get, in the order of
  the entries, consecutive CPUs of the node, starting over at the end; so while they ask for no
  more than the node has, no CPU of it is given twice.
\<close>

theorem nf_entries_node_cpus:
  assumes "nf_entries infos numas pods pas = Ok pas'"
  shows "map ctr_cpuset (concat (map pa_containers (filter (pinned_to pods n) pas'))) =
      map (\<lambda>b. strings_Join b '','') (blocks (node_requests pods n pas)
        (cycle_take 0 (sum_list (node_requests pods n pas))
           (strings_Split (pbn_cpuset (infos ! n)) (CHR '',''))))
    \<and> (sum_list (node_requests pods n pas) \<le> length (strings_Split (pbn_cpuset (infos ! n)) (CHR '',''))
       \<longrightarrow> map ctr_cpuset (concat (map pa_containers (filter (pinned_to pods n) pas'))) =
           map (\<lambda>b. strings_Join b '','') (blocks (node_requests pods n pas)
             (take (sum_list (node_requests pods n pas))
                (strings_Split (pbn_cpuset (infos ! n)) (CHR '','')))))"
proof -
  have "pas' = spec_entries infos numas pods (\<lambda>_. 0) pas"
    using assms by (simp add: nf_entries_eq split: if_splits)
  with spec_entries_blocks [of pods n infos numas "\<lambda>_. 0" pas] show ?thesis
    by (simp add: info_cpus_def cycle_take_once)
qed

text \<open>
  An entry of a pod that is not Guaranteed gets, for each container of the listed pods of
  its name and namespace, the whole CPU and memory set of the node it names.
\<close>

theorem nf_entries_shared:
  assumes "nf_entries infos numas pods pas = Ok pas'" and "i < length pas"
    and "class_of (pod_classes pods) (pa_pod (pas ! i)) \<noteq> ''Guaranteed''"
  shows "pas' ! i = (pas ! i)\<lparr>pa_containers :=
    map (\<lambda>(statuses, c). \<lparr>ctr_id = status_id statuses (kc_name c), ctr_name = [],
           ctr_cpuset = numa_cpuset (numas ! nat (of_int32 (pa_numa (pas ! i)))),
           ctr_memset = numa_memset (numas ! nat (of_int32 (pa_numa (pas ! i))))\<rparr>)
      (concat (map (\<lambda>p. map (Pair (kp_statuses p)) (kp_containers p))
         (filter (\<lambda>p. kp_name p = pa_pod (pas ! i) \<and> kp_ns p = pa_ns (pas ! i)) pods)))\<rparr>"
proof -
  have "pas' = spec_entries infos numas pods (\<lambda>_. 0) pas"
    using assms(1) by (simp add: nf_entries_eq split: if_splits)
  moreover have "\<not> entry_pinned pods (pas ! i)"
    using assms(3) by (simp add: entry_pinned_def)
  ultimately show ?thesis
    using spec_entries_shape(2) [OF assms(2), of infos numas pods "\<lambda>_. 0"]
    by (auto simp: spec_containers_def Let_def entry_containers_def shared_container_def entry_numa_def)
qed

text \<open>The witnesses share one node with two NUMA nodes of two CPUs and three entries.\<close>

definition sample_entry :: "int \<Rightarrow> string \<Rightarrow> pod_affinity" where
  "sample_entry num name =
     \<lparr>pa_numa = to_int32 num, pa_pod = name, pa_ns = ''default'', pa_containers = []\<rparr>"

definition sample_pods :: "k8s_pod list" where
  "sample_pods = [sample_pod ''default'' ''a'' ''Guaranteed'' [1], sample_pod ''default'' ''b'' ''Burstable'' [0],
     sample_pod ''default'' ''c'' ''Guaranteed'' [1]]"

definition sample_entries :: "pod_affinity list" where
  "sample_entries = [sample_entry 1 ''a'', sample_entry 0 ''b'', sample_entry 1 ''c'']"

definition sample_result :: "pod_affinity list" where
  "sample_result =
     [(sample_entry 1 ''a'')\<lparr>pa_containers := [\<lparr>ctr_id = ''a/0'', ctr_name = ''c0'', ctr_cpuset = ''2'', ctr_memset = ''1''\<rparr>]\<rparr>,
      (sample_entry 0 ''b'')\<lparr>pa_containers := [\<lparr>ctr_id = ''b/0'', ctr_name = '''', ctr_cpuset = ''0,1'', ctr_memset = ''0''\<rparr>]\<rparr>,
      (sample_entry 1 ''c'')\<lparr>pa_containers := [\<lparr>ctr_id = ''c/0'', ctr_name = ''c0'', ctr_cpuset = ''3'', ctr_memset = ''1''\<rparr>]\<rparr>]"

lemma sample_run:
  "nf_entries (pbi_nodes sample_numa) (numa_entries sample_numa) sample_pods sample_entries = Ok sample_result"
  by code_simp

lemma nf_entries_reference_witness:
  "spec_entries (pbi_nodes sample_numa) (numa_entries sample_numa) sample_pods (\<lambda>_. 0) sample_entries = sample_result"
  using nf_entries_reference [of "pbi_nodes sample_numa" "numa_entries sample_numa" sample_pods sample_entries]
  unfolding sample_run by (simp split: if_split_asm)

lemma nf_entries_node_cpus_witness:
  "map ctr_cpuset (concat (map pa_containers (filter (pinned_to sample_pods 1) sample_result))) = [''2'', ''3'']"
proof -
  have e: "map (\<lambda>b. strings_Join b '','') (blocks (node_requests sample_pods 1 sample_entries)
        (cycle_take 0 (sum_list (node_requests sample_pods 1 sample_entries))
           (strings_Split (pbn_cpuset (pbi_nodes sample_numa ! 1)) (CHR '','')))) = [''2'', ''3'']"
    by code_simp
  from nf_entries_node_cpus [OF sample_run, of 1] show ?thesis unfolding e by (elim conjE)
qed

lemma nf_entries_shared_witness:
  "sample_result ! 1 = (sample_entry 0 ''b'')\<lparr>pa_containers :=
     [\<lparr>ctr_id = ''b/0'', ctr_name = '''', ctr_cpuset = ''0,1'', ctr_memset = ''0''\<rparr>]\<rparr>"
proof -
  have h: "1 < length sample_entries"
    "class_of (pod_classes sample_pods) (pa_pod (sample_entries ! 1)) \<noteq> ''Guaranteed''"
    by code_simp+
  have e: "(sample_entries ! 1)\<lparr>pa_containers :=
    map (\<lambda>(statuses, c). \<lparr>ctr_id = status_id statuses (kc_name c), ctr_name = [],
           ctr_cpuset = numa_cpuset (numa_entries sample_numa ! nat (of_int32 (pa_numa (sample_entries ! 1)))),
           ctr_memset = numa_memset (numa_entries sample_numa ! nat (of_int32 (pa_numa (sample_entries ! 1))))\<rparr>)
      (concat (map (\<lambda>p. map (Pair (kp_statuses p)) (kp_containers p))
         (filter (\<lambda>p. kp_name p = pa_pod (sample_entries ! 1) \<and> kp_ns p = pa_ns (sample_entries ! 1)) sample_pods)))\<rparr> =
     (sample_entry 0 ''b'')\<lparr>pa_containers :=
     [\<lparr>ctr_id = ''b/0'', ctr_name = '''', ctr_cpuset = ''0,1'', ctr_memset = ''0''\<rparr>]\<rparr>"
    by code_simp
  from nf_entries_shared [OF sample_run h] show ?thesis unfolding e .
qed

section \<open>Properties of the handler\<close>

text \<open>
  C14: with every input readable, the handler replaces the entries of the agent's own node, and
  nothing else of the resource, by those of two references that share no code with its loops: the
  reference merge (the first entry of each name gets the number that the groups give the name
  last; names without an entry are appended once each, in the order of the groups, with the
  namespace of the pod) followed by the reference allocation of CPUs. It crashes, and writes
  nothing, exactly when a merged entry names a NUMA node that is not there.
\<close>

theorem updateByNumafastAware_writes:
  assumes "read_oenuma cl a w = Ok oe" and "GetNumaNodes cl w = Ok info"
    and "node_index (ag_nodeName a) (oe_nodes oe) = Some i"
    and "cl_list_pods cl w ''default'' NoSelector = (Some pods, None)"
    and "GetPodAffinityRelationship cl w pods = Ok groups"
  shows "updateByNumafastAware cl a w =
    (let n = oe_nodes oe ! i; merged = merge_spec groups (node_affinity n)
     in if list_all (entry_in_range (pbi_nodes info) (node_numa n) pods) merged
        then write_oenuma cl a w (update_spec_nodes (\<lambda>ns. ns[i := n\<lparr>node_affinity :=
               spec_entries (pbi_nodes info) (node_numa n) pods (\<lambda>_. 0) merged\<rparr>]) oe)
        else (w, Panic IndexOutOfRange))"
  using assms by (simp add: updateByNumafastAware_def Let_def nf_entries_eq nf_merge_spec list_all_iff)

text \<open>
  The witness renumbers the entry of b, leaves those of a and c alone and appends one for d, which
  two groups name: the second gives the number.
\<close>

definition merge_pods :: "k8s_pod list" where
  "merge_pods = sample_pods @ [sample_pod ''default'' ''d'' ''Guaranteed'' [1]]"

definition merge_groups :: "pb_affinity_group list" where
  "merge_groups = [\<lparr>pbg_number = 1, pbg_pods = [affinity_request merge_pods ! 3, affinity_request merge_pods ! 1]\<rparr>,
     \<lparr>pbg_number = 0, pbg_pods = [affinity_request merge_pods ! 3]\<rparr>]"

definition merge_result :: "pod_affinity list" where
  "merge_result =
     [(sample_entry 1 ''a'')\<lparr>pa_containers := [\<lparr>ctr_id = ''a/0'', ctr_name = ''c0'', ctr_cpuset = ''2'', ctr_memset = ''1''\<rparr>]\<rparr>,
      (sample_entry 1 ''b'')\<lparr>pa_containers := [\<lparr>ctr_id = ''b/0'', ctr_name = '''', ctr_cpuset = ''2,3'', ctr_memset = ''1''\<rparr>]\<rparr>,
      (sample_entry 1 ''c'')\<lparr>pa_containers := [\<lparr>ctr_id = ''c/0'', ctr_name = ''c0'', ctr_cpuset = ''3'', ctr_memset = ''1''\<rparr>]\<rparr>,
      (sample_entry 0 ''d'')\<lparr>pa_containers := [\<lparr>ctr_id = ''d/0'', ctr_name = ''c0'', ctr_cpuset = ''0'', ctr_memset = ''0''\<rparr>]\<rparr>]"

lemma updateByNumafastAware_writes_witness:
  "let w = sample_world [\<lparr>node_name = ''n1'', node_numa = numa_entries sample_numa, node_affinity = sample_entries\<rparr>]
         [] merge_pods merge_groups
   in updateByNumafastAware sample_cluster sample_agent w =
      (w\<lparr>wd_oenumas := [((''tcs'', ''podafi''), sample_oenuma
          [\<lparr>node_name = ''n1'', node_numa = numa_entries sample_numa, node_affinity = merge_result\<rparr>])]\<rparr>, Ok ())"
proof -
  let ?n = "\<lparr>node_name = ''n1'', node_numa = numa_entries sample_numa, node_affinity = sample_entries\<rparr>"
  let ?w = "sample_world [?n] [] merge_pods merge_groups"
  have h: "read_oenuma sample_cluster sample_agent ?w = Ok (sample_oenuma [?n])"
    "GetNumaNodes sample_cluster ?w = Ok sample_numa"
    "node_index (ag_nodeName sample_agent) (oe_nodes (sample_oenuma [?n])) = Some 0"
    "cl_list_pods sample_cluster ?w ''default'' NoSelector = (Some merge_pods, None)"
    "GetPodAffinityRelationship sample_cluster ?w merge_pods = Ok merge_groups"
    by code_simp+
  show ?thesis
    unfolding Let_def updateByNumafastAware_writes [OF h] by code_simp
qed

end
