(* ===== verification/PodCache.thy ===== *)
theory PodCache
  imports GoPrelude
begin

text \<open>
  \<open>pkg/typedef\<close>: the pod information the agent and the NRI plugin share, and the cache that
  holds it by UID. \<^verbatim>\<open>PodInfo\<close> is handled through pointers and its labels are a Go map, so
  both live in an explicit store; a list of the cache hands out deep copies. The operations run
  under the cache's lock, so one at a time.
\<close>

section \<open>The store\<close>

type_synonym labels = "(string, string) go_map"

text \<open>Labels are a reference to a map, or nil.\<close>

record PodInfo =
  pi_name :: string
  pi_uid :: string
  pi_ns :: string
  pi_labels :: "nat option"

record store =
  st_pods :: "PodInfo list"
  st_labels :: "labels list"

definition new_pod :: "PodInfo \<Rightarrow> store \<Rightarrow> nat \<times> store" where
  "new_pod p st = (length (st_pods st), st\<lparr>st_pods := st_pods st @ [p]\<rparr>)"

definition new_labels :: "labels \<Rightarrow> store \<Rightarrow> nat \<times> store" where
  "new_labels m st = (length (st_labels st), st\<lparr>st_labels := st_labels st @ [m]\<rparr>)"

definition write_label :: "nat \<Rightarrow> string \<Rightarrow> string \<Rightarrow> store \<Rightarrow> store" where
  "write_label l k v st = st\<lparr>st_labels := (st_labels st)[l := AList.update k v (st_labels st ! l)]\<rparr>"

definition read_labels :: "store \<Rightarrow> nat option \<Rightarrow> labels option" where
  "read_labels st l = map_option (\<lambda>a. st_labels st ! a) l"

section \<open>Pod information\<close>

definition GroupLabel :: string where
  "GroupLabel = ''rcgroup''"

text \<open>
  \<^verbatim>\<open>RawPod\<close> is the Kubernetes pod, by pointer. Its \<^verbatim>\<open>DeepCopy\<close> is that of the embedded
  \<^verbatim>\<open>ObjectMeta\<close>, so new information has labels of its own.
\<close>

record raw_pod =
  raw_name :: string
  raw_ns :: string
  raw_uid :: string
  raw_labels :: "nat option"

definition copy_labels :: "(labels \<Rightarrow> labels) \<Rightarrow> labels \<Rightarrow> labels" where
  "copy_labels order m = fold (\<lambda>(k, v). AList.update k v) (order m) []"

definition copy_label_ref ::
    "(labels \<Rightarrow> labels) \<Rightarrow> nat option \<Rightarrow> store \<Rightarrow> nat option \<times> store" where
  "copy_label_ref order l st =
     (case l of
        None \<Rightarrow> (None, st)
      | Some a \<Rightarrow> (let (b, st1) = new_labels (copy_labels order (st_labels st ! a)) st in (Some b, st1)))"

definition raw_id :: "raw_pod option \<Rightarrow> string" where
  "raw_id pod = (case pod of None \<Rightarrow> '''' | Some p \<Rightarrow> raw_uid p)"

definition NewPodInfo ::
    "(labels \<Rightarrow> labels) \<Rightarrow> raw_pod option \<Rightarrow> store \<Rightarrow> nat option \<times> store" where
  "NewPodInfo order pod st =
     (case pod of
        None \<Rightarrow> (None, st)
      | Some p \<Rightarrow>
          (let (l, st1) = copy_label_ref order (raw_labels p) st;
               (a, st2) = new_pod \<lparr>pi_name = raw_name p, pi_uid = raw_id pod, pi_ns = raw_ns p,
                                   pi_labels = l\<rparr> st1
           in (Some a, st2)))"

definition ExtractPodInfo ::
    "(labels \<Rightarrow> labels) \<Rightarrow> raw_pod option \<Rightarrow> store \<Rightarrow> nat option \<times> store" where
  "ExtractPodInfo order pod st =
     (case pod of None \<Rightarrow> (None, st) | Some _ \<Rightarrow> NewPodInfo order pod st)"

definition DeepCopy :: "(labels \<Rightarrow> labels) \<Rightarrow> nat option \<Rightarrow> store \<Rightarrow> nat option \<times> store" where
  "DeepCopy order pod st =
     (case pod of
        None \<Rightarrow> (None, st)
      | Some a \<Rightarrow>
          (let p = st_pods st ! a;
               (l, st1) = copy_label_ref order (pi_labels p) st;
               (b, st2) = new_pod (p\<lparr>pi_labels := l\<rparr>) st1
           in (Some b, st2)))"

definition ResCtrlGroup :: "store \<Rightarrow> PodInfo \<Rightarrow> string" where
  "ResCtrlGroup st pod =
     (case read_labels st (pi_labels pod) of
        None \<Rightarrow> ''''
      | Some m \<Rightarrow> (case map_of m GroupLabel of Some g \<Rightarrow> g | None \<Rightarrow> ''''))"

section \<open>The cache\<close>

text \<open>A map from UID to a pointer.\<close>

type_synonym pod_cache = "(string, nat) go_map"

definition podExist :: "string \<Rightarrow> pod_cache \<Rightarrow> bool" where
  "podExist uid c \<longleftrightarrow> map_of c uid \<noteq> None"

definition DelPod :: "string \<Rightarrow> pod_cache \<Rightarrow> pod_cache" where
  "DelPod uid c = (if \<not> podExist uid c then c else AList.delete uid c)"

definition UpdatePod :: "nat option \<Rightarrow> store \<Rightarrow> pod_cache \<Rightarrow> pod_cache" where
  "UpdatePod pod st c =
     (case pod of
        None \<Rightarrow> c
      | Some a \<Rightarrow>
          (if pi_uid (st_pods st ! a) = '''' then c
           else AList.update (pi_uid (st_pods st ! a)) a c))"

text \<open>The list: a new map of deep copies, made in the order the cache is ranged over.\<close>

type_synonym orders = "(labels \<Rightarrow> labels) \<times> (pod_cache \<Rightarrow> pod_cache)"

definition ListPod :: "orders \<Rightarrow> pod_cache \<Rightarrow> store \<Rightarrow> (string, nat option) go_map \<times> store" where
  "ListPod orders c st =
     fold (\<lambda>(uid, a) (res, st).
         let (b, st1) = DeepCopy (fst orders) (Some a) st in (AList.update uid b res, st1))
       (snd orders c) ([], st)"

section \<open>Lemmas on copies\<close>

lemma update_fold_map_of:
  "distinct (map fst xs) \<Longrightarrow>
   map_of (fold (\<lambda>(k, v). AList.update k v) xs m) = map_of m ++ map_of xs"
proof (induction xs arbitrary: m)
  case (Cons x xs)
  then have "fst x \<notin> dom (map_of xs)" by (auto simp: dom_map_of_conv_image_fst)
  with Cons show ?case
    by (auto simp: update_conv' split_beta map_add_def fun_eq_iff split: option.split)
qed simp

lemma map_of_order:
  assumes "range_order order" and "distinct (map fst m)"
  shows "map_of (order m) = map_of m"
  using assms by (metis map_of_inject_set range_order_keys range_order_set)

lemma copy_labels_same:
  assumes "range_order order" and "distinct (map fst m)"
  shows "map_of (copy_labels order m) = map_of m"
  using assms by (simp add: copy_labels_def update_fold_map_of range_order_keys map_of_order)

text \<open>A well-formed store: references are inside it and maps have distinct keys.\<close>

definition store_ok :: "store \<Rightarrow> bool" where
  "store_ok st \<longleftrightarrow> (\<forall>p \<in> set (st_pods st). \<forall>l. pi_labels p = Some l \<longrightarrow> l < length (st_labels st))
     \<and> (\<forall>m \<in> set (st_labels st). distinct (map fst m))"

text \<open>What a reader sees of a pod.\<close>

definition pod_view :: "store \<Rightarrow> nat \<Rightarrow> string \<times> string \<times> string \<times> (string \<rightharpoonup> string) option" where
  "pod_view st a =
     (let p = st_pods st ! a
      in (pi_name p, pi_uid p, pi_ns p, map_option map_of (read_labels st (pi_labels p))))"

definition extends :: "store \<Rightarrow> store \<Rightarrow> bool" where
  "extends st st' \<longleftrightarrow> (\<exists>ps ls. st_pods st' = st_pods st @ ps \<and> st_labels st' = st_labels st @ ls)"

lemma extends_refl [simp]: "extends st st"
  by (simp add: extends_def)

lemma extends_trans: "extends a b \<Longrightarrow> extends b c \<Longrightarrow> extends a c"
  by (auto simp: extends_def)

lemma extends_view:
  assumes "extends st st'" and "store_ok st" and "a < length (st_pods st)"
  shows "pod_view st' a = pod_view st a"
proof -
  obtain ps ls where e: "st_pods st' = st_pods st @ ps" "st_labels st' = st_labels st @ ls"
    using assms(1) by (auto simp: extends_def)
  have "l < length (st_labels st)" if "pi_labels (st_pods st ! a) = Some l" for l
    using assms(2,3) that by (auto simp: store_ok_def)
  then show ?thesis
    using assms(3) by (cases "pi_labels (st_pods st ! a)")
      (auto simp: pod_view_def read_labels_def e nth_append)
qed

lemma DeepCopy_copy:
  assumes "store_ok st" and "range_order order" and "a < length (st_pods st)"
  shows "\<exists>st'. DeepCopy order (Some a) st = (Some (length (st_pods st)), st') \<and> extends st st' \<and> store_ok st'
     \<and> length (st_pods st') = Suc (length (st_pods st))
     \<and> pod_view st' (length (st_pods st)) = pod_view st a
     \<and> (\<forall>l. pi_labels (st_pods st' ! length (st_pods st)) = Some l \<longrightarrow> length (st_labels st) \<le> l)"
proof (cases "pi_labels (st_pods st ! a)")
  case None
  then show ?thesis
    using assms by (auto simp: DeepCopy_def copy_label_ref_def new_pod_def extends_def store_ok_def
        pod_view_def read_labels_def Let_def)
next
  case (Some l)
  let ?m = "st_labels st ! l"
  have "l < length (st_labels st)"
    using assms(1,3) Some by (auto simp: store_ok_def)
  moreover from this have "distinct (map fst ?m)"
    using assms(1) nth_mem by (auto simp: store_ok_def)
  ultimately have l: "l < length (st_labels st)" "distinct (map fst ?m)" .
  have "distinct (map fst (copy_labels order ?m))"
  proof -
    have "distinct (map fst (fold (\<lambda>(k, v). AList.update k v) xs m))" if "distinct (map fst m)"
      for xs :: "(string \<times> string) list" and m
      using that by (induction xs arbitrary: m) (auto simp: distinct_update)
    then show ?thesis by (simp add: copy_labels_def)
  qed
  then show ?thesis
    using assms l Some copy_labels_same [OF assms(2) l(2)]
    by (auto simp: DeepCopy_def copy_label_ref_def new_pod_def new_labels_def extends_def store_ok_def
        pod_view_def read_labels_def nth_append less_Suc_eq Let_def)
qed

section \<open>The contract of the cache\<close>

text \<open>
  \<^verbatim>\<open>PodCacheInf\<close>: what a client of the cache may rely on. \<open>view\<close> is the content by UID; an
  update with a UID replaces the entry of that UID, one without is dropped, a deletion removes.
\<close>

datatype 'p cache_event = Update 'p | Delete string

locale PodCacheInf =
  fixes del :: "string \<Rightarrow> 'c \<Rightarrow> 'c"
    and update :: "'p \<Rightarrow> 'c \<Rightarrow> 'c"
    and view :: "'c \<Rightarrow> string \<Rightarrow> 'i option"
    and ok :: "'c \<Rightarrow> bool"
    and valid :: "'p \<Rightarrow> bool"
    and uid :: "'p \<Rightarrow> string"
    and info :: "'p \<Rightarrow> 'i"
  assumes ok_update: "ok c \<Longrightarrow> valid p \<Longrightarrow> ok (update p c)"
    and ok_del: "ok c \<Longrightarrow> ok (del u c)"
    and view_update: "ok c \<Longrightarrow> valid p \<Longrightarrow>
          view (update p c) = (if uid p = [] then view c else (view c)(uid p \<mapsto> info p))"
    and view_del: "ok c \<Longrightarrow> view (del u c) = (view c)(u := None)"
begin

definition step :: "'p cache_event \<Rightarrow> 'c \<Rightarrow> 'c" where
  "step e c = (case e of Update p \<Rightarrow> update p c | Delete u \<Rightarrow> del u c)"

definition concerns :: "string \<Rightarrow> 'p cache_event \<Rightarrow> bool" where
  "concerns u e \<longleftrightarrow> (case e of Update p \<Rightarrow> uid p = u \<and> u \<noteq> [] | Delete v \<Rightarrow> v = u)"

definition outcome :: "'p cache_event \<Rightarrow> 'i option" where
  "outcome e = (case e of Update p \<Rightarrow> Some (info p) | Delete _ \<Rightarrow> None)"

definition valid_event :: "'p cache_event \<Rightarrow> bool" where
  "valid_event e = (case e of Update p \<Rightarrow> valid p | Delete _ \<Rightarrow> True)"

lemma ok_step: "ok c \<Longrightarrow> valid_event e \<Longrightarrow> ok (step e c)"
  by (auto simp: step_def valid_event_def ok_update ok_del split: cache_event.splits)

lemma ok_run: "ok c \<Longrightarrow> \<forall>e \<in> set es. valid_event e \<Longrightarrow> ok (fold step es c)"
  by (induction es arbitrary: c) (auto simp: ok_step)

lemma view_step:
  "ok c \<Longrightarrow> valid_event e \<Longrightarrow>
   view (step e c) u = (if concerns u e then outcome e else view c u)"
  by (cases e) (auto simp: step_def valid_event_def view_update view_del concerns_def outcome_def)

text \<open>After any events an entry is what the last event about its UID made it.\<close>

lemma view_run:
  assumes "ok c" and "\<forall>e \<in> set es. valid_event e"
  shows "view (fold step es c) u =
    (case filter (concerns u) es of [] \<Rightarrow> view c u | ds \<Rightarrow> outcome (last ds))"
  using assms
proof (induction es rule: rev_induct)
  case (snoc e es)
  then have "ok (fold step es c)" "valid_event e" by (auto intro: ok_run)
  from view_step [OF this, of u] snoc show ?case
    by (auto split: list.splits)
qed simp

lemma view_update_self: "ok c \<Longrightarrow> valid p \<Longrightarrow> uid p \<noteq> [] \<Longrightarrow> view (update p c) (uid p) = Some (info p)"
  by (simp add: view_update)

end

section \<open>The cache keeps the contract\<close>

text \<open>
  A pod as it arrives, from the runtime or from a pod list: its labels are a map of its own.
  \<open>cache_pod\<close> is \<^verbatim>\<open>UpdatePod(&PodInfo{...})\<close> on it.
\<close>

record arrived_pod =
  ar_name :: string
  ar_uid :: string
  ar_ns :: string
  ar_labels :: "labels option"

definition cache_pod :: "arrived_pod \<Rightarrow> store \<times> pod_cache \<Rightarrow> store \<times> pod_cache" where
  "cache_pod p = (\<lambda>(st, c).
     let (l, st1) = (case ar_labels p of None \<Rightarrow> (None, st)
                     | Some m \<Rightarrow> (let (a, st1) = new_labels m st in (Some a, st1)));
         (a, st2) = new_pod \<lparr>pi_name = ar_name p, pi_uid = ar_uid p, pi_ns = ar_ns p, pi_labels = l\<rparr> st1
     in (st2, UpdatePod (Some a) st2 c))"

definition drop_pod :: "string \<Rightarrow> store \<times> pod_cache \<Rightarrow> store \<times> pod_cache" where
  "drop_pod uid = (\<lambda>(st, c). (st, DelPod uid c))"

definition cache_ok :: "store \<times> pod_cache \<Rightarrow> bool" where
  "cache_ok = (\<lambda>(st, c). store_ok st \<and> distinct (map fst c)
     \<and> (\<forall>(u, a) \<in> set c. a < length (st_pods st) \<and> u = pi_uid (st_pods st ! a) \<and> u \<noteq> ''''))"

definition cache_view ::
    "store \<times> pod_cache \<Rightarrow> string \<Rightarrow> (string \<times> string \<times> string \<times> (string \<rightharpoonup> string) option) option" where
  "cache_view = (\<lambda>(st, c) u. map_option (pod_view st) (map_of c u))"

definition arrived_ok :: "arrived_pod \<Rightarrow> bool" where
  "arrived_ok p \<longleftrightarrow> (\<forall>m. ar_labels p = Some m \<longrightarrow> distinct (map fst m))"

definition arrived_view ::
    "arrived_pod \<Rightarrow> string \<times> string \<times> string \<times> (string \<rightharpoonup> string) option" where
  "arrived_view p = (ar_name p, ar_uid p, ar_ns p, map_option map_of (ar_labels p))"

lemma DelPod_eq: "DelPod u c = AList.delete u c"
  by (auto simp: DelPod_def podExist_def map_of_eq_None_iff delete_id dom_map_of_conv_image_fst)

lemma cache_view_extend:
  assumes "cache_ok (st, c)" and "extends st st'"
  shows "cache_view (st', c) = cache_view (st, c)"
proof
  fix u
  have "pod_view st' a = pod_view st a" if "map_of c u = Some a" for a
    using assms that by (intro extends_view) (auto simp: cache_ok_def dest!: map_of_SomeD)
  then show "cache_view (st', c) u = cache_view (st, c) u"
    by (cases "map_of c u") (auto simp: cache_view_def)
qed

lemma cache_pod_shape:
  assumes "cache_ok (st, c)" and "arrived_ok p"
  shows "\<exists>st'. cache_pod p (st, c) =
      (st', if ar_uid p = '''' then c else AList.update (ar_uid p) (length (st_pods st)) c)
    \<and> extends st st' \<and> store_ok st' \<and> length (st_pods st') = Suc (length (st_pods st))
    \<and> pi_uid (st_pods st' ! length (st_pods st)) = ar_uid p
    \<and> pod_view st' (length (st_pods st)) = arrived_view p"
  using assms
  by (cases "ar_labels p")
    (auto simp: cache_pod_def new_pod_def new_labels_def UpdatePod_def extends_def store_ok_def cache_ok_def
      arrived_ok_def arrived_view_def pod_view_def read_labels_def Let_def less_Suc_eq nth_append)

interpretation pod_cache: PodCacheInf drop_pod cache_pod cache_view cache_ok arrived_ok ar_uid arrived_view
proof unfold_locales
  fix c :: "store \<times> pod_cache" and p :: arrived_pod and u :: string
  assume ok: "cache_ok c"
  obtain st d where c: "c = (st, d)" by fastforce
  show "cache_ok (drop_pod u c)"
    using ok by (auto simp: c drop_pod_def DelPod_eq cache_ok_def distinct_delete) (auto simp: AList.delete_eq)
  show "cache_view (drop_pod u c) = (cache_view c)(u := None)"
    by (auto simp: c drop_pod_def DelPod_eq cache_view_def delete_conv' fun_eq_iff)
  assume valid: "arrived_ok p"
  obtain st' where new: "cache_pod p c =
      (st', if ar_uid p = '''' then d else AList.update (ar_uid p) (length (st_pods st)) d)"
    "extends st st'" "store_ok st'" "length (st_pods st') = Suc (length (st_pods st))"
    "pi_uid (st_pods st' ! length (st_pods st)) = ar_uid p"
    "pod_view st' (length (st_pods st)) = arrived_view p"
    using cache_pod_shape ok valid unfolding c by blast
  have old: "st_pods st' ! a = st_pods st ! a" if "a < length (st_pods st)" for a
    using new(2) that by (auto simp: extends_def nth_append)
  have "\<forall>(v, a) \<in> set (AList.update (ar_uid p) (length (st_pods st)) d).
      (v, a) \<in> set d \<or> (v, a) = (ar_uid p, length (st_pods st))"
    by (induction d) auto
  then show "cache_ok (cache_pod p c)"
    using ok new(1,3,4,5) old by (fastforce simp: c cache_ok_def distinct_update)
  have "cache_view (st', d) = cache_view (st, d)"
    using cache_view_extend ok new(2) unfolding c by blast
  then show "cache_view (cache_pod p c) =
      (if ar_uid p = [] then cache_view c else (cache_view c)(ar_uid p \<mapsto> arrived_view p))"
    using new(1,6) by (auto simp: c cache_view_def update_conv' fun_eq_iff)
qed

lemma cache_view_empty: "cache_ok c \<Longrightarrow> cache_view c '''' = None"
proof -
  assume ok: "cache_ok c"
  obtain st d where c: "c = (st, d)" by fastforce
  have "map_of d '''' = None"
  proof (cases "map_of d ''''")
    case (Some a)
    then have "('''', a) \<in> set d" by (rule map_of_SomeD)
    with ok show ?thesis unfolding c cache_ok_def by blast
  qed
  then show ?thesis by (simp add: c cache_view_def)
qed

section \<open>The list\<close>

text \<open>The reference of a listed pod's labels, and what the list shows.\<close>

definition listed_labels :: "store \<Rightarrow> (string, nat option) go_map \<Rightarrow> string \<Rightarrow> nat option" where
  "listed_labels st res uid =
     (case map_of res uid of Some (Some b) \<Rightarrow> pi_labels (st_pods st ! b) | _ \<Rightarrow> None)"

definition list_view ::
    "store \<Rightarrow> (string, nat option) go_map \<Rightarrow> string \<Rightarrow>
     (string \<times> string \<times> string \<times> (string \<rightharpoonup> string) option) option" where
  "list_view st res uid =
     (case map_of res uid of Some (Some b) \<Rightarrow> Some (pod_view st b) | _ \<Rightarrow> None)"

text \<open>Every entry of a list so far is a copy made since the store \<open>st0\<close>.\<close>

definition fresh_entry :: "store \<Rightarrow> store \<Rightarrow> (string, nat) go_map \<Rightarrow> string \<Rightarrow> nat option \<Rightarrow> bool" where
  "fresh_entry st0 st c u v \<longleftrightarrow> (\<exists>a b. map_of c u = Some a \<and> v = Some b \<and> b < length (st_pods st)
     \<and> pod_view st b = pod_view st0 a
     \<and> (\<forall>l. pi_labels (st_pods st ! b) = Some l \<longrightarrow> length (st_labels st0) \<le> l))"

lemma fresh_entry_extends:
  assumes "fresh_entry st0 st c u v" and "extends st st'" and "store_ok st"
  shows "fresh_entry st0 st' c u v"
proof -
  from assms(1) obtain a b where ab: "map_of c u = Some a" "v = Some b" "b < length (st_pods st)"
    "pod_view st b = pod_view st0 a"
    "\<forall>l. pi_labels (st_pods st ! b) = Some l \<longrightarrow> length (st_labels st0) \<le> l"
    by (auto simp: fresh_entry_def)
  moreover have "pod_view st' b = pod_view st b" by (rule extends_view [OF assms(2,3) ab(3)])
  moreover have "st_pods st' ! b = st_pods st ! b" "b < length (st_pods st')"
    using assms(2) ab(3) by (auto simp: extends_def nth_append)
  ultimately show ?thesis by (auto simp: fresh_entry_def)
qed

lemma list_fold:
  assumes "cache_ok (st0, c)" and "range_order order"
    and "extends st0 st" and "store_ok st" and "set xs \<subseteq> set c" and "distinct (map fst xs)"
    and "\<forall>(u, v) \<in> set res. fresh_entry st0 st c u v"
  shows "\<exists>res' st'. fold (\<lambda>(uid, a) (res, st).
         let (b, st1) = DeepCopy order (Some a) st in (AList.update uid b res, st1)) xs (res, st) = (res', st')
     \<and> extends st0 st' \<and> store_ok st' \<and> (\<forall>(u, v) \<in> set res'. fresh_entry st0 st' c u v)
     \<and> fst ` set res' = fst ` set res \<union> fst ` set xs"
  using assms(3-7)
proof (induction xs arbitrary: res st)
  case Nil
  then show ?case by auto
next
  case (Cons x xs)
  obtain u a where x: "x = (u, a)" by fastforce
  have d: "distinct (map fst c)" "(u, a) \<in> set c" "a < length (st_pods st0)" "store_ok st0"
    using assms(1) Cons.prems(3) x by (auto simp: cache_ok_def)
  have a: "a < length (st_pods st)" using d(3) Cons.prems(1) by (auto simp: extends_def)
  obtain st1 where copy: "DeepCopy order (Some a) st = (Some (length (st_pods st)), st1)"
    "extends st st1" "store_ok st1" "length (st_pods st1) = Suc (length (st_pods st))"
    "pod_view st1 (length (st_pods st)) = pod_view st a"
    "\<forall>l. pi_labels (st_pods st1 ! length (st_pods st)) = Some l \<longrightarrow> length (st_labels st) \<le> l"
    using DeepCopy_copy [OF Cons.prems(2) assms(2) a] by blast
  have "pod_view st a = pod_view st0 a" by (rule extends_view [OF Cons.prems(1) d(4,3)])
  moreover have "length (st_labels st0) \<le> length (st_labels st)"
    using Cons.prems(1) by (auto simp: extends_def)
  ultimately have new: "fresh_entry st0 st1 c u (Some (length (st_pods st)))"
    using copy(4-6) d(1,2) by (fastforce simp: fresh_entry_def intro: le_trans)
  let ?res = "AList.update u (Some (length (st_pods st))) res"
  have "\<forall>(v, b) \<in> set ?res. (v, b) \<in> set res \<or> (v, b) = (u, Some (length (st_pods st)))"
    by (induction res) auto
  then have "\<forall>(v, b) \<in> set ?res. fresh_entry st0 st1 c v b"
    using Cons.prems(5) new fresh_entry_extends [OF _ copy(2) Cons.prems(2)] by fastforce
  then obtain res' st' where IH: "fold (\<lambda>(uid, a) (res, st).
         let (b, st1) = DeepCopy order (Some a) st in (AList.update uid b res, st1)) xs (?res, st1) = (res', st')"
     "extends st0 st'" "store_ok st'" "\<forall>(u, v) \<in> set res'. fresh_entry st0 st' c u v"
     "fst ` set res' = fst ` set ?res \<union> fst ` set xs"
    using Cons.IH [of st1 ?res] Cons.prems extends_trans [OF Cons.prems(1) copy(2)] copy(3) by auto
  then show ?case by (auto simp: x copy(1) dom_update)
qed

lemma ListPod_copies:
  assumes "cache_ok (st, c)" and "range_order o1" and "range_order o2"
  shows "\<exists>res st'. ListPod (o1, o2) c st = (res, st') \<and> extends st st' \<and> store_ok st'
     \<and> (\<forall>u v. map_of res u = Some v \<longrightarrow> fresh_entry st st' c u v)
     \<and> fst ` set res = fst ` set c"
proof -
  have "set (o2 c) \<subseteq> set c" "distinct (map fst (o2 c))" "store_ok st"
    using assms range_order_set range_order_keys by (auto simp: cache_ok_def)
  with list_fold [OF assms(1,2) extends_refl, of "o2 c" "[]"] range_order_set [OF assms(3), of c]
  show ?thesis by (fastforce simp: ListPod_def dest: map_of_SomeD)
qed

text \<open>
  C19: listing the cache shows every cached pod once, under its UID and with its content, in
  whatever order the maps are ranged over, and leaves the cache as it was; and the list is a deep
  copy: writing to the labels of a listed pod never changes what the cache holds.
\<close>

theorem ListPod_isolated:
  assumes "cache_ok (st, c)" and "range_order o1" and "range_order o2"
    and "ListPod (o1, o2) c st = (res, st')"
  shows "list_view st' res = cache_view (st, c)
    \<and> cache_view (st', c) = cache_view (st, c) \<and> cache_ok (st', c)
    \<and> (listed_labels st' res u = Some l \<longrightarrow> cache_view (write_label l k v st', c) = cache_view (st, c))"
proof -
  have all: "extends st st'" "store_ok st'"
    "\<And>u v. map_of res u = Some v \<Longrightarrow> fresh_entry st st' c u v" "fst ` set res = fst ` set c"
    using ListPod_copies [OF assms(1-3)] assms(4) by auto
  have old: "st_pods st' ! a = st_pods st ! a" "a < length (st_pods st')" if "a < length (st_pods st)" for a
    using all(1) that by (auto simp: extends_def nth_append)
  have "list_view st' res w = cache_view (st, c) w" for w
  proof (cases "map_of res w")
    case None
    then have "map_of c w = None" using all(4) by (simp add: map_of_eq_None_iff)
    with None show ?thesis by (simp add: list_view_def cache_view_def)
  next
    case (Some v)
    with all(3) [OF Some] show ?thesis by (auto simp: list_view_def cache_view_def fresh_entry_def)
  qed
  moreover have same: "cache_view (st', c) = cache_view (st, c)"
    by (rule cache_view_extend [OF assms(1) all(1)])
  moreover have "cache_ok (st', c)"
    using assms(1) all(2) old by (auto simp: cache_ok_def)
  moreover have "cache_view (write_label l k v st', c) = cache_view (st, c)"
    if "listed_labels st' res u = Some l"
  proof
    fix w
    have l: "length (st_labels st) \<le> l"
      using that all(3) by (auto simp: listed_labels_def fresh_entry_def split: option.splits)
    have "pod_view (write_label l k v st') a = pod_view st' a" if "map_of c w = Some a" for a
    proof -
      have "a < length (st_pods st)" using assms(1) that by (auto simp: cache_ok_def dest!: map_of_SomeD)
      then have "m < length (st_labels st)" if "pi_labels (st_pods st' ! a) = Some m" for m
        using assms(1) old(1) that by (auto simp: cache_ok_def store_ok_def)
      then show ?thesis
        using l by (cases "pi_labels (st_pods st' ! a)") (force simp: pod_view_def write_label_def read_labels_def)+
    qed
    then have "cache_view (write_label l k v st', c) w = cache_view (st', c) w"
      by (cases "map_of c w") (auto simp: cache_view_def)
    with same show "cache_view (write_label l k v st', c) w = cache_view (st, c) w" by simp
  qed
  ultimately show ?thesis by auto
qed

lemma ListPod_isolated_witness:
  "let st = \<lparr>st_pods = [\<lparr>pi_name = ''p'', pi_uid = ''u1'', pi_ns = ''ns'', pi_labels = Some 0\<rparr>],
             st_labels = [[(''rcgroup'', ''gold'')]]\<rparr>
   in listed_labels (snd (ListPod (id, id) [(''u1'', 0)] st)) (fst (ListPod (id, id) [(''u1'', 0)] st)) ''u1'' = Some 1
    \<and> cache_view (write_label 1 ''rcgroup'' ''evil'' (snd (ListPod (id, id) [(''u1'', 0)] st)), [(''u1'', 0)]) =
      cache_view (st, [(''u1'', 0)])"
proof -
  let ?st = "\<lparr>st_pods = [\<lparr>pi_name = ''p'', pi_uid = ''u1'', pi_ns = ''ns'', pi_labels = Some 0\<rparr>],
             st_labels = [[(''rcgroup'', ''gold'')]]\<rparr>"
  let ?c = "[(''u1'', 0 :: nat)]"
  let ?l = "ListPod (id, id) ?c ?st"
  have ok: "cache_ok (?st, ?c)" by (auto simp: cache_ok_def store_ok_def)
  have run: "ListPod (id, id) ?c ?st = (fst ?l, snd ?l)" by simp
  have lab: "listed_labels (snd ?l) (fst ?l) ''u1'' = Some 1" by code_simp
  from ListPod_isolated [OF ok range_order_id range_order_id run, of "''u1''" 1 "''rcgroup''" "''evil''"]
  show ?thesis unfolding Let_def using lab by blast
qed

end
