(* ===== verification/ResourceManager.thy ===== *)
theory ResourceManager
  imports Cluster PodCache
begin

text \<open>
  \<open>pkg/policy/config.go\<close>, \<open>pkg/resmgr/nri.go\<close> and \<open>pkg/resmgr/resmgr.go\<close>: the configuration the
  agent hands over, the NRI plugin with its stub (the connection to the container runtime) and
  its pod events, and the resource manager that applies a configuration through the plugin.
\<close>

section \<open>The configuration\<close>

text \<open>\<^verbatim>\<open>needUpdate\<close> is a slice that may be nil.\<close>

record policy_config =
  pc_needUpdate :: "container_update list option"

definition Push :: "container_update \<Rightarrow> policy_config \<Rightarrow> policy_config" where
  "Push u c =
     (let us = (case pc_needUpdate c of None \<Rightarrow> [] | Some us \<Rightarrow> us)
      in c\<lparr>pc_needUpdate := Some (us @ [u])\<rparr>)"

definition GetUpdate :: "policy_config \<Rightarrow> container_update list" where
  "GetUpdate c = (case pc_needUpdate c of None \<Rightarrow> [] | Some us \<Rightarrow> us)"

definition Validate :: "policy_config \<Rightarrow> unit go" where
  "Validate c = Ok ()"

section \<open>The NRI plugin\<close>

text \<open>Of the plugin's fields: whether the stub has been created. A nil plugin is \<open>None\<close>.\<close>

record nri_plugin =
  np_stub :: bool

definition createStub :: "('w, 'u) cluster \<Rightarrow> nri_plugin \<Rightarrow> 'w \<Rightarrow> nri_plugin \<times> 'w \<times> unit go" where
  "createStub cl p w =
     (let (w1, r) = cl_stub_new cl w
      in (p\<lparr>np_stub := go_is_ok r\<rparr>, w1, go_wrap (\<lambda>e. ''failed to create NRI plugin stub: '' @ e) r))"

definition nri_start ::
    "('w, 'u) cluster \<Rightarrow> nri_plugin option \<Rightarrow> 'w \<Rightarrow> nri_plugin option \<times> 'w \<times> unit go" where
  "nri_start cl p w =
     (case p of
        None \<Rightarrow> (None, w, Ok ())
      | Some p \<Rightarrow>
          (case createStub cl p w of
             (p1, w1, Ok _) \<Rightarrow>
               (let (w2, r) = cl_stub_start cl w1
                in (Some p1, w2, go_wrap (\<lambda>e. ''failed to start NRI plugin: '' @ e) r))
           | (p1, w1, r) \<Rightarrow> (Some p1, w1, r)))"

definition nri_stop :: "('w, 'u) cluster \<Rightarrow> nri_plugin option \<Rightarrow> 'w \<Rightarrow> 'w go" where
  "nri_stop cl p w =
     (case p of
        None \<Rightarrow> Ok w
      | Some p \<Rightarrow> if np_stub p then Ok (cl_stub_stop cl w) else Panic NilDereference)"

definition onClose :: "unit go" where
  "onClose = Panic ProcessExit"

definition Configure :: "string list" where
  "Configure = [''RunPodSandbox'', ''StopPodSandbox'']"

text \<open>
  The pod events, under the plugin's lock. A pod without the group label is not looked at.
\<close>

record pod_sandbox =
  sb_name :: string
  sb_uid :: string
  sb_ns :: string
  sb_labels :: "labels option"

definition sandbox_label :: "pod_sandbox \<Rightarrow> string option" where
  "sandbox_label p = (case sb_labels p of None \<Rightarrow> None | Some m \<Rightarrow> map_of m GroupLabel)"

definition sandbox_pod :: "pod_sandbox \<Rightarrow> arrived_pod" where
  "sandbox_pod p = \<lparr>ar_name = sb_name p, ar_uid = sb_uid p, ar_ns = sb_ns p, ar_labels = sb_labels p\<rparr>"

definition RunPodSandbox :: "pod_sandbox \<Rightarrow> store \<times> pod_cache \<Rightarrow> store \<times> pod_cache" where
  "RunPodSandbox p c = (if sandbox_label p = None then c else cache_pod (sandbox_pod p) c)"

definition StopPodSandbox :: "pod_sandbox \<Rightarrow> store \<times> pod_cache \<Rightarrow> store \<times> pod_cache" where
  "StopPodSandbox p c = drop_pod (sb_uid p) c"

text \<open>\<open>initPodCache\<close> of the agent: the labelled pods that run already.\<close>

definition k8s_arrived :: "k8s_pod \<Rightarrow> arrived_pod" where
  "k8s_arrived p = \<lparr>ar_name = kp_name p, ar_uid = kp_uid p, ar_ns = kp_ns p, ar_labels = kp_labels p\<rparr>"

definition initPodCache ::
    "('w, 'u) cluster \<Rightarrow> 'w \<Rightarrow> store \<times> pod_cache \<Rightarrow> (store \<times> pod_cache) \<times> unit go" where
  "initPodCache cl w c =
     (case cl_list_pods cl w '''' (LabelSelector ''rcgroup'') of
        (_, Some e) \<Rightarrow> (c, Err e)
      | (None, None) \<Rightarrow> (c, Panic NilDereference)
      | (Some pods, None) \<Rightarrow> (fold (\<lambda>p. cache_pod (k8s_arrived p)) pods c, Ok ()))"

section \<open>The resource manager\<close>

record resmgr =
  rm_running :: bool
  rm_nri :: "nri_plugin option"

definition NewResourceManager :: resmgr where
  "NewResourceManager = \<lparr>rm_running = False, rm_nri = Some \<lparr>np_stub = False\<rparr>\<rparr>"

definition rm_start :: "('w, 'u) cluster \<Rightarrow> resmgr \<Rightarrow> 'w \<Rightarrow> resmgr \<times> 'w \<times> unit go" where
  "rm_start cl m w = (let (p, w1, r) = nri_start cl (rm_nri m) w in (m\<lparr>rm_nri := p\<rparr>, w1, r))"

text \<open>
  Both callers of \<open>rm_start\<close> end the process when it fails.
\<close>

definition rm_ensure_running :: "('w, 'u) cluster \<Rightarrow> resmgr \<Rightarrow> 'w \<Rightarrow> resmgr \<times> 'w \<times> unit go" where
  "rm_ensure_running cl m w =
     (if rm_running m then (m, w, Ok ())
      else (case rm_start cl m w of
              (m1, w1, Ok _) \<Rightarrow> (m1\<lparr>rm_running := True\<rparr>, w1, Ok ())
            | (m1, w1, Err _) \<Rightarrow> (m1, w1, Panic ProcessExit)
            | (m1, w1, Panic p) \<Rightarrow> (m1, w1, Panic p)))"

text \<open>The part of \<^verbatim>\<open>Start\<close> before it enters the agent's loop.\<close>

definition resmgr_Start :: "('w, 'u) cluster \<Rightarrow> resmgr \<Rightarrow> 'w \<Rightarrow> resmgr \<times> 'w \<times> unit go" where
  "resmgr_Start cl m w = rm_ensure_running cl m w"

text \<open>The updates that the runtime reports as failed are dropped.\<close>

definition reconfigCrd :: "('w, 'u) cluster \<Rightarrow> resmgr \<Rightarrow> policy_config \<Rightarrow> 'w \<Rightarrow> 'w \<times> unit go" where
  "reconfigCrd cl m cfg w =
     (case Validate cfg of
        Err _ \<Rightarrow> (w, Err ''in validate crd configuration'')
      | Panic p \<Rightarrow> (w, Panic p)
      | Ok _ \<Rightarrow>
          (case rm_nri m of
             None \<Rightarrow> (w, Panic NilDereference)
           | Some p \<Rightarrow>
               if \<not> np_stub p then (w, Panic NilDereference)
               else (let (w1, r) = cl_update_containers cl w (GetUpdate cfg)
                     in (w1, go_map (\<lambda>_. ()) (go_wrap (\<lambda>e.
                          ''failed to adjust numa node by nriPlugin, '' @ e) r)))))"

text \<open>What the agent's callback may be given.\<close>

datatype new_config = NilConfig | PolicyConfig policy_config | OtherConfig

definition updateConfig ::
    "('w, 'u) cluster \<Rightarrow> resmgr \<Rightarrow> new_config \<Rightarrow> 'w \<Rightarrow> resmgr \<times> 'w \<times> unit go" where
  "updateConfig cl m cfg w =
     (case cfg of
        PolicyConfig c \<Rightarrow>
          (case rm_ensure_running cl m w of
             (m1, w1, Ok _) \<Rightarrow> (let (w2, r) = reconfigCrd cl m1 c w1 in (m1, w2, r))
           | (m1, w1, r) \<Rightarrow> (m1, w1, r))
      | _ \<Rightarrow> (m, w, Err ''can not run without effective configuration...''))"

section \<open>Lemmas\<close>

definition resmgr_ok :: "resmgr \<Rightarrow> bool" where
  "resmgr_ok m \<longleftrightarrow> (rm_running m \<longrightarrow> (\<exists>p. rm_nri m = Some p \<and> np_stub p)) \<and> rm_nri m \<noteq> None"

lemma resmgr_ok_new: "resmgr_ok NewResourceManager"
  by (simp add: resmgr_ok_def NewResourceManager_def)

lemma rm_ensure_running_ok:
  assumes "resmgr_ok m" and "rm_ensure_running cl m w = (m1, w1, r)"
  shows "resmgr_ok m1 \<and> (r = Ok () \<longrightarrow> rm_running m1)"
  using assms
  by (auto simp: rm_ensure_running_def rm_start_def nri_start_def createStub_def resmgr_ok_def go_simps
      split: if_split_asm option.split_asm go.split_asm prod.split_asm)

lemma reconfigCrd_running:
  assumes "resmgr_ok m" and "rm_running m"
  shows "reconfigCrd cl m cfg w =
    (fst (cl_update_containers cl w (GetUpdate cfg)),
     go_map (\<lambda>_. ()) (go_wrap (\<lambda>e. ''failed to adjust numa node by nriPlugin, '' @ e)
       (snd (cl_update_containers cl w (GetUpdate cfg)))))"
  using assms by (auto simp: reconfigCrd_def Validate_def resmgr_ok_def split: prod.split
      simp del: append.simps)

lemma GetUpdate_Push [simp]: "GetUpdate (Push u c) = GetUpdate c @ [u]"
  by (simp add: GetUpdate_def Push_def split: option.split)

lemma GetUpdate_fold_Push: "GetUpdate (fold Push us c) = GetUpdate c @ us"
  by (induction us arbitrary: c) auto

end
