(* ===== verification/CrdPolicy.thy ===== *)
theory CrdPolicy
  imports ResourceManager
begin

text \<open>
  The agent's reactions to resources and pods: \<open>updateByCrdConfig\<close> turns the Oenuma resource
  into container updates and hands them to the resource manager, \<open>setupConfigCrd\<close> puts the
  agent's node into the resource at start, \<open>deleteObsoletePodsInCr\<close> removes a deleted pod from
  it (\<open>pkg/agent/agent.go\<close>).
\<close>

section \<open>From the resource to container updates\<close>

text \<open>The object of a watch event, by its dynamic type.\<close>

datatype 'u event_object = NoObject | Unstruct 'u | PodObject k8s_pod | OtherObject string

fun type_name :: "'u event_object \<Rightarrow> string" where
  "type_name NoObject = ''<nil>''"
| "type_name (Unstruct _) = ''*unstructured.Unstructured''"
| "type_name (PodObject _) = ''*v1.Pod''"
| "type_name (OtherObject t) = t"

text \<open>A container ID is the last segment of the one in the resource.\<close>

definition last_segment :: "string \<Rightarrow> string go" where
  "last_segment s =
     (let sp = strings_Split s (CHR ''/'') in go_nth sp (int (length sp) - 1))"

definition push_container :: "container \<Rightarrow> policy_config \<Rightarrow> policy_config go" where
  "push_container c cfg =
     go_bind (last_segment (ctr_id c)) (\<lambda>i.
       Ok (Push \<lparr>cu_id = i, cu_cpus = ctr_cpuset c, cu_mems = ctr_memset c\<rparr> cfg))"

definition push_entry ::
    "('w, 'u) cluster \<Rightarrow> 'w \<Rightarrow> pod_affinity \<Rightarrow> policy_config \<Rightarrow> policy_config go" where
  "push_entry cl w pa cfg =
     (case cl_get_pod cl w (pa_ns pa) (pa_pod pa) of
        Panic p \<Rightarrow> Panic p
      | Err _ \<Rightarrow> Ok cfg
      | Ok _ \<Rightarrow> go_for push_container (pa_containers pa) cfg)"

definition createCrdConfigPolicy ::
    "('w, 'u) cluster \<Rightarrow> agent_cfg \<Rightarrow> 'w \<Rightarrow> oenuma \<Rightarrow> policy_config go" where
  "createCrdConfigPolicy cl a w oe =
     go_for (\<lambda>n cfg. if node_name n \<noteq> ag_nodeName a then Ok cfg
                     else go_for (push_entry cl w) (node_affinity n) cfg)
       (oe_nodes oe) \<lparr>pc_needUpdate = None\<rparr>"

text \<open>\<^verbatim>\<open>notifyFn\<close> is the resource manager's \<open>updateConfig\<close>.\<close>

definition updateByCrdConfig ::
    "('w, 'u) cluster \<Rightarrow> agent_cfg \<Rightarrow> resmgr \<Rightarrow> 'u event_object \<Rightarrow> 'w \<Rightarrow> resmgr \<times> 'w \<times> unit go" where
  "updateByCrdConfig cl a m obj w =
     (case obj of
        NoObject \<Rightarrow> (m, w, Ok ())
      | Unstruct un \<Rightarrow>
          (case cl_to_oenuma cl un of
             Panic p \<Rightarrow> (m, w, Panic p)
           | Err _ \<Rightarrow> (m, w, Err ''failed to convert unstructured obj.'')
           | Ok oe \<Rightarrow>
               if strings_ToUpper (spec_update (oe_spec oe)) \<noteq> strings_ToUpper ''enable'' then (m, w, Ok ())
               else (case createCrdConfigPolicy cl a w oe of
                       Panic p \<Rightarrow> (m, w, Panic p)
                     | Err _ \<Rightarrow> (m, w, Err ''failer to create crd config policy.'')
                     | Ok cfg \<Rightarrow> updateConfig cl m (PolicyConfig cfg) w))
      | _ \<Rightarrow> (m, w, Err (''can not handle object '' @ type_name obj @ '', ignoring it.'')))"

section \<open>The agent's node in the resource\<close>

text \<open>The search without \<^verbatim>\<open>break\<close>: the last node with the agent's name.\<close>

definition last_node_index :: "string \<Rightarrow> node list \<Rightarrow> nat option" where
  "last_node_index name ns =
     fold (\<lambda>i found. if node_name (ns ! i) = name then Some i else found) [0..<length ns] None"

definition place_node :: "string \<Rightarrow> pb_numa_info \<Rightarrow> oenuma \<Rightarrow> oenuma" where
  "place_node name info oe =
     (case last_node_index name (oe_nodes oe) of
        None \<Rightarrow> update_spec_nodes (\<lambda>ns. ns @
          [\<lparr>node_name = name, node_numa = numa_entries info, node_affinity = []\<rparr>]) oe
      | Some i \<Rightarrow> update_spec_nodes (\<lambda>ns. ns[i :=
          (ns ! i)\<lparr>node_affinity := [], node_numa := numa_entries info\<rparr>]) oe)"

definition setupConfigCrd ::
    "('w, 'u) cluster \<Rightarrow> agent_cfg \<Rightarrow> 'w \<Rightarrow> 'w \<times> unit go" where
  "setupConfigCrd cl a w =
     (case CreateConfigCrd cl w (ag_crdname a) (ag_namespace a) of
        (w1, Ok _) \<Rightarrow>
          (case go_bind (read_oenuma cl a w1) (\<lambda>oe.
             go_bind (GetNumaNodes cl w1) (\<lambda>info. Ok (place_node (ag_nodeName a) info oe)))
           of Ok oe \<Rightarrow> write_oenuma cl a w1 oe
            | Err e \<Rightarrow> (w1, Err e)
            | Panic p \<Rightarrow> (w1, Panic p))
      | (w1, r) \<Rightarrow> (w1, r))"

section \<open>Deleted pods\<close>

text \<open>
  The filter in place: element \<open>i\<close> is read from the slice as it is by then, elements kept are
  written to the front.
\<close>

definition keep_step ::
    "k8s_pod \<Rightarrow> nat \<Rightarrow> pod_affinity list \<times> nat \<Rightarrow> pod_affinity list \<times> nat" where
  "keep_step pod i = (\<lambda>(arr, j).
     let pa = arr ! i
     in if pa_pod pa \<noteq> kp_name pod \<or> pa_ns pa \<noteq> kp_ns pod then (arr[j := pa], j + 1) else (arr, j))"

definition remove_pod :: "k8s_pod \<Rightarrow> pod_affinity list \<Rightarrow> pod_affinity list" where
  "remove_pod pod pas =
     (let (arr, j) = fold (keep_step pod) [0..<length pas] (pas, 0) in take j arr)"

definition deleteObsoletePodsInCr ::
    "('w, 'u) cluster \<Rightarrow> agent_cfg \<Rightarrow> 'u event_object \<Rightarrow> 'w \<Rightarrow> 'w \<times> unit go" where
  "deleteObsoletePodsInCr cl a obj w =
     (case obj of
        PodObject pod \<Rightarrow>
          (case read_oenuma cl a w of
             Panic p \<Rightarrow> (w, Panic p)
           | Err e \<Rightarrow> (w, Err e)
           | Ok oe \<Rightarrow>
               (case node_index (ag_nodeName a) (oe_nodes oe) of
                  None \<Rightarrow> (w, Ok ())
                | Some i \<Rightarrow> write_oenuma cl a w (update_spec_nodes (\<lambda>ns. ns[i :=
                    (ns ! i)\<lparr>node_affinity := remove_pod pod (node_affinity (ns ! i))\<rparr>]) oe)))
      | _ \<Rightarrow> (w, Err ''can not translate to pod''))"

section \<open>Lemmas\<close>

lemma last_segment_eq: "last_segment s = Ok (last (strings_Split s (CHR ''/'')))"
proof -
  define sp where "sp = strings_Split s (CHR ''/'')"
  have "sp \<noteq> []" by (simp add: sp_def strings_Split_not_Nil)
  then have "int (length sp) - 1 = int (length sp - 1)" "length sp - 1 < length sp"
    by (cases sp; simp)+
  then have "go_nth sp (int (length sp) - 1) = Ok (last sp)"
    using \<open>sp \<noteq> []\<close> by (simp only: go_nth_nat if_True) (simp add: last_conv_nth)
  then show ?thesis by (simp add: last_segment_def sp_def)
qed

definition container_of :: "container \<Rightarrow> container_update" where
  "container_of c = \<lparr>cu_id = last (strings_Split (ctr_id c) (CHR ''/'')),
     cu_cpus = ctr_cpuset c, cu_mems = ctr_memset c\<rparr>"

lemma push_containers: "go_for push_container cs cfg = Ok (fold Push (map container_of cs) cfg)"
  by (induction cs arbitrary: cfg) (auto simp: push_container_def last_segment_eq container_of_def)

text \<open>The updates of an entry, of a node and of the resource.\<close>

definition entry_updates :: "('w, 'u) cluster \<Rightarrow> 'w \<Rightarrow> pod_affinity \<Rightarrow> container_update list" where
  "entry_updates cl w pa =
     (if go_is_ok (cl_get_pod cl w (pa_ns pa) (pa_pod pa)) then map container_of (pa_containers pa) else [])"

definition node_updates :: "('w, 'u) cluster \<Rightarrow> agent_cfg \<Rightarrow> 'w \<Rightarrow> oenuma \<Rightarrow> container_update list" where
  "node_updates cl a w oe = concat (map (entry_updates cl w)
     (concat (map node_affinity (filter (\<lambda>n. node_name n = ag_nodeName a) (oe_nodes oe)))))"

lemma push_entries:
  assumes "\<forall>ns name. \<not> go_is_panic (cl_get_pod cl w ns name)"
  shows "go_for (push_entry cl w) pas cfg = Ok (fold Push (concat (map (entry_updates cl w) pas)) cfg)"
proof (induction pas arbitrary: cfg)
  case (Cons pa pas)
  have "push_entry cl w pa cfg = Ok (fold Push (entry_updates cl w pa) cfg)"
    using assms [rule_format, of "pa_ns pa" "pa_pod pa"]
    by (cases "cl_get_pod cl w (pa_ns pa) (pa_pod pa)")
      (simp_all add: push_entry_def push_containers entry_updates_def)
  with Cons show ?case by simp
qed simp

lemma createCrdConfigPolicy_updates:
  assumes "\<forall>ns name. \<not> go_is_panic (cl_get_pod cl w ns name)"
  shows "\<exists>cfg. createCrdConfigPolicy cl a w oe = Ok cfg \<and> GetUpdate cfg = node_updates cl a w oe"
proof -
  let ?body = "\<lambda>n cfg. if node_name n \<noteq> ag_nodeName a then Ok cfg
                     else go_for (push_entry cl w) (node_affinity n) cfg"
  let ?ups = "\<lambda>ns. concat (map (entry_updates cl w)
     (concat (map node_affinity (filter (\<lambda>n. node_name n = ag_nodeName a) ns))))"
  have run: "go_for ?body ns cfg = Ok (fold Push (?ups ns) cfg)" for ns cfg
    by (induction ns arbitrary: cfg) (simp_all add: push_entries [OF assms])
  have "GetUpdate \<lparr>pc_needUpdate = None\<rparr> = []" by (simp add: GetUpdate_def)
  then have "GetUpdate (fold Push us \<lparr>pc_needUpdate = None\<rparr>) = us" for us
    by (simp add: GetUpdate_fold_Push)
  then show ?thesis
    unfolding createCrdConfigPolicy_def node_updates_def by (intro exI conjI) (rule run)
qed

lemma remove_pod_filter:
  "remove_pod pod pas = filter (\<lambda>pa. pa_pod pa \<noteq> kp_name pod \<or> pa_ns pa \<noteq> kp_ns pod) pas"
proof -
  let ?keep = "\<lambda>pa. pa_pod pa \<noteq> kp_name pod \<or> pa_ns pa \<noteq> kp_ns pod"
  have "\<exists>arr j. fold (keep_step pod) [0..<n] (pas, 0) = (arr, j) \<and> j \<le> n \<and> length arr = length pas
      \<and> take j arr = filter ?keep (take n pas) \<and> drop n arr = drop n pas" if "n \<le> length pas" for n
    using that
  proof (induction n)
    case (Suc n)
    then obtain arr j where IH: "fold (keep_step pod) [0..<n] (pas, 0) = (arr, j)" "j \<le> n"
      "length arr = length pas" "take j arr = filter ?keep (take n pas)" "drop n arr = drop n pas"
      by auto
    have nth: "arr ! n = pas ! n"
      using IH(3,5) Suc.prems by (metis Cons_nth_drop_Suc Suc_le_lessD list.inject)
    have drop: "drop (Suc n) (arr[j := x]) = drop (Suc n) pas" for x
      using IH(2,5) by (metis drop_Suc drop_update_cancel le_imp_less_Suc tl_drop)
    have drop': "drop (Suc n) arr = drop (Suc n) pas"
      using IH(5) by (metis drop_Suc tl_drop)
    have take: "take (Suc n) pas = take n pas @ [pas ! n]"
      using Suc.prems by (simp add: take_Suc_conv_app_nth)
    have "take (Suc j) (arr[j := x]) = take j arr @ [x]" for x
      using IH(2,3) Suc.prems by (simp add: take_Suc_conv_app_nth)
    have step: "fold (keep_step pod) [0..<Suc n] (pas, 0) = keep_step pod n (arr, j)"
      using IH(1) by simp
    show ?case
    proof (cases "?keep (pas ! n)")
      case True
      then have "keep_step pod n (arr, j) = (arr[j := pas ! n], j + 1)"
        by (simp add: keep_step_def nth)
      with True show ?thesis
        unfolding step using IH(2-4) drop take \<open>\<And>x. take (Suc j) (arr[j := x]) = take j arr @ [x]\<close>
        by (intro exI conjI) (assumption | simp)+
    next
      case False
      then have "keep_step pod n (arr, j) = (arr, j)"
        by (auto simp: keep_step_def nth)
      with False show ?thesis
        unfolding step using IH(2-4) drop' take
        by (intro exI conjI) (assumption | simp)+
    qed
  qed simp
  from this [of "length pas"] show ?thesis by (auto simp: remove_pod_def)
qed

lemma last_node_index_None: "last_node_index name ns = None \<longleftrightarrow> name \<notin> node_name ` set ns"
  and last_node_index_Some: "last_node_index name ns = Some i \<Longrightarrow>
    i < length ns \<and> node_name (ns ! i) = name \<and> (\<forall>j < length ns. i < j \<longrightarrow> node_name (ns ! j) \<noteq> name)"
proof -
  let ?f = "\<lambda>i found. if node_name (ns ! i) = name then Some i else found"
  have "case fold ?f [0..<n] None of
      None \<Rightarrow> \<forall>j < n. node_name (ns ! j) \<noteq> name
    | Some i \<Rightarrow> i < n \<and> node_name (ns ! i) = name \<and> (\<forall>j < n. i < j \<longrightarrow> node_name (ns ! j) \<noteq> name)" for n
    by (induction n) (auto simp: less_Suc_eq split: option.splits)
  from this [of "length ns"]
  show "last_node_index name ns = None \<longleftrightarrow> name \<notin> node_name ` set ns"
    "last_node_index name ns = Some i \<Longrightarrow>
    i < length ns \<and> node_name (ns ! i) = name \<and> (\<forall>j < length ns. i < j \<longrightarrow> node_name (ns ! j) \<noteq> name)"
    by (auto simp: last_node_index_def in_set_conv_nth image_iff Bex_def split: option.splits)
qed

end
