(* ===== verification/CrdPolicyProps.thy ===== *)
theory CrdPolicyProps
  imports CrdPolicy NumafastUpdate ClusterSample
begin

text \<open>
  The path from a resource to the container runtime, the resource manager that never uses a stub
  it does not have, the agent's node in the resource, and the pod cache as the image of the pod
  events.
\<close>

section \<open>Container updates\<close>

lemma updateByCrdConfig_run:
  assumes "resmgr_ok m" and "rm_running m" and "cl_to_oenuma cl un = Ok oe"
    and "\<forall>ns name. \<not> go_is_panic (cl_get_pod cl w ns name)"
  shows "updateByCrdConfig cl a m (Unstruct un) w =
    (if strings_ToUpper (spec_update (oe_spec oe)) = ''ENABLE''
     then (m, fst (cl_update_containers cl w (node_updates cl a w oe)),
           go_map (\<lambda>failed. ()) (go_wrap (\<lambda>e. ''failed to adjust numa node by nriPlugin, '' @ e)
             (snd (cl_update_containers cl w (node_updates cl a w oe)))))
     else (m, w, Ok ()))"
proof -
  obtain cfg where cfg: "createCrdConfigPolicy cl a w oe = Ok cfg" "GetUpdate cfg = node_updates cl a w oe"
    using createCrdConfigPolicy_updates [OF assms(4)] by blast
  have up: "strings_ToUpper ''enable'' = ''ENABLE''" by code_simp
  have run: "updateConfig cl m (PolicyConfig cfg) w =
      (m, fst (cl_update_containers cl w (node_updates cl a w oe)),
           go_map (\<lambda>failed. ()) (go_wrap (\<lambda>e. ''failed to adjust numa node by nriPlugin, '' @ e)
             (snd (cl_update_containers cl w (node_updates cl a w oe)))))"
    by (simp add: updateConfig_def rm_ensure_running_def assms(2) reconfigCrd_running [OF assms(1,2)] cfg(2)
        del: append.simps)
  show ?thesis
    by (simp only: updateByCrdConfig_def assms(3) cfg(1) run up event_object.case go.case not_not
        if_not_P if_cancel split: if_split) simp
qed

text \<open>
  C15: an added or changed Oenuma resource whose update switch is not "enable" changes nothing;
  otherwise the runtime gets, in one request, one update per container of the affinity entries
  of the agent's node whose pod exists, in order, with the CPU and memory set of the resource and
  the last segment of the container ID; the updates the runtime reports as failed are ignored.
\<close>

theorem updateByCrdConfig_applies:
  assumes "resmgr_ok m" and "rm_running m" and "cl_to_oenuma cl un = Ok oe"
    and "\<forall>ns name. \<not> go_is_panic (cl_get_pod cl w ns name)"
  shows "updateByCrdConfig cl a m (Unstruct un) w =
    (if strings_ToUpper (spec_update (oe_spec oe)) = ''ENABLE''
     then (m, fst (cl_update_containers cl w (node_updates cl a w oe)),
           go_map (\<lambda>failed. ()) (go_wrap (\<lambda>e. ''failed to adjust numa node by nriPlugin, '' @ e)
             (snd (cl_update_containers cl w (node_updates cl a w oe)))))
     else (m, w, Ok ()))"
  using assms by (rule updateByCrdConfig_run)

lemma updateByCrdConfig_applies_witness:
  "updateByCrdConfig sample_cluster sample_agent \<lparr>rm_running = True, rm_nri = Some \<lparr>np_stub = True\<rparr>\<rparr>
     (Unstruct (Inl (sample_oenuma [\<lparr>node_name = ''n1'', node_numa = [], node_affinity =
        [\<lparr>pa_numa = 0, pa_pod = ''a'', pa_ns = ''ns'', pa_containers =
          [\<lparr>ctr_id = ''containerd://77'', ctr_name = ''c0'', ctr_cpuset = ''0'', ctr_memset = ''0''\<rparr>]\<rparr>]\<rparr>])))
     (sample_world [] [] [sample_pod ''ns'' ''a'' ''Guaranteed'' [1]] []) =
   (\<lparr>rm_running = True, rm_nri = Some \<lparr>np_stub = True\<rparr>\<rparr>,
    (sample_world [] [] [sample_pod ''ns'' ''a'' ''Guaranteed'' [1]] [])
      \<lparr>wd_updates := [\<lparr>cu_id = ''77'', cu_cpus = ''0'', cu_mems = ''0''\<rparr>]\<rparr>, Ok ())"
proof -
  let ?m = "\<lparr>rm_running = True, rm_nri = Some \<lparr>np_stub = True\<rparr>\<rparr>"
  let ?oe = "sample_oenuma [\<lparr>node_name = ''n1'', node_numa = [], node_affinity =
        [\<lparr>pa_numa = 0, pa_pod = ''a'', pa_ns = ''ns'', pa_containers =
          [\<lparr>ctr_id = ''containerd://77'', ctr_name = ''c0'', ctr_cpuset = ''0'', ctr_memset = ''0''\<rparr>]\<rparr>]\<rparr>]"
  let ?w = "sample_world [] [] [sample_pod ''ns'' ''a'' ''Guaranteed'' [1]] []"
  have h: "resmgr_ok ?m" "rm_running ?m" "cl_to_oenuma sample_cluster (Inl ?oe) = Ok ?oe"
    "\<forall>ns name. \<not> go_is_panic (cl_get_pod sample_cluster ?w ns name)"
    by (auto simp: resmgr_ok_def sample_cluster_def split: option.split)
  have e: "(if strings_ToUpper (spec_update (oe_spec ?oe)) = ''ENABLE''
     then (?m, fst (cl_update_containers sample_cluster ?w (node_updates sample_cluster sample_agent ?w ?oe)),
           go_map (\<lambda>failed. ()) (go_wrap (\<lambda>e. ''failed to adjust numa node by nriPlugin, '' @ e)
             (snd (cl_update_containers sample_cluster ?w (node_updates sample_cluster sample_agent ?w ?oe)))))
     else (?m, ?w, Ok ())) =
     (?m, ?w\<lparr>wd_updates := [\<lparr>cu_id = ''77'', cu_cpus = ''0'', cu_mems = ''0''\<rparr>]\<rparr>, Ok ())"
    by code_simp
  from updateByCrdConfig_applies [OF h, of sample_agent] show ?thesis unfolding e .
qed

section \<open>The resource manager\<close>

text \<open>The states the manager can be in: new, started, or after a configuration.\<close>

inductive rm_reachable :: "('w, 'u) cluster \<Rightarrow> resmgr \<Rightarrow> bool" for cl where
  new: "rm_reachable cl NewResourceManager"
| start: "rm_reachable cl m \<Longrightarrow> resmgr_Start cl m w = (m1, w1, r) \<Longrightarrow> rm_reachable cl m1"
| config: "rm_reachable cl m \<Longrightarrow> updateConfig cl m cfg w = (m1, w1, r) \<Longrightarrow> rm_reachable cl m1"

lemma updateConfig_ok:
  assumes "resmgr_ok m" and "updateConfig cl m cfg w = (m1, w1, r)"
  shows "resmgr_ok m1"
proof (cases cfg)
  case (PolicyConfig c)
  obtain m2 w2 s where e: "rm_ensure_running cl m w = (m2, w2, s)" by (metis prod_cases3)
  from rm_ensure_running_ok [OF assms(1) e] show ?thesis
    using assms(2) by (auto simp: PolicyConfig updateConfig_def e split: go.split_asm prod.split_asm)
qed (use assms in \<open>auto simp: updateConfig_def\<close>)

lemma rm_reachable_ok: "rm_reachable cl m \<Longrightarrow> resmgr_ok m"
  by (induction rule: rm_reachable.induct)
    (auto simp: resmgr_ok_new resmgr_Start_def dest: rm_ensure_running_ok updateConfig_ok)

text \<open>A start that fails ends the process.\<close>

lemma rm_ensure_running_Panic:
  assumes "resmgr_ok m" and "rm_ensure_running cl m w = (m2, w2, Panic q)"
    and "\<forall>w. \<not> go_is_panic (snd (cl_stub_new cl w)) \<and> \<not> go_is_panic (snd (cl_stub_start cl w))"
  shows "q = ProcessExit"
proof (rule ccontr)
  assume q: "q \<noteq> ProcessExit"
  obtain p0 where p0: "rm_nri m = Some p0" using assms(1) by (auto simp: resmgr_ok_def)
  obtain w3 r3 where n: "cl_stub_new cl w = (w3, r3)" by fastforce
  obtain w4 r4 where s4: "cl_stub_start cl w3 = (w4, r4)" by fastforce
  have "\<not> go_is_panic r3" "\<not> go_is_panic r4"
    using assms(3) [rule_format, of w] assms(3) [rule_format, of w3] by (auto simp: n s4)
  then show False
    using assms(2) q by (cases r3; cases r4)
      (auto simp: rm_ensure_running_def rm_start_def nri_start_def createStub_def p0 n s4
        split: if_split_asm)
qed

text \<open>
  Whatever was started or configured before, in whatever order, a configuration is never
  applied through a stub that has not been created: with a runtime client that does not panic,
  the only way the resource manager ends the process is the exit when the plugin cannot start.
\<close>

theorem updateConfig_no_nil_stub:
  assumes "rm_reachable cl m" and "updateConfig cl m cfg w = (m1, w1, Panic p)"
    and "\<forall>w. \<not> go_is_panic (snd (cl_stub_new cl w)) \<and> \<not> go_is_panic (snd (cl_stub_start cl w))"
    and "\<forall>w us. \<not> go_is_panic (snd (cl_update_containers cl w us))"
  shows "p = ProcessExit"
proof -
  have nopanic: "s \<noteq> Panic q" if "\<not> go_is_panic s" for s :: "'x go" and q
    using that by auto
  have ok: "resmgr_ok m" by (rule rm_reachable_ok [OF assms(1)])
  obtain c where c: "cfg = PolicyConfig c"
    using assms(2) by (cases cfg) (auto simp: updateConfig_def)
  obtain m2 w2 s where e: "rm_ensure_running cl m w = (m2, w2, s)" by (metis prod_cases3)
  note run = rm_ensure_running_ok [OF ok e]
  show ?thesis
  proof (cases s)
    case (Ok u)
    with run have "resmgr_ok m2" "rm_running m2" by auto
    from reconfigCrd_running [OF this, of cl c w2]
    have "go_map (\<lambda>_. ()) (go_wrap (\<lambda>e. ''failed to adjust numa node by nriPlugin, '' @ e)
       (snd (cl_update_containers cl w2 (GetUpdate c)))) = Panic p"
      using assms(2) by (simp add: c updateConfig_def e Ok)
    then show ?thesis
      using nopanic [OF assms(4) [rule_format, of w2 "GetUpdate c"]]
      by (cases "snd (cl_update_containers cl w2 (GetUpdate c))") auto
  next
    case (Panic q)
    have "q = p" using assms(2) by (simp add: c updateConfig_def e Panic)
    with rm_ensure_running_Panic [OF ok e [unfolded Panic] assms(3)] show ?thesis by simp
  next
    case (Err x)
    then show ?thesis using assms(2) by (simp add: c updateConfig_def e)
  qed
qed

lemma updateConfig_no_nil_stub_witness:
  "updateConfig (sample_cluster\<lparr>cl_stub_start := (\<lambda>w. (w, Err ''no socket''))\<rparr>) NewResourceManager
     (PolicyConfig \<lparr>pc_needUpdate = None\<rparr>) (sample_world [] [] [] []) =
   (\<lparr>rm_running = False, rm_nri = Some \<lparr>np_stub = True\<rparr>\<rparr>, sample_world [] [] [] [], Panic ProcessExit)"
proof -
  let ?cl = "sample_cluster\<lparr>cl_stub_start := (\<lambda>w. (w, Err ''no socket''))\<rparr>"
  let ?r = "updateConfig ?cl NewResourceManager (PolicyConfig \<lparr>pc_needUpdate = None\<rparr>) (sample_world [] [] [] [])"
  have run: "fst ?r = \<lparr>rm_running = False, rm_nri = Some \<lparr>np_stub = True\<rparr>\<rparr>"
    "fst (snd ?r) = sample_world [] [] [] []" "go_is_panic (snd (snd ?r))"
    by code_simp+
  then obtain p where p: "snd (snd ?r) = Panic p" by (cases "snd (snd ?r)") auto
  then have "?r = (\<lparr>rm_running = False, rm_nri = Some \<lparr>np_stub = True\<rparr>\<rparr>, sample_world [] [] [] [], Panic p)"
    using run by (simp add: prod_eq_iff)
  moreover from this have "p = ProcessExit"
    by (rule updateConfig_no_nil_stub [OF rm_reachable.new])
      (auto simp: sample_cluster_def)
  ultimately show ?thesis by simp
qed

section \<open>The agent's node in the resource\<close>

text \<open>
  An agent that starts after the resource has been created never gets its node into it: the
  creation answers "already exists" and the set-up stops there, the world as it was. As long as
  the resource has no node of its name, its numafast rounds then all fail, and change nothing.
\<close>

theorem late_node_never_listed:
  assumes "cl_get cl w ''oenumas'' (ag_namespace a) (ag_crdname a) = Ok un"
    and "cl_to_oenuma cl un = Ok oe" and "cl_numa_nodes cl w = Ok info"
    and "ag_nodeName a \<notin> node_name ` set (oe_nodes oe)"
  shows "setupConfigCrd cl a w = (w, Err ''the target crd: oenuma already exists.'')
    \<and> updateByNumafastAware cl a w = (w, Err ''faile to get targetNode'')"
proof -
  have "read_oenuma cl a w = Ok oe"
    using assms(1,2) by (simp add: read_oenuma_def GetConfigCrd_def)
  moreover have "node_index (ag_nodeName a) (oe_nodes oe) = None"
    using assms(4) by (simp add: node_index_None)
  ultimately show ?thesis
    using assms(1,3) by (simp add: setupConfigCrd_def CreateConfigCrd_def updateByNumafastAware_def GetNumaNodes_def)
qed

lemma late_node_never_listed_witness:
  "setupConfigCrd sample_cluster sample_agent (sample_world [] [] [] []) =
     (sample_world [] [] [] [], Err ''the target crd: oenuma already exists.'')
   \<and> updateByNumafastAware sample_cluster sample_agent (sample_world [] [] [] []) =
     (sample_world [] [] [] [], Err ''faile to get targetNode'')"
  by (rule late_node_never_listed [where un = "Inl (sample_oenuma [])" and oe = "sample_oenuma []"
        and info = sample_numa]) code_simp+

text \<open>
  On the first start, when the resource could be created and what is read back has no node of
  the agent's name, the set-up appends one with the NUMA nodes of the affinity server and no
  affinity entries; a node that is there already, the last one of the name, is reset to that.
\<close>

theorem setupConfigCrd_places_node:
  assumes "CreateConfigCrd cl w (ag_crdname a) (ag_namespace a) = (w1, Ok ())"
    and "read_oenuma cl a w1 = Ok oe" and "GetNumaNodes cl w1 = Ok info"
  shows "\<exists>oe'. setupConfigCrd cl a w = write_oenuma cl a w1 oe' \<and> oe_meta oe' = oe_meta oe
    \<and> (if ag_nodeName a \<notin> node_name ` set (oe_nodes oe)
       then oe_nodes oe' = oe_nodes oe @
          [\<lparr>node_name = ag_nodeName a, node_numa = numa_entries info, node_affinity = []\<rparr>]
       else \<exists>as n bs. oe_nodes oe = as @ n # bs \<and> node_name n = ag_nodeName a
          \<and> ag_nodeName a \<notin> node_name ` set bs
          \<and> oe_nodes oe' = as @ n\<lparr>node_affinity := [], node_numa := numa_entries info\<rparr> # bs)"
proof -
  let ?oe = "place_node (ag_nodeName a) info oe" and ?ns = "oe_nodes oe"
  have run: "setupConfigCrd cl a w = write_oenuma cl a w1 ?oe"
    using assms by (simp add: setupConfigCrd_def)
  show ?thesis
  proof (cases "last_node_index (ag_nodeName a) ?ns")
    case None
    then have "ag_nodeName a \<notin> node_name ` set ?ns" by (simp add: last_node_index_None)
    with None show ?thesis by (intro exI [of _ ?oe]) (simp add: run place_node_def)
  next
    case (Some i)
    note last = last_node_index_Some [OF Some]
    have split: "?ns = take i ?ns @ ?ns ! i # drop (Suc i) ?ns"
      using last by (metis id_take_nth_drop)
    have "ag_nodeName a \<in> node_name ` set ?ns" using last by (metis image_eqI nth_mem)
    moreover have "ag_nodeName a \<notin> node_name ` set (drop (Suc i) ?ns)"
    proof
      assume "ag_nodeName a \<in> node_name ` set (drop (Suc i) ?ns)"
      then obtain j where j: "j < length (drop (Suc i) ?ns)" "node_name (drop (Suc i) ?ns ! j) = ag_nodeName a"
        by (metis image_iff in_set_conv_nth)
      then have "Suc i + j < length ?ns" "node_name (?ns ! (Suc i + j)) = ag_nodeName a" by simp_all
      moreover have "i < Suc i + j" by simp
      ultimately show False using last by blast
    qed
    moreover have "oe_nodes ?oe = take i ?ns @ (?ns ! i)\<lparr>node_affinity := [], node_numa := numa_entries info\<rparr>
        # drop (Suc i) ?ns"
      using Some last by (simp add: place_node_def upd_conv_take_nth_drop)
    moreover have "oe_meta ?oe = oe_meta oe" using Some by (simp add: place_node_def)
    ultimately show ?thesis
      using run split last by (intro exI [of _ ?oe]) auto
  qed
qed

lemma setupConfigCrd_places_node_witness:
  "\<exists>oe'. setupConfigCrd sample_cluster sample_agent ((sample_world [] [] [] [])\<lparr>wd_oenumas := []\<rparr>) =
     write_oenuma sample_cluster sample_agent (sample_world [] [] [] []) oe'
   \<and> oe_nodes oe' = [\<lparr>node_name = ''n1'', node_numa = numa_entries sample_numa, node_affinity = []\<rparr>]"
proof -
  let ?w = "(sample_world [] [] [] [])\<lparr>wd_oenumas := []\<rparr>"
  have h: "CreateConfigCrd sample_cluster ?w (ag_crdname sample_agent) (ag_namespace sample_agent) =
      (sample_world [] [] [] [], Ok ())"
    "read_oenuma sample_cluster sample_agent (sample_world [] [] [] []) = Ok (sample_oenuma [])"
    "GetNumaNodes sample_cluster (sample_world [] [] [] []) = Ok sample_numa"
    by code_simp+
  have e: "oe_nodes (sample_oenuma []) = []" "ag_nodeName sample_agent = ''n1''" by code_simp+
  from setupConfigCrd_places_node [OF h] show ?thesis by (auto simp: e)
qed

text \<open>
  C34: when a pod is deleted, exactly its entries leave the agent's node, the others keep their
  order, although the code filters the slice in place; every other node is written back as it
  was, and a resource without the agent's node is not written at all.
\<close>

theorem deleteObsoletePodsInCr_removes:
  assumes "read_oenuma cl a w = Ok oe"
  shows "deleteObsoletePodsInCr cl a (PodObject pod) w =
    (case node_index (ag_nodeName a) (oe_nodes oe) of
       None \<Rightarrow> (w, Ok ())
     | Some i \<Rightarrow> write_oenuma cl a w (update_spec_nodes (\<lambda>ns. ns[i := (ns ! i)\<lparr>node_affinity :=
         filter (\<lambda>pa. (pa_ns pa, pa_pod pa) \<noteq> (kp_ns pod, kp_name pod)) (node_affinity (ns ! i))\<rparr>]) oe))"
proof -
  have "remove_pod pod pas = filter (\<lambda>pa. (pa_ns pa, pa_pod pa) \<noteq> (kp_ns pod, kp_name pod)) pas" for pas
    unfolding remove_pod_filter by (rule filter_cong) auto
  then show ?thesis
    by (simp add: deleteObsoletePodsInCr_def assms split: option.split)
qed

lemma deleteObsoletePodsInCr_removes_witness:
  "deleteObsoletePodsInCr sample_cluster sample_agent (PodObject (sample_pod ''ns'' ''a'' '''' []))
     (sample_world [\<lparr>node_name = ''n1'', node_numa = [], node_affinity =
        [\<lparr>pa_numa = 0, pa_pod = ''a'', pa_ns = ''ns'', pa_containers = []\<rparr>,
         \<lparr>pa_numa = 0, pa_pod = ''a'', pa_ns = ''other'', pa_containers = []\<rparr>]\<rparr>] [] [] []) =
   (sample_world [\<lparr>node_name = ''n1'', node_numa = [], node_affinity =
        [\<lparr>pa_numa = 0, pa_pod = ''a'', pa_ns = ''other'', pa_containers = []\<rparr>]\<rparr>] [] [] [], Ok ())"
proof -
  let ?w = "sample_world [\<lparr>node_name = ''n1'', node_numa = [], node_affinity =
        [\<lparr>pa_numa = 0, pa_pod = ''a'', pa_ns = ''ns'', pa_containers = []\<rparr>,
         \<lparr>pa_numa = 0, pa_pod = ''a'', pa_ns = ''other'', pa_containers = []\<rparr>]\<rparr>] [] [] []"
  have h: "read_oenuma sample_cluster sample_agent ?w = Ok (snd (hd (wd_oenumas ?w)))" by code_simp
  show ?thesis
    unfolding deleteObsoletePodsInCr_removes [OF h] by code_simp
qed

section \<open>The pod cache follows the pod events\<close>

datatype nri_event = RunPod pod_sandbox | StopPod pod_sandbox

fun nri_step :: "nri_event \<Rightarrow> store \<times> pod_cache \<Rightarrow> store \<times> pod_cache" where
  "nri_step (RunPod p) c = RunPodSandbox p c"
| "nri_step (StopPod p) c = StopPodSandbox p c"

text \<open>The events that matter for a UID: a labelled pod of that UID, or the stop of the UID.\<close>

fun about_uid :: "string \<Rightarrow> nri_event \<Rightarrow> bool" where
  "about_uid u (RunPod p) \<longleftrightarrow> sandbox_label p \<noteq> None \<and> sb_uid p = u \<and> u \<noteq> ''''"
| "about_uid u (StopPod p) \<longleftrightarrow> sb_uid p = u"

fun cached_by :: "nri_event \<Rightarrow> (string \<times> string \<times> string \<times> (string \<rightharpoonup> string) option) option" where
  "cached_by (RunPod p) = Some (arrived_view (sandbox_pod p))"
| "cached_by (StopPod p) = None"

fun nri_ok :: "nri_event \<Rightarrow> bool" where
  "nri_ok (RunPod p) = arrived_ok (sandbox_pod p)"
| "nri_ok (StopPod p) = True"

fun to_cache_event :: "nri_event \<Rightarrow> arrived_pod cache_event list" where
  "to_cache_event (RunPod p) = (if sandbox_label p = None then [] else [Update (sandbox_pod p)])"
| "to_cache_event (StopPod p) = [Delete (sb_uid p)]"

lemma nri_run: "fold nri_step es c = fold pod_cache.step (concat (map to_cache_event es)) c"
proof (induction es arbitrary: c)
  case (Cons e es)
  have "nri_step e c = fold pod_cache.step (to_cache_event e) c"
    by (cases e) (simp_all add: RunPodSandbox_def StopPodSandbox_def pod_cache.step_def)
  with Cons show ?case by simp
qed simp

text \<open>
  C16: after any sequence of pod events the cache holds under a UID what the last event about it
  says: the labelled pod that was started under it, or nothing once it was stopped; pods without
  the group label leave no trace, and no pod is ever cached under the empty UID.
\<close>

theorem cache_mirrors_events:
  assumes "cache_ok c" and "\<forall>e \<in> set es. nri_ok e"
  shows "cache_view (fold nri_step es c) u =
      (case filter (about_uid u) es of [] \<Rightarrow> cache_view c u | ds \<Rightarrow> cached_by (last ds))
    \<and> cache_ok (fold nri_step es c) \<and> cache_view (fold nri_step es c) '''' = None"
proof -
  let ?cs = "concat (map to_cache_event es)"
  have "\<forall>c \<in> set (to_cache_event e). pod_cache.valid_event c" if "nri_ok e" for e
    using that by (cases e) (auto simp: pod_cache.valid_event_def)
  then have valid: "\<forall>e \<in> set ?cs. pod_cache.valid_event e"
    using assms(2) by auto
  have ok: "cache_ok (fold nri_step es c)"
    unfolding nri_run by (rule pod_cache.ok_run [OF assms(1) valid])
  have "filter (pod_cache.concerns u) (to_cache_event e) =
      (if about_uid u e then [case e of RunPod p \<Rightarrow> Update (sandbox_pod p) | StopPod p \<Rightarrow> Delete (sb_uid p)] else [])"
    for e by (cases e) (auto simp: pod_cache.concerns_def sandbox_pod_def)
  then have "filter (pod_cache.concerns u) ?cs =
      map (\<lambda>e. case e of RunPod p \<Rightarrow> Update (sandbox_pod p) | StopPod p \<Rightarrow> Delete (sb_uid p))
        (filter (about_uid u) es)"
    by (induction es) auto
  then have "cache_view (fold nri_step es c) u =
      (case filter (about_uid u) es of [] \<Rightarrow> cache_view c u | ds \<Rightarrow> cached_by (last ds))"
    unfolding nri_run pod_cache.view_run [OF assms(1) valid]
    by (auto simp: pod_cache.outcome_def last_map split: list.split nri_event.split)
  moreover have "cache_view (fold nri_step es c) '''' = None" by (rule cache_view_empty [OF ok])
  ultimately show ?thesis using ok by blast
qed

lemma cache_mirrors_events_witness:
  "let p = \<lparr>sb_name = ''p'', sb_uid = ''u1'', sb_ns = ''ns'', sb_labels = Some [(''rcgroup'', ''gold'')]\<rparr>;
       q = \<lparr>sb_name = ''q'', sb_uid = ''u2'', sb_ns = ''ns'', sb_labels = None\<rparr>
   in cache_view (fold nri_step [RunPod p, RunPod q] (\<lparr>st_pods = [], st_labels = []\<rparr>, [])) ''u1'' =
      Some (''p'', ''u1'', ''ns'', Some (map_of [(''rcgroup'', ''gold'')]))"
proof -
  let ?p = "\<lparr>sb_name = ''p'', sb_uid = ''u1'', sb_ns = ''ns'', sb_labels = Some [(''rcgroup'', ''gold'')]\<rparr>"
  let ?q = "\<lparr>sb_name = ''q'', sb_uid = ''u2'', sb_ns = ''ns'', sb_labels = None\<rparr>"
  have h: "cache_ok (\<lparr>st_pods = [], st_labels = []\<rparr>, [])" "\<forall>e \<in> set [RunPod ?p, RunPod ?q]. nri_ok e"
    by (auto simp: cache_ok_def store_ok_def arrived_ok_def sandbox_pod_def)
  have f: "filter (about_uid ''u1'') [RunPod ?p, RunPod ?q] = [RunPod ?p]"
    by (simp add: sandbox_label_def GroupLabel_def)
  from cache_mirrors_events [OF h, of "''u1''"] show ?thesis
    unfolding f Let_def by (simp add: arrived_view_def sandbox_pod_def)
qed

end
