(* ===== verification/ObjectWatch.thy ===== *)
theory ObjectWatch
  imports GoPrelude
begin

text \<open>
  \<open>pkg/agent/watch/object.go\<close>: a watch that reads the events of an inner watch of the API
  server, hands them on through a buffered channel and is meant to reopen the inner watch when it
  ends. It is a worker goroutine, the callers of \<open>Stop\<close> and the reader of the channel; a step
  relation interleaves them.
\<close>

section \<open>State\<close>

datatype event_type = Added | Modified | Deleted | Bookmark | ErrorEvent

record 'o event =
  ev_type :: event_type
  ev_object :: 'o

text \<open>
  The worker is in its select loop, inside its own call of \<^verbatim>\<open>w.Stop()\<close> (waiting for the lock, or
  waiting for \<^verbatim>\<open>doneC\<close>), or gone; so is a caller of \<open>Stop\<close>.
\<close>

datatype stop_phase = NotStopping | WaitLock | WaitDone | Returned

datatype lock_holder = Unlocked | HeldByCaller | HeldByWorker

text \<open>
  \<open>ow_wif\<close> says whether there is an inner watch, \<open>ow_resultC\<close> is the buffer of the result
  channel or \<open>None\<close> for a nil channel, \<open>ow_reopen\<close> whether the reopen timer is set. \<open>ow_stopping\<close>:
  \<open>stopC\<close> is closed; \<open>ow_finished\<close>: \<open>resultC\<close> and \<open>doneC\<close> are. \<open>ow_received\<close> and \<open>ow_read\<close>
  record the events taken from inner watches and those taken by the reader.
\<close>

record 'o watch_state =
  ow_wif :: bool
  ow_resultC :: "'o event list option"
  ow_reopen :: bool
  ow_failing :: bool
  ow_lock :: lock_holder
  ow_stopping :: bool
  ow_caller :: stop_phase
  ow_worker :: stop_phase
  ow_finished :: bool
  ow_received :: "'o event list"
  ow_read :: "'o event list"

section \<open>The worker's operations\<close>

definition markFailing :: "'o watch_state \<Rightarrow> 'o watch_state" where
  "markFailing w = (if \<not> ow_failing w then w\<lparr>ow_failing := True\<rparr> else w)"

definition markRunning :: "'o watch_state \<Rightarrow> 'o watch_state" where
  "markRunning w = (if ow_failing w then w\<lparr>ow_failing := False\<rparr> else w)"

definition stop_inner :: "'o watch_state \<Rightarrow> 'o watch_state" where
  "stop_inner w = (if ow_wif w then w\<lparr>ow_wif := False\<rparr> else w)"

text \<open>The flag says whether \<^verbatim>\<open>create\<close> succeeds.\<close>

definition ow_open :: "bool \<Rightarrow> 'o watch_state \<Rightarrow> 'o watch_state \<times> bool" where
  "ow_open created w =
     (let w1 = stop_inner w
      in if \<not> created then (w1, False) else (markRunning (w1\<lparr>ow_wif := True\<rparr>), True))"

definition scheduleReopen :: "'o watch_state \<Rightarrow> 'o watch_state" where
  "scheduleReopen w = (if ow_resultC w \<noteq> None then w else w\<lparr>ow_reopen := True\<rparr>)"

definition reopen :: "bool \<Rightarrow> 'o watch_state \<Rightarrow> 'o watch_state" where
  "reopen created w =
     (let (w1, ok) = ow_open created w in if \<not> ok then scheduleReopen w1 else markRunning w1)"

text \<open>
  An event of the inner watch: an error event also stops the inner watch; the event is passed on
  unless the buffer of \<open>cap\<close> events is full. A send on a nil channel is never ready.
\<close>

definition on_event :: "nat \<Rightarrow> 'o event \<Rightarrow> 'o watch_state \<Rightarrow> 'o watch_state" where
  "on_event cap e w =
     (let w1 = w\<lparr>ow_received := ow_received w @ [e]\<rparr>;
          w2 = (if ev_type e = ErrorEvent then stop_inner (markFailing w1) else w1)
      in case ow_resultC w2 of
           Some buf \<Rightarrow>
             (if length buf < cap then w2\<lparr>ow_resultC := Some (buf @ [e])\<rparr>
              else scheduleReopen (stop_inner (markFailing w2)))
         | None \<Rightarrow> scheduleReopen (stop_inner (markFailing w2)))"

definition on_timer :: "bool \<Rightarrow> 'o watch_state \<Rightarrow> 'o watch_state" where
  "on_timer created w = reopen created (w\<lparr>ow_reopen := False\<rparr>)"

text \<open>\<open>Object\<close>: the watch is returned only when the first \<open>open\<close> succeeds.\<close>

definition new_watch :: "'o watch_state" where
  "new_watch =
     \<lparr>ow_wif = False, ow_resultC = Some [], ow_reopen = False, ow_failing = False, ow_lock = Unlocked,
      ow_stopping = False, ow_caller = NotStopping, ow_worker = NotStopping, ow_finished = False,
      ow_received = [], ow_read = []\<rparr>"

definition Object :: "bool \<Rightarrow> 'o watch_state option" where
  "Object created = (let (w, ok) = ow_open created new_watch in if ok then Some w else None)"

section \<open>Steps\<close>

text \<open>
  The worker's select takes any ready case: a closed \<open>stopC\<close>, an event or the end of the inner
  watch, the timer. Having seen \<open>stopC\<close> closed the worker calls \<open>Stop\<close> itself, then closes the
  channels. \<open>Stop\<close> takes the lock, closes \<open>stopC\<close> and waits for \<open>doneC\<close> with the lock held;
  were \<open>stopC\<close> closed already, closing it again would panic, so that step needs it open.
\<close>

inductive ow_step :: "nat \<Rightarrow> 'o watch_state \<Rightarrow> 'o watch_state \<Rightarrow> bool" for cap where
  event: "ow_worker w = NotStopping \<Longrightarrow> ow_wif w \<Longrightarrow> ow_step cap w (on_event cap e w)"
| expired: "ow_worker w = NotStopping \<Longrightarrow> ow_wif w \<Longrightarrow> ow_step cap w (reopen created w)"
| timer: "ow_worker w = NotStopping \<Longrightarrow> ow_reopen w \<Longrightarrow> ow_step cap w (on_timer created w)"
| stop_seen: "ow_worker w = NotStopping \<Longrightarrow> ow_stopping w \<Longrightarrow> ow_step cap w (w\<lparr>ow_worker := WaitLock\<rparr>)"
| worker_lock: "ow_worker w = WaitLock \<Longrightarrow> ow_lock w = Unlocked \<Longrightarrow> \<not> ow_stopping w \<Longrightarrow>
    ow_step cap w (w\<lparr>ow_worker := WaitDone, ow_lock := HeldByWorker, ow_stopping := True\<rparr>)"
| worker_done: "ow_worker w = WaitDone \<Longrightarrow> ow_finished w \<Longrightarrow>
    ow_step cap w (w\<lparr>ow_worker := Returned, ow_lock := Unlocked\<rparr>)"
| worker_close: "ow_worker w = Returned \<Longrightarrow> ow_step cap w (w\<lparr>ow_finished := True\<rparr>)"
| stop_call: "ow_caller w = NotStopping \<Longrightarrow> ow_step cap w (w\<lparr>ow_caller := WaitLock\<rparr>)"
| stop_lock: "ow_caller w = WaitLock \<Longrightarrow> ow_lock w = Unlocked \<Longrightarrow> \<not> ow_stopping w \<Longrightarrow>
    ow_step cap w (w\<lparr>ow_caller := WaitDone, ow_lock := HeldByCaller, ow_stopping := True\<rparr>)"
| stop_done: "ow_caller w = WaitDone \<Longrightarrow> ow_finished w \<Longrightarrow>
    ow_step cap w (w\<lparr>ow_caller := Returned, ow_lock := Unlocked\<rparr>)"
| read: "ow_resultC w = Some (e # buf) \<Longrightarrow>
    ow_step cap w (w\<lparr>ow_resultC := Some buf, ow_read := ow_read w @ [e]\<rparr>)"


inductive ow_reachable :: "nat \<Rightarrow> 'o watch_state \<Rightarrow> bool" for cap where
  init: "Object created = Some w \<Longrightarrow> ow_reachable cap w"
| step: "ow_reachable cap w \<Longrightarrow> ow_step cap w w' \<Longrightarrow> ow_reachable cap w'"

section \<open>Invariants\<close>

lemmas watch_ops = markFailing_def markRunning_def stop_inner_def ow_open_def scheduleReopen_def
  reopen_def on_event_def on_timer_def Let_def

text \<open>
  The result channel is never nil, so the timer is never set; the lock is never free again once
  \<open>stopC\<close> is closed; the events handed on are those received, but perhaps the last.
\<close>

definition ow_inv :: "'o watch_state \<Rightarrow> bool" where
  "ow_inv w \<longleftrightarrow> ow_resultC w \<noteq> None \<and> \<not> ow_reopen w \<and> \<not> ow_finished w
     \<and> ow_worker w \<in> {NotStopping, WaitLock} \<and> ow_caller w \<noteq> Returned
     \<and> (ow_worker w = WaitLock \<longrightarrow> ow_stopping w)
     \<and> (ow_stopping w \<longrightarrow> ow_lock w = HeldByCaller)
     \<and> (ow_stopping w \<longleftrightarrow> ow_caller w = WaitDone)
     \<and> (\<exists>lost. ow_received w = ow_read w @ the (ow_resultC w) @ lost \<and> length lost \<le> 1
          \<and> (lost \<noteq> [] \<longrightarrow> \<not> ow_wif w))"

lemma ow_inv_init: "Object created = Some w \<Longrightarrow> ow_inv w"
  by (cases created) (auto simp: Object_def new_watch_def ow_inv_def watch_ops)

lemma ow_inv_event:
  assumes "ow_inv w" and "ow_wif w"
  shows "ow_inv (on_event cap e w)"
proof -
  obtain buf where "ow_resultC w = Some buf" "ow_received w = ow_read w @ buf"
    using assms by (auto simp: ow_inv_def)
  with assms(1) show ?thesis by (auto simp: ow_inv_def watch_ops)
qed

lemma ow_inv_reopen:
  assumes "ow_inv w" and "ow_wif w"
  shows "ow_inv (reopen created w)"
  using assms by (auto simp: ow_inv_def watch_ops)

lemma ow_inv_step:
  assumes "ow_step cap w w'" and "ow_inv w"
  shows "ow_inv w'"
  using assms(1)
proof (cases rule: ow_step.cases)
  case (event e)
  then show ?thesis using ow_inv_event assms(2) by blast
next
  case (expired created)
  then show ?thesis using ow_inv_reopen assms(2) by blast
next
  case (read e buf)
  then show ?thesis using assms(2) by (auto simp: ow_inv_def)
qed (use assms(2) in \<open>auto simp: ow_inv_def\<close>)+

lemma ow_reachable_inv: "ow_reachable cap w \<Longrightarrow> ow_inv w"
  by (induction rule: ow_reachable.induct) (auto intro: ow_inv_init ow_inv_step)

text \<open>Without an inner watch none is ever opened and nothing is received.\<close>

lemma ow_dead_step:
  assumes "ow_step cap w w'" and "ow_inv w" and "\<not> ow_wif w"
  shows "\<not> ow_wif w' \<and> ow_received w' = ow_received w"
  using assms(1) by (cases rule: ow_step.cases) (use assms(2,3) in \<open>simp_all add: ow_inv_def\<close>)

section \<open>Properties\<close>

text \<open>
  C28: the reader gets the events of the inner watches in order and without gaps or repetitions:
  at any time those it has read, then those in the channel, are all events received but at most
  the last one, and one is lost only when the channel was full, after which there is no inner
  watch.
\<close>

theorem watch_delivers_in_order:
  assumes "ow_reachable cap w"
  shows "\<exists>buf lost. ow_resultC w = Some buf \<and> ow_received w = ow_read w @ buf @ lost
    \<and> length lost \<le> 1 \<and> (lost \<noteq> [] \<longrightarrow> \<not> ow_wif w)"
  using ow_reachable_inv [OF assms] by (auto simp: ow_inv_def)

text \<open>
  C29: a watch that has lost its inner watch is dead: in no later state is there an inner watch
  again and no event is received any more, whatever happens; the timer that should reopen it is
  never set, as \<open>scheduleReopen\<close> does nothing while there is a result channel.
\<close>

theorem watch_never_reopened:
  assumes "ow_reachable cap w" and "\<not> ow_wif w" and "(ow_step cap)\<^sup>*\<^sup>* w w'"
  shows "\<not> ow_wif w' \<and> \<not> ow_reopen w' \<and> ow_received w' = ow_received w"
  using assms(3)
proof (induction rule: rtranclp_induct)
  case base
  then show ?case using assms(2) ow_reachable_inv [OF assms(1)] by (simp add: ow_inv_def)
next
  case (step v v')
  have "ow_reachable cap v"
    using step.hyps(1) assms(1) by (induction rule: rtranclp_induct) (auto intro: ow_reachable.step)
  then have "ow_inv v" "ow_inv v'" using ow_reachable_inv ow_inv_step [OF step.hyps(2)] by auto
  with ow_dead_step [OF step.hyps(2)] step.IH show ?case by (auto simp: ow_inv_def)
qed

text \<open>
  C30: \<open>Stop\<close> never returns and never closes the result channel: once its caller holds the lock
  and has closed \<open>stopC\<close>, the worker can only end up waiting for that lock in its own call of
  \<open>Stop\<close>, while the caller waits for the worker.
\<close>

theorem watch_stop_deadlocks:
  assumes "ow_reachable cap w"
  shows "ow_caller w \<noteq> Returned \<and> \<not> ow_finished w
    \<and> (ow_stopping w \<longrightarrow> ow_caller w = WaitDone \<and> ow_lock w = HeldByCaller)
    \<and> (ow_worker w = WaitLock \<longrightarrow> (\<forall>w'. ow_step cap w w' \<longrightarrow> ow_worker w' = WaitLock))"
proof -
  have inv: "ow_inv w" by (rule ow_reachable_inv [OF assms])
  moreover have "ow_worker w' = WaitLock" if "ow_worker w = WaitLock" "ow_step cap w w'" for w'
    using that(2) by (cases rule: ow_step.cases) (use that(1) inv in \<open>simp_all add: ow_inv_def\<close>)
  ultimately show ?thesis by (auto simp: ow_inv_def)
qed

section \<open>Concrete runs\<close>

definition running_watch :: "nat watch_state" where
  "running_watch = fst (ow_open True new_watch)"

definition event_at :: "event_type \<Rightarrow> nat \<Rightarrow> nat event" where
  "event_at t n = \<lparr>ev_type = t, ev_object = n\<rparr>"

lemma running_reachable: "ow_reachable cap running_watch"
  by (rule ow_reachable.init [where created = True])
    (simp add: Object_def running_watch_def watch_ops new_watch_def)

lemma running_event: "ow_reachable cap (on_event cap e running_watch)"
  by (rule ow_reachable.step [OF running_reachable ow_step.event]) code_simp+

text \<open>A channel of one event that overflows.\<close>

lemma watch_delivers_in_order_witness:
  "let w = on_event 1 (event_at Modified 2) (on_event 1 (event_at Added 1) running_watch)
   in ow_received w = [event_at Added 1, event_at Modified 2] \<and>
      (\<exists>buf lost. ow_resultC w = Some buf \<and> ow_received w = ow_read w @ buf @ lost
        \<and> length lost \<le> 1 \<and> (lost \<noteq> [] \<longrightarrow> \<not> ow_wif w)) \<and> \<not> ow_wif w"
proof -
  let ?v = "on_event 1 (event_at Added 1) running_watch"
  let ?w = "on_event 1 (event_at Modified 2) ?v"
  have "ow_step 1 ?v ?w" by (rule ow_step.event) code_simp+
  then have r: "ow_reachable 1 ?w" by (rule ow_reachable.step [OF running_event])
  have "ow_received ?w = [event_at Added 1, event_at Modified 2]" "\<not> ow_wif ?w" by code_simp+
  with watch_delivers_in_order [OF r] show ?thesis unfolding Let_def by (intro conjI)
qed

lemma watch_never_reopened_witness:
  "let w = on_event 100 (event_at ErrorEvent 1) running_watch;
       w' = w\<lparr>ow_resultC := Some [], ow_read := [event_at ErrorEvent 1]\<rparr>
   in \<not> ow_wif w' \<and> \<not> ow_reopen w' \<and> ow_received w' = ow_received w"
proof -
  let ?w = "on_event 100 (event_at ErrorEvent 1) running_watch"
  let ?w' = "?w\<lparr>ow_resultC := Some [], ow_read := [event_at ErrorEvent 1]\<rparr>"
  have "ow_step 100 ?w (?w\<lparr>ow_resultC := Some [], ow_read := ow_read ?w @ [event_at ErrorEvent 1]\<rparr>)"
    by (rule ow_step.read) code_simp
  moreover have "ow_read ?w = []" "\<not> ow_wif ?w" by code_simp+
  ultimately show ?thesis
    unfolding Let_def by (intro watch_never_reopened [OF running_event]) (auto simp: r_into_rtranclp)
qed

lemma watch_stop_deadlocks_witness:
  "let w = running_watch\<lparr>ow_caller := WaitDone, ow_lock := HeldByCaller, ow_stopping := True,
             ow_worker := WaitLock\<rparr>
   in \<forall>w'. ow_step 100 w w' \<longrightarrow> ow_worker w' = WaitLock"
proof -
  let ?a = "running_watch\<lparr>ow_caller := WaitLock\<rparr>"
  let ?b = "?a\<lparr>ow_caller := WaitDone, ow_lock := HeldByCaller, ow_stopping := True\<rparr>"
  let ?c = "?b\<lparr>ow_worker := WaitLock\<rparr>"
  have "ow_step 100 running_watch ?a" by (rule ow_step.stop_call) code_simp
  then have "ow_reachable 100 ?a" by (rule ow_reachable.step [OF running_reachable])
  moreover have "ow_step 100 ?a ?b" by (rule ow_step.stop_lock) code_simp+
  ultimately have "ow_reachable 100 ?b" by (rule ow_reachable.step)
  moreover have "ow_step 100 ?b ?c" by (rule ow_step.stop_seen) code_simp+
  ultimately have "ow_reachable 100 ?c" by (rule ow_reachable.step)
  from watch_stop_deadlocks [OF this] show ?thesis unfolding Let_def by simp
qed

end
