(* ===== verification/OsFiles.thy ===== *)
theory OsFiles
  imports GoStrings
begin

text \<open>
  The operating system behind the \<^verbatim>\<open>os\<close> and \<^verbatim>\<open>ioutil\<close> calls, and \<open>pkg/util/file.go\<close> on top
  of it. What a file system does is the kernel's business, all the more for the resctrl and
  cgroup file systems whose files act on the machine; its calls are functions over an abstract
  world, arguments of the definitions that use them. Error values are kept as far as the code
  tells them apart.
\<close>

section \<open>System calls\<close>

datatype os_error = NotExist | Exist | NoSuchProcess | OtherError string

datatype 'a os_result = Done 'a | Fail os_error

fun error_text :: "os_error \<Rightarrow> string" where
  "error_text NotExist = ''no such file or directory''"
| "error_text Exist = ''file exists''"
| "error_text NoSuchProcess = ''no such process''"
| "error_text (OtherError e) = e"

definition os_IsExist :: "os_error \<Rightarrow> bool" where
  "os_IsExist e \<longleftrightarrow> e = Exist"

record file_info =
  fi_name :: string
  fi_dir :: bool

text \<open>
  \<open>os_lstat\<close> answers whether the path is a directory; \<open>os_read\<close> the content of a file that could
  be opened, with the error that ended the reading early, if any; \<open>os_write\<close> replaces the content
  of a file (\<^verbatim>\<open>os.WriteFile\<close>); \<open>os_writable\<close> opens a file for writing and \<open>os_put\<close> is one
  write call on it.
\<close>

record 'w os =
  os_lstat :: "'w \<Rightarrow> string \<Rightarrow> bool os_result"
  os_readdir :: "'w \<Rightarrow> string \<Rightarrow> file_info list os_result"
  os_read :: "'w \<Rightarrow> string \<Rightarrow> (string \<times> os_error option) os_result"
  os_write :: "'w \<Rightarrow> string \<Rightarrow> string \<Rightarrow> 'w \<times> unit os_result"
  os_mkdir :: "'w \<Rightarrow> string \<Rightarrow> 'w \<times> unit os_result"
  os_remove :: "'w \<Rightarrow> string \<Rightarrow> 'w \<times> unit os_result"
  os_writable :: "'w \<Rightarrow> string \<Rightarrow> unit os_result"
  os_put :: "'w \<Rightarrow> string \<Rightarrow> string \<Rightarrow> 'w \<times> unit os_result"

section \<open>pkg/util/file.go\<close>

definition IsDir :: "'w os \<Rightarrow> 'w \<Rightarrow> string \<Rightarrow> bool" where
  "IsDir os w path = (case os_lstat os w path of Fail _ \<Rightarrow> False | Done d \<Rightarrow> d)"

definition PathExist :: "'w os \<Rightarrow> 'w \<Rightarrow> string \<Rightarrow> bool" where
  "PathExist os w path = (case os_lstat os w path of Fail _ \<Rightarrow> False | Done _ \<Rightarrow> True)"

definition ReadFile :: "'w os \<Rightarrow> 'w \<Rightarrow> string \<Rightarrow> string go" where
  "ReadFile os w path =
     (if IsDir os w path then Err (path @ '' is not a file'')
      else if \<not> PathExist os w path then Err (path @ '' is not exist'')
      else (case os_read os w path of
              Done (s, None) \<Rightarrow> Ok s
            | Done (_, Some e) \<Rightarrow> Err (error_text e)
            | Fail e \<Rightarrow> Err (error_text e)))"

definition WriteFile :: "'w os \<Rightarrow> string \<Rightarrow> string \<Rightarrow> 'w \<Rightarrow> 'w \<times> unit go" where
  "WriteFile os path data w =
     (if IsDir os w path then (w, Err (path @ '' is not a file''))
      else if \<not> PathExist os w path then (w, Err (path @ '' is not exist''))
      else (case os_write os w path data of
              (w1, Done _) \<Rightarrow> (w1, Ok ())
            | (w1, Fail e) \<Rightarrow> (w1, Err (error_text e))))"

definition Mkdir :: "'w os \<Rightarrow> string \<Rightarrow> 'w \<Rightarrow> 'w \<times> unit go" where
  "Mkdir os name w =
     (case os_mkdir os w name of
        (w1, Done _) \<Rightarrow> (w1, Ok ())
      | (w1, Fail e) \<Rightarrow>
          (w1, if os_IsExist e then Ok ()
               else Err (''failed to create directory: '' @ name @ '', err: '' @ error_text e)))"

section \<open>Plain files\<close>

text \<open>
  A write goes to an existing plain file or nowhere. What a file reads back after it is not
  promised: a resctrl file is not a store.
\<close>

definition is_file :: "'w os \<Rightarrow> 'w \<Rightarrow> string \<Rightarrow> bool" where
  "is_file os w path \<longleftrightarrow> os_lstat os w path = Done False"

lemma WriteFile_file:
  "is_file os w path \<Longrightarrow> WriteFile os path data w =
     (fst (os_write os w path data),
      case snd (os_write os w path data) of Done _ \<Rightarrow> Ok () | Fail e \<Rightarrow> Err (error_text e))"
  by (simp add: WriteFile_def is_file_def IsDir_def PathExist_def split: prod.split os_result.split)

text \<open>A file is only ever written where there is one already.\<close>

lemma WriteFile_no_file:
  "\<not> is_file os w path \<Longrightarrow> fst (WriteFile os path data w) = w \<and> \<not> go_is_ok (snd (WriteFile os path data w))"
  by (auto simp: WriteFile_def is_file_def IsDir_def PathExist_def split: os_result.split)

end
