(* ===== verification/ResctrlGroup.thy ===== *)
theory ResctrlGroup
  imports OsFiles TextCodec
begin

text \<open>
  \<open>pkg/resctrl/resctrl_group.go\<close>: an MPAM control group, a directory of the resctrl file system
  whose \<^verbatim>\<open>schemata\<close> file takes the priorities of the L3 caches and of the memory bandwidth. The
  IDs of the caches are read from a schemata file once and kept in a variable of the package.
\<close>

section \<open>The group\<close>

record mpam_group =
  mg_dir :: string
  mg_l3Pri :: int
  mg_mbPri :: int

definition schemata_name :: string where
  "schemata_name = ''schemata''"

definition NewMpamResCtrlGroup :: "string \<Rightarrow> string \<Rightarrow> int \<Rightarrow> int \<Rightarrow> mpam_group" where
  "NewMpamResCtrlGroup root groupName l3Pri mbPri =
     \<lparr>mg_dir = filepath_Join [root, groupName], mg_l3Pri = l3Pri, mg_mbPri = mbPri\<rparr>"

definition createGroupDir :: "'w os \<Rightarrow> mpam_group \<Rightarrow> 'w \<Rightarrow> 'w \<times> unit go" where
  "createGroupDir os g w =
     (case os_mkdir os w (mg_dir g) of
        (w1, Done _) \<Rightarrow> (w1, Ok ())
      | (w1, Fail e) \<Rightarrow>
          (w1, if os_IsExist e then Ok ()
               else Err (''failed to create cache limit directory: '' @ error_text e)))"

section \<open>Reading the cache IDs\<close>

text \<open>
  The first line with the prefix; the values after its first colon; of each value between
  semicolons the number before the equals sign. What does not parse is skipped.
\<close>

definition find_l3pri :: "string list \<Rightarrow> string" where
  "find_l3pri ls = (case find (\<lambda>l. strings_HasPrefix l ''L3PRI:'') ls of Some l \<Rightarrow> l | None \<Rightarrow> [])"

definition part_id :: "string \<Rightarrow> int option" where
  "part_id part =
     (if part = [] then None
      else (let kv = strings_Split part (CHR ''='')
            in if length kv < 2 then None
               else (case strconv_Atoi (kv ! 0) of Ok i \<Rightarrow> Some i | _ \<Rightarrow> None)))"

definition parse_l3_ids :: "string \<Rightarrow> int list go" where
  "parse_l3_ids content =
     (let line = find_l3pri (fst (bufio_Scan content))
      in if line = [] then Err ''L3PRI line not found''
         else (let values = strings_SplitN2 line (CHR '':'')
               in if length values < 2 then Err ''invalid L3PRI format''
                  else Ok (List.map_filter part_id (strings_Split (values ! 1) (CHR '';'')))))"

definition GetL3IdFromFile :: "'w os \<Rightarrow> mpam_group \<Rightarrow> 'w \<Rightarrow> int list go" where
  "GetL3IdFromFile os g w =
     (case os_read os w (filepath_Join [mg_dir g, schemata_name]) of
        Fail e \<Rightarrow> Err (error_text e)
      | Done (content, _) \<Rightarrow> parse_l3_ids content)"

text \<open>\<^verbatim>\<open>l3idCache\<close>, empty at first, goes in and out.\<close>

definition GetL3Id :: "'w os \<Rightarrow> mpam_group \<Rightarrow> 'w \<Rightarrow> int list \<Rightarrow> int list \<times> int list go" where
  "GetL3Id os g w cache =
     (if cache = []
      then (case GetL3IdFromFile os g w of
              Ok ids \<Rightarrow> (ids, Ok ids)
            | r \<Rightarrow> (cache, r))
      else (cache, Ok cache))"

section \<open>Writing the priorities\<close>

definition pri_item :: "int \<Rightarrow> int \<Rightarrow> string" where
  "pri_item i pri = strconv_Itoa i @ ''='' @ strconv_Itoa pri"

definition schemata_content :: "int list \<Rightarrow> int \<Rightarrow> int \<Rightarrow> string" where
  "schemata_content ids l3Pri mbPri =
     ''L3PRI:'' @ strings_Join (map (\<lambda>i. pri_item i l3Pri) ids) '';'' @ [CHR 0x0A] @
     ''MBPRI:'' @ strings_Join (map (\<lambda>k. pri_item (int k) mbPri) [0..<length ids]) '';'' @ [CHR 0x0A]"

definition SetGroupQos ::
    "'w os \<Rightarrow> mpam_group \<Rightarrow> 'w \<times> int list \<Rightarrow> ('w \<times> int list) \<times> unit go" where
  "SetGroupQos os g = (\<lambda>(w, cache).
     (case createGroupDir os g w of
        (w1, Ok _) \<Rightarrow>
          (let file = filepath_Join [mg_dir g, schemata_name]
           in (case GetL3Id os g w1 cache of
                 (cache1, Ok ids) \<Rightarrow>
                   (let content = schemata_content ids (mg_l3Pri g) (mg_mbPri g);
                        (w2, r) = WriteFile os file content w1
                    in ((w2, cache1), go_wrap (\<lambda>e.
                         ''failed to write '' @ content @ '' to file '' @ file @ '': '' @ e) r))
               | (cache1, Err e) \<Rightarrow> ((w1, cache1), Err e)
               | (cache1, Panic p) \<Rightarrow> ((w1, cache1), Panic p)))
      | (w1, r) \<Rightarrow> ((w1, cache), r)))"

section \<open>The schemata line is an integer list\<close>

text \<open>
  Each part of an L3 line is printed by \<open>pri_item\<close> and read by \<open>part_id\<close>.
\<close>

lemma strconv_Itoa_not_in:
  "\<not> is_digit c \<Longrightarrow> c \<noteq> CHR ''-'' \<Longrightarrow> c \<notin> set (strconv_Itoa i)"
  using strconv_Itoa_chars by blast


lemma part_id_pri_item:
  assumes "int64_range i"
  shows "part_id (pri_item i pri) = Some i"
proof -
  have "CHR ''='' \<notin> set (strconv_Itoa j)" for j by (simp add: strconv_Itoa_not_in)
  then have "strings_Split (strings_Join [strconv_Itoa i, strconv_Itoa pri] [CHR ''='']) (CHR ''='') =
      [strconv_Itoa i, strconv_Itoa pri]"
    by (intro strings_Split_Join) auto
  then have "strings_Split (pri_item i pri) (CHR ''='') = [strconv_Itoa i, strconv_Itoa pri]"
    by (simp add: pri_item_def)
  then show ?thesis
    using assms by (simp add: part_id_def Let_def strconv_Atoi_Itoa int64_range_def) (simp add: pri_item_def)
qed

lemma semicolon_not_in_item: "CHR '';'' \<notin> set (pri_item i pri)"
  by (simp add: pri_item_def strconv_Itoa_not_in)

text \<open>One codec per priority that is printed.\<close>

interpretation l3_list: list_codec "\<lambda>i. pri_item i pri" part_id int64_range Some "CHR '';''"
  for pri
  by unfold_locales (simp_all add: part_id_pri_item semicolon_not_in_item)

end
