(* ===== verification/OsSample.thy ===== *)
theory OsSample
  imports OsFiles GoPrelude
begin

text \<open>
  A concrete operating system: directories and files in maps, and a resctrl file system in which
  a new group directory gets a schemata file. It instantiates the system calls wherever a
  property is applied to a concrete case. For the moving of processes there is a second one, whose
  groups list processes: a process that is written to one group leaves the others.
\<close>

record sample_fs =
  fs_dirs :: "(string \<times> file_info list) list"
  fs_files :: "(string \<times> string) list"

definition sample_os :: "sample_fs os" where
  "sample_os =
     \<lparr>os_lstat = (\<lambda>w p. if map_of (fs_dirs w) p \<noteq> None then Done True
                       else if map_of (fs_files w) p \<noteq> None then Done False else Fail NotExist),
      os_readdir = (\<lambda>w p. case map_of (fs_dirs w) p of Some fis \<Rightarrow> Done fis | None \<Rightarrow> Fail NotExist),
      os_read = (\<lambda>w p. case map_of (fs_files w) p of Some s \<Rightarrow> Done (s, None) | None \<Rightarrow> Fail NotExist),
      os_write = (\<lambda>w p s. (w\<lparr>fs_files := AList.update p s (fs_files w)\<rparr>, Done ())),
      os_mkdir = (\<lambda>w p. if map_of (fs_dirs w) p \<noteq> None then (w, Fail Exist)
        else (w\<lparr>fs_dirs := AList.update p [] (fs_dirs w),
                fs_files := AList.update (p @ ''/schemata'') ''L3PRI:2=3;66=3'' (fs_files w)\<rparr>, Done ())),
      os_remove = (\<lambda>w p. (w\<lparr>fs_dirs := AList.delete p (fs_dirs w)\<rparr>, Done ())),
      os_writable = (\<lambda>w p. if map_of (fs_files w) p = None then Fail NotExist else Done ()),
      os_put = (\<lambda>w p s. case map_of (fs_files w) p of
          None \<Rightarrow> (w, Fail NotExist)
        | Some old \<Rightarrow> (w\<lparr>fs_files := AList.update p (old @ s @ [CHR 0x0A]) (fs_files w)\<rparr>, Done ()))\<rparr>"

section \<open>Groups of processes\<close>

record resctrl_world =
  rw_fs :: sample_fs
  rw_live :: "string list"
  rw_groups :: "(string \<times> string list) list"

text \<open>One process ID per line.\<close>

definition tasks_content :: "string list \<Rightarrow> string" where
  "tasks_content pids = strings_Join (pids @ [[]]) [CHR 0x0A]"

definition move_process :: "string \<Rightarrow> string \<Rightarrow> (string \<times> string list) list \<Rightarrow> (string \<times> string list) list" where
  "move_process f pid = map (\<lambda>(g, pids). (g, if g = f then removeAll pid pids @ [pid] else removeAll pid pids))"

text \<open>
  What is not a number is refused; so is a number that is no process. The tasks files of the groups
  shadow what the file system has under their paths.
\<close>

definition resctrl_os :: "resctrl_world os" where
  "resctrl_os =
     \<lparr>os_lstat = (\<lambda>w p. if p \<in> fst ` set (rw_groups w) then Done False else os_lstat sample_os (rw_fs w) p),
      os_readdir = (\<lambda>w. os_readdir sample_os (rw_fs w)),
      os_read = (\<lambda>w p. case map_of (rw_groups w) p of Some pids \<Rightarrow> Done (tasks_content pids, None)
                       | None \<Rightarrow> os_read sample_os (rw_fs w) p),
      os_write = (\<lambda>w p s. (w, Fail (OtherError ''permission denied''))),
      os_mkdir = (\<lambda>w p. (w, Fail Exist)), os_remove = (\<lambda>w p. (w, Fail NotExist)),
      os_writable = (\<lambda>w p. if p \<in> fst ` set (rw_groups w) then Done () else os_writable sample_os (rw_fs w) p),
      os_put = (\<lambda>w p s.
        if p \<notin> fst ` set (rw_groups w) then (w, Fail (OtherError ''not a group''))
        else if \<not> go_is_ok (strconv_Atoi s) then (w, Fail (OtherError ''invalid argument''))
        else if s \<notin> set (rw_live w) then (w, Fail NoSuchProcess)
        else (w\<lparr>rw_groups := move_process p s (rw_groups w)\<rparr>, Done ()))\<rparr>"

text \<open>The states that the writes can lead to: the same files, processes and groups.\<close>

definition same_groups :: "resctrl_world \<Rightarrow> resctrl_world \<Rightarrow> bool" where
  "same_groups w0 w \<longleftrightarrow> rw_fs w = rw_fs w0 \<and> rw_live w = rw_live w0 \<and> map fst (rw_groups w) = map fst (rw_groups w0)"

lemma same_groups_refl: "same_groups w w"
  by (simp add: same_groups_def)

lemma same_groups_names: "same_groups w0 w \<Longrightarrow> fst ` set (rw_groups w) = fst ` set (rw_groups w0)"
  unfolding same_groups_def by (metis list.set_map)

lemma move_process_names [simp]: "map fst (move_process f pid gs) = map fst gs"
  by (auto simp: move_process_def)

lemma resctrl_os_put_groups: "same_groups w0 w \<Longrightarrow> same_groups w0 (fst (os_put resctrl_os w f s))"
  by (simp add: resctrl_os_def same_groups_def)

lemma resctrl_os_calls:
  "os_lstat resctrl_os w = (\<lambda>p. if p \<in> fst ` set (rw_groups w) then Done False else os_lstat sample_os (rw_fs w) p)"
  "os_readdir resctrl_os w = os_readdir sample_os (rw_fs w)"
  "os_read resctrl_os w p = (case map_of (rw_groups w) p of Some pids \<Rightarrow> Done (tasks_content pids, None)
     | None \<Rightarrow> os_read sample_os (rw_fs w) p)"
  by (simp_all add: resctrl_os_def)

lemma resctrl_os_put_keeps:
  assumes "same_groups w0 w"
  shows "same_groups w0 (fst (os_put resctrl_os w f s))"
    and "os_readdir resctrl_os (fst (os_put resctrl_os w f s)) = os_readdir resctrl_os w"
    and "os_lstat resctrl_os (fst (os_put resctrl_os w f s)) = os_lstat resctrl_os w"
    and "p \<notin> fst ` set (rw_groups w0) \<Longrightarrow>
      os_read resctrl_os (fst (os_put resctrl_os w f s)) p = os_read resctrl_os w p"
proof -
  let ?w = "fst (os_put resctrl_os w f s)"
  show same: "same_groups w0 ?w" by (rule resctrl_os_put_groups [OF assms])
  have eq: "rw_fs ?w = rw_fs w" "fst ` set (rw_groups ?w) = fst ` set (rw_groups w)"
    using assms same same_groups_names by (metis same_groups_def)+
  show "os_readdir resctrl_os ?w = os_readdir resctrl_os w" "os_lstat resctrl_os ?w = os_lstat resctrl_os w"
    unfolding resctrl_os_calls eq by (rule refl)+
  show "os_read resctrl_os ?w p = os_read resctrl_os w p" if "p \<notin> fst ` set (rw_groups w0)"
  proof -
    have "map_of (rw_groups ?w) p = None" "map_of (rw_groups w) p = None"
      using that same_groups_names [OF same] same_groups_names [OF assms] by (simp_all add: map_of_eq_None_iff)
    then show ?thesis unfolding resctrl_os_calls eq(1) by simp
  qed
qed

text \<open>IDs that read back line by line.\<close>

definition plain_line :: "string \<Rightarrow> bool" where
  "plain_line l \<longleftrightarrow> l \<noteq> [] \<and> CHR 0x0A \<notin> set l \<and> last l \<noteq> CHR 0x0D \<and> int (length l) \<le> scan_token_max"

definition plain_groups :: "resctrl_world \<Rightarrow> bool" where
  "plain_groups w \<longleftrightarrow> list_all (\<lambda>(f, pids). list_all plain_line pids) (rw_groups w)"

lemma scan_tasks:
  assumes "\<forall>p \<in> set pids. plain_line p"
  shows "bufio_Scan (tasks_content pids) = (pids, False)"
proof -
  have "strings_Split (tasks_content pids) (CHR 0x0A) = pids @ [[]]"
    unfolding tasks_content_def using assms by (intro strings_Split_Join) (auto simp: plain_line_def)
  then have raw: "raw_lines (tasks_content pids) = pids" by (simp add: raw_lines_def)
  have short: "takeWhile (\<lambda>l. int (length l) \<le> scan_token_max) pids = pids"
    using assms by (simp add: takeWhile_eq_all_conv plain_line_def)
  have "map drop_cr pids = pids"
    using assms by (intro map_idI) (auto simp: drop_cr_def plain_line_def)
  then show ?thesis unfolding bufio_Scan_def Let_def raw short by simp
qed

lemma map_of_move_process:
  "map_of (move_process f pid gs) g =
     map_option (\<lambda>pids. if g = f then removeAll pid pids @ [pid] else removeAll pid pids) (map_of gs g)"
  by (induction gs) (auto simp: move_process_def)

lemma plain_groups_put:
  assumes "plain_groups w" and "\<forall>pid \<in> set (rw_live w). plain_line pid"
  shows "plain_groups (fst (os_put resctrl_os w f s))"
proof -
  have "list_all (\<lambda>(f, pids). list_all plain_line pids) (move_process f s (rw_groups w))" if "plain_line s"
    using assms(1) that by (fastforce simp: plain_groups_def move_process_def list_all_iff split: if_split_asm)
  then show ?thesis using assms by (auto simp: resctrl_os_def plain_groups_def)
qed

end
