(* ===== verification/ResctrlGroupProps.thy ===== *)
theory ResctrlGroupProps
  imports ResctrlGroup OsSample
begin

text \<open>
  What a group writes can be read back, and what setting the priorities of a group does to the
  file system and to the cache of IDs.
\<close>

section \<open>Round trip\<close>

lemma items_no_char:
  assumes "\<not> is_digit c" and "c \<noteq> CHR ''-''" and "c \<noteq> CHR ''=''" and "c \<noteq> CHR '';''"
  shows "c \<notin> set (strings_Join (map (\<lambda>i. pri_item (f i) pri) xs) '';'')"
proof
  assume "c \<in> set (strings_Join (map (\<lambda>i. pri_item (f i) pri) xs) '';'')"
  moreover have "c \<notin> set (pri_item j pri)" for j
    using assms by (simp add: pri_item_def strconv_Itoa_not_in)
  ultimately show False
    using strings_Join_chars [of "map (\<lambda>i. pri_item (f i) pri) xs" "'';''"] assms(4) by auto
qed

lemma control_not_digit: "\<not> is_digit (CHR 0x0A)" "\<not> is_digit (CHR 0x0D)"
  by code_simp+

lemma map_filter_all: "map f xs = map Some ys \<Longrightarrow> List.map_filter f xs = ys"
  by (induction xs arbitrary: ys) (auto simp: List.map_filter_simps)

lemma raw_lines_two:
  assumes "CHR 0x0A \<notin> set a" and "CHR 0x0A \<notin> set b"
  shows "raw_lines (a @ CHR 0x0A # b @ [CHR 0x0A]) = [a, b]"
proof -
  have "strings_Split (strings_Join [a, b, []] [CHR 0x0A]) (CHR 0x0A) = [a, b, []]"
    by (rule strings_Split_Join) (use assms in auto)
  then show ?thesis by (simp add: raw_lines_def)
qed

lemma drop_cr_items: "drop_cr (''L3PRI:'' @ strings_Join (map (\<lambda>i. pri_item i pri) ids) '';'') =
    ''L3PRI:'' @ strings_Join (map (\<lambda>i. pri_item i pri) ids) '';''"
proof -
  have "CHR 0x0D \<notin> set (''L3PRI:'' @ strings_Join (map (\<lambda>i. pri_item i pri) ids) '';'')"
    using items_no_char [OF control_not_digit(2), of id pri ids] by simp
  then show ?thesis unfolding drop_cr_def by (metis last_in_set)
qed

text \<open>
  C27: the schemata text a group writes is read back to the same cache IDs, whatever the
  priorities, as long as its first line fits the scanner's 64 KiB.
\<close>

theorem parse_schemata_content:
  assumes "\<forall>i \<in> set ids. int64_range i"
    and "int (length (''L3PRI:'' @ strings_Join (map (\<lambda>i. pri_item i l3) ids) '';'')) \<le> scan_token_max"
  shows "parse_l3_ids (schemata_content ids l3 mb) = Ok ids"
proof -
  let ?join = "strings_Join (map (\<lambda>i. pri_item i l3) ids) '';''"
  let ?mb = "''MBPRI:'' @ strings_Join (map (\<lambda>k. pri_item (int k) mb) [0..<length ids]) '';''"
  have nl: "CHR 0x0A \<notin> set (''L3PRI:'' @ ?join)" "CHR 0x0A \<notin> set ?mb"
    using items_no_char [OF control_not_digit(1), of id l3 ids]
      items_no_char [OF control_not_digit(1), of int mb "[0..<length ids]"] by simp_all
  have "schemata_content ids l3 mb = (''L3PRI:'' @ ?join) @ CHR 0x0A # ?mb @ [CHR 0x0A]"
    by (simp add: schemata_content_def)
  then have "raw_lines (schemata_content ids l3 mb) = [''L3PRI:'' @ ?join, ?mb]"
    by (simp only: raw_lines_two [OF nl])
  then have "\<exists>rest. fst (bufio_Scan (schemata_content ids l3 mb)) = (''L3PRI:'' @ ?join) # rest"
    using assms(2) drop_cr_items by (auto simp: bufio_Scan_def Let_def)
  then have line: "find_l3pri (fst (bufio_Scan (schemata_content ids l3 mb))) = ''L3PRI:'' @ ?join"
    by (auto simp: find_l3pri_def strings_HasPrefix_def)
  have split: "strings_SplitN2 (''L3PRI:'' @ ?join) (CHR '':'') = [''L3PRI'', ?join]"
    by (simp add: strings_SplitN2_def)
  have parts: "List.map_filter part_id (strings_Split ?join (CHR '';'')) = ids"
  proof (cases "ids = []")
    case True
    then show ?thesis by (simp add: strings_Split_def part_id_def List.map_filter_simps)
  next
    case False
    have "map part_id (strings_Split ?join (CHR '';'')) = map Some ids"
      using assms(1) by (intro l3_list.parse_joined [OF False]) auto
    then show ?thesis by (rule map_filter_all)
  qed
  show ?thesis by (simp only: parse_l3_ids_def line split Let_def) (simp add: parts)
qed

lemma parse_schemata_content_witness:
  "parse_l3_ids (schemata_content [2, 66, 130] 3 (-1)) = Ok [2, 66, 130]"
  by (rule parse_schemata_content) code_simp+

section \<open>Setting the priorities\<close>

text \<open>
  Setting the priorities of a group makes its directory if needed and writes its schemata
  file once, with one L3 and one bandwidth value per cache: the IDs of the cache in the package
  when there are any, else those of the group's own file, which are cached from then on; if they
  cannot be read nothing is written.
\<close>

theorem SetGroupQos_writes:
  assumes "os_mkdir os w (mg_dir g) = (w1, r)" and "r = Done () \<or> r = Fail Exist"
  shows "SetGroupQos os g (w, cache) =
    (let file = filepath_Join [mg_dir g, ''schemata'']
     in case (if cache \<noteq> [] then Ok cache else GetL3IdFromFile os g w1) of
          Ok ids \<Rightarrow>
            (let content = schemata_content ids (mg_l3Pri g) (mg_mbPri g)
             in ((fst (WriteFile os file content w1), ids),
                 go_wrap (\<lambda>e. ''failed to write '' @ content @ '' to file '' @ file @ '': '' @ e)
                   (snd (WriteFile os file content w1))))
        | Err e \<Rightarrow> ((w1, []), Err e)
        | Panic p \<Rightarrow> ((w1, []), Panic p))"
proof -
  have dir: "createGroupDir os g w = (w1, Ok ())"
    using assms by (auto simp: createGroupDir_def os_IsExist_def)
  show ?thesis
  proof (cases "cache = []")
    case True
    then show ?thesis
      by (cases "GetL3IdFromFile os g w1")
        (simp_all add: SetGroupQos_def dir GetL3Id_def schemata_name_def Let_def split_beta del: append.simps)
  next
    case False
    then show ?thesis
      by (simp add: SetGroupQos_def dir GetL3Id_def schemata_name_def Let_def split_beta del: append.simps)
  qed
qed

lemma SetGroupQos_writes_witness:
  "SetGroupQos sample_os (NewMpamResCtrlGroup ''/sys/fs/resctrl'' ''gold'' 1 2)
     (\<lparr>fs_dirs = [], fs_files = []\<rparr>, []) =
   ((\<lparr>fs_dirs = [(''/sys/fs/resctrl/gold'', [])],
      fs_files = [(''/sys/fs/resctrl/gold/schemata'',
        ''L3PRI:2=1;66=1'' @ [CHR 0x0A] @ ''MBPRI:0=2;1=2'' @ [CHR 0x0A])]\<rparr>, [2, 66]), Ok ())"
proof -
  let ?g = "NewMpamResCtrlGroup ''/sys/fs/resctrl'' ''gold'' 1 2"
  have h: "os_mkdir sample_os \<lparr>fs_dirs = [], fs_files = []\<rparr> (mg_dir ?g) =
      (\<lparr>fs_dirs = [(''/sys/fs/resctrl/gold'', [])],
        fs_files = [(''/sys/fs/resctrl/gold/schemata'', ''L3PRI:2=3;66=3'')]\<rparr>, Done ())"
    by code_simp
  show ?thesis
    unfolding SetGroupQos_writes [OF h disjI1 [OF refl]] by code_simp
qed

end
