(* ===== verification/ResctrlTasks.thy ===== *)
theory ResctrlTasks
  imports OsFiles PodCache
begin

text \<open>
  \<open>pkg/resctrl/resctrl_operator.go\<close>: the processes of the cached pods are moved into their
  control groups. The cgroup tree is searched for directories named after the pod's UID, and the
  process IDs of every tasks file below are written to the tasks file of the group.

  The recursion over the tree is the code's; as nothing in the code bounds it, it takes the depth
  it may reach as an argument, and answers \<open>None\<close> when the tree is deeper.
\<close>

definition TasksFileName :: string where
  "TasksFileName = ''tasks''"

definition CgroupCpusetRootPath :: string where
  "CgroupCpusetRootPath = ''/sys/fs/cgroup/cpuset/''"

section \<open>Process IDs\<close>

text \<open>
  The lines of a tasks file; an error while reading drops what was read before, and its text is
  not that of the scanner but of the \<^verbatim>\<open>err\<close> of the open, which is nil. A file that cannot be
  opened is an error too.
\<close>

definition ReadPids :: "'w os \<Rightarrow> string \<Rightarrow> 'w \<Rightarrow> string list go" where
  "ReadPids os tasksFile w =
     (case os_read os w tasksFile of
        Fail e \<Rightarrow> Err (''failed to open '' @ quoted tasksFile @ '': '' @ error_text e)
      | Done (content, e) \<Rightarrow>
          (let (lines, toolong) = bufio_Scan content
           in if e \<noteq> None \<or> toolong then Err (''failed to read '' @ quoted tasksFile @ '': <nil>'')
              else Ok lines))"

text \<open>One write per process; a process that is gone is skipped, any other error ends the loop.\<close>

fun write_pids :: "'w os \<Rightarrow> string \<Rightarrow> string list \<Rightarrow> 'w \<Rightarrow> 'w \<times> unit go" where
  "write_pids os file [] w = (w, Ok ())"
| "write_pids os file (pid # pids) w =
     (case os_put os w file pid of
        (w1, Done _) \<Rightarrow> write_pids os file pids w1
      | (w1, Fail e) \<Rightarrow>
          (if e \<noteq> NoSuchProcess then (w1, Err (error_text e)) else write_pids os file pids w1))"

definition WritePids :: "'w os \<Rightarrow> string \<Rightarrow> string list \<Rightarrow> 'w \<Rightarrow> 'w \<times> unit go" where
  "WritePids os tasksFile pids w =
     (case os_writable os w tasksFile of
        Fail e \<Rightarrow> (w, Err (error_text e))
      | Done _ \<Rightarrow> write_pids os tasksFile pids w)"

section \<open>The cgroup tree\<close>

text \<open>
  The tasks file of one directory; every error is dropped.
\<close>

definition move_tasks :: "'w os \<Rightarrow> string \<Rightarrow> string \<Rightarrow> string \<Rightarrow> 'w \<Rightarrow> 'w" where
  "move_tasks os root dir rcgroup w =
     (let path = filepath_Join [dir, TasksFileName]
      in if (case os_lstat os w path of Done _ \<Rightarrow> True | Fail e \<Rightarrow> os_IsExist e)
         then (case ReadPids os path w of
                 Ok pids \<Rightarrow> fst (WritePids os (filepath_Join [root, rcgroup, TasksFileName]) pids w)
               | _ \<Rightarrow> w)
         else w)"

text \<open>A loop over directory entries whose body may run out of depth.\<close>

fun for_entries :: "(file_info \<Rightarrow> 'w \<Rightarrow> 'w option) \<Rightarrow> file_info list \<Rightarrow> 'w \<Rightarrow> 'w option" where
  "for_entries body [] w = Some w"
| "for_entries body (fi # fis) w =
     (case body fi w of None \<Rightarrow> None | Some w1 \<Rightarrow> for_entries body fis w1)"

lemma for_entries_cong [fundef_cong]:
  assumes "fis = fis'" and "w = w'" and "\<And>fi v. fi \<in> set fis' \<Longrightarrow> f fi v = g fi v"
  shows "for_entries f fis w = for_entries g fis' w'"
proof -
  have "for_entries f fis' w' = for_entries g fis' w'"
    using assms(3) by (induction fis' arbitrary: w') (auto split: option.split)
  with assms(1,2) show ?thesis by simp
qed

fun assignMPAMControlGroup ::
    "nat \<Rightarrow> 'w os \<Rightarrow> string \<Rightarrow> string \<Rightarrow> string \<Rightarrow> 'w \<Rightarrow> 'w option" where
  "assignMPAMControlGroup 0 os root dir rcgroup w = None"
| "assignMPAMControlGroup (Suc depth) os root dir rcgroup w =
     (case os_readdir os w dir of
        Fail _ \<Rightarrow> Some w
      | Done fis \<Rightarrow>
          for_entries (\<lambda>fi w. if fi_dir fi
              then assignMPAMControlGroup depth os root (filepath_Join [dir, fi_name fi]) rcgroup w
              else Some w)
            fis (move_tasks os root dir rcgroup w))"

fun findPodAndAssign ::
    "nat \<Rightarrow> 'w os \<Rightarrow> string \<Rightarrow> string \<Rightarrow> string \<Rightarrow> string \<Rightarrow> 'w \<Rightarrow> 'w option" where
  "findPodAndAssign 0 os root dir uid rcgroup w = None"
| "findPodAndAssign (Suc depth) os root dir uid rcgroup w =
     (case os_readdir os w dir of
        Fail _ \<Rightarrow> Some w
      | Done fis \<Rightarrow>
          for_entries (\<lambda>fi w. if \<not> fi_dir fi then Some w
              else if strings_Contains (fi_name fi) uid
              then assignMPAMControlGroup depth os root (filepath_Join [dir, fi_name fi]) rcgroup w
              else findPodAndAssign depth os root (filepath_Join [dir, fi_name fi]) uid rcgroup w)
            fis w)"

text \<open>First the UID with underscores for dashes, then as it is.\<close>

definition AssignControlGroup ::
    "nat \<Rightarrow> 'w os \<Rightarrow> string \<Rightarrow> string \<Rightarrow> string \<Rightarrow> 'w \<Rightarrow> 'w option" where
  "AssignControlGroup depth os root uid rcgroup w =
     (case findPodAndAssign depth os root CgroupCpusetRootPath
             (strings_ReplaceAll uid (CHR ''-'') (CHR ''_'')) rcgroup w of
        None \<Rightarrow> None
      | Some w1 \<Rightarrow> findPodAndAssign depth os root CgroupCpusetRootPath uid rcgroup w1)"

section \<open>All pods\<close>

text \<open>
  The goroutines of \<open>SyncResCtrlGroupTasks\<close>, one per listed pod, in one of the orders in which
  they may run one after the other; the pods are those of a list of the cache.
\<close>

fun sync_pods :: "nat \<Rightarrow> 'w os \<Rightarrow> string \<Rightarrow> store \<Rightarrow> nat option list \<Rightarrow> 'w \<Rightarrow> 'w go option" where
  "sync_pods depth os root st [] w = Some (Ok w)"
| "sync_pods depth os root st (None # ps) w = Some (Panic NilDereference)"
| "sync_pods depth os root st (Some a # ps) w =
     (let p = st_pods st ! a
      in case AssignControlGroup depth os root (pi_uid p) (ResCtrlGroup st p) w of
           None \<Rightarrow> None
         | Some w1 \<Rightarrow> sync_pods depth os root st ps w1)"

definition SyncResCtrlGroupTasks ::
    "nat \<Rightarrow> 'w os \<Rightarrow> string \<Rightarrow> orders \<Rightarrow> ((string \<times> nat option) list \<Rightarrow> (string \<times> nat option) list) \<Rightarrow>
     store \<times> pod_cache \<Rightarrow> 'w \<Rightarrow> 'w go option" where
  "SyncResCtrlGroupTasks depth os root orders schedule = (\<lambda>(st, c) w.
     let (pods, st1) = ListPod orders c st
     in sync_pods depth os root st1 (map snd (schedule pods)) w)"

end
