(* ===== verification/ResctrlTasksProps.thy ===== *)
theory ResctrlTasksProps
  imports ResctrlTasks OsSample
begin

text \<open>
  Which processes are moved. Writing a process ID to the tasks file of a group moves the process,
  so the tasks files of the other groups change with it. What the search rests on is that such a
  write leaves alone what the search reads: the directories, and the tasks files of the cgroup
  tree, which is another file system. Then
  the search is a list of directories of the first state, and their processes are written one
  directory after the other. No pod of the cache has the empty UID, which would match them all.
\<close>

section \<open>The directories of a search\<close>

text \<open>
  \<open>files\<close> are tasks files of groups, \<open>reads\<close> paths whose content does not depend on the groups, and
  \<open>ok\<close> are the states in which the groups exist; nothing is said of any other state or file.
\<close>

definition keeps_dirs :: "'w os \<Rightarrow> string set \<Rightarrow> ('w \<Rightarrow> bool) \<Rightarrow> bool" where
  "keeps_dirs os files ok \<longleftrightarrow> (\<forall>w s. ok w \<longrightarrow> (\<forall>f \<in> files.
     ok (fst (os_put os w f s)) \<and> os_readdir os (fst (os_put os w f s)) = os_readdir os w))"

definition tree_stable :: "'w os \<Rightarrow> string set \<Rightarrow> string set \<Rightarrow> ('w \<Rightarrow> bool) \<Rightarrow> bool" where
  "tree_stable os files reads ok \<longleftrightarrow> keeps_dirs os files ok \<and> (\<forall>w s. ok w \<longrightarrow> (\<forall>f \<in> files.
     os_lstat os (fst (os_put os w f s)) = os_lstat os w
     \<and> (\<forall>p \<in> reads. os_read os (fst (os_put os w f s)) p = os_read os w p)))"

text \<open>All directories below and including one that can be read, parents first.\<close>

fun subtree :: "nat \<Rightarrow> 'w os \<Rightarrow> 'w \<Rightarrow> string \<Rightarrow> string list option" where
  "subtree 0 os w dir = None"
| "subtree (Suc depth) os w dir =
     (case os_readdir os w dir of
        Fail _ \<Rightarrow> Some []
      | Done fis \<Rightarrow> map_option (\<lambda>dss. dir # concat dss)
          (those (map (\<lambda>fi. subtree depth os w (filepath_Join [dir, fi_name fi])) (filter fi_dir fis))))"

text \<open>The subtrees of the topmost directories whose name contains the UID.\<close>

fun targets :: "nat \<Rightarrow> 'w os \<Rightarrow> 'w \<Rightarrow> string \<Rightarrow> string \<Rightarrow> string list option" where
  "targets 0 os w dir uid = None"
| "targets (Suc depth) os w dir uid =
     (case os_readdir os w dir of
        Fail _ \<Rightarrow> Some []
      | Done fis \<Rightarrow> map_option concat
          (those (map (\<lambda>fi. if strings_Contains (fi_name fi) uid
               then subtree depth os w (filepath_Join [dir, fi_name fi])
               else targets depth os w (filepath_Join [dir, fi_name fi]) uid) (filter fi_dir fis))))"

definition tasks_of :: "string \<Rightarrow> string" where
  "tasks_of dir = filepath_Join [dir, TasksFileName]"

definition group_file :: "string \<Rightarrow> string \<Rightarrow> string" where
  "group_file root rcgroup = filepath_Join [root, rcgroup, TasksFileName]"

text \<open>The processes of a directory, if its tasks file can be read, and what is done with them.\<close>

definition dir_pids :: "'w os \<Rightarrow> 'w \<Rightarrow> string \<Rightarrow> string list option" where
  "dir_pids os w dir =
     (if (case os_lstat os w (tasks_of dir) of Done _ \<Rightarrow> True | Fail e \<Rightarrow> os_IsExist e)
      then (case ReadPids os (tasks_of dir) w of Ok pids \<Rightarrow> Some pids | _ \<Rightarrow> None)
      else None)"

definition write_dirs :: "'w os \<Rightarrow> string \<Rightarrow> 'w \<Rightarrow> string list \<Rightarrow> 'w \<Rightarrow> 'w" where
  "write_dirs os file w0 dirs w =
     fold (\<lambda>d w. case dir_pids os w0 d of Some pids \<Rightarrow> fst (WritePids os file pids w) | None \<Rightarrow> w) dirs w"

section \<open>Writes do not disturb the search\<close>

text \<open>A later state in which the search reads the same.\<close>

definition same_reads :: "'w os \<Rightarrow> string set \<Rightarrow> ('w \<Rightarrow> bool) \<Rightarrow> 'w \<Rightarrow> 'w \<Rightarrow> bool" where
  "same_reads os reads ok w w' \<longleftrightarrow> ok w' \<and> os_readdir os w' = os_readdir os w \<and> os_lstat os w' = os_lstat os w
     \<and> (\<forall>p \<in> reads. os_read os w' p = os_read os w p)"

lemma same_reads_refl: "ok w \<Longrightarrow> same_reads os reads ok w w"
  by (simp add: same_reads_def)

lemma same_reads_put:
  "tree_stable os files reads ok \<Longrightarrow> f \<in> files \<Longrightarrow> same_reads os reads ok w0 w \<Longrightarrow>
     same_reads os reads ok w0 (fst (os_put os w f s))"
  by (simp add: tree_stable_def keeps_dirs_def same_reads_def)

lemma same_reads_write_pids:
  assumes "tree_stable os files reads ok" and "f \<in> files"
  shows "same_reads os reads ok w0 w \<Longrightarrow> same_reads os reads ok w0 (fst (write_pids os f pids w))"
proof (induction pids arbitrary: w)
  case (Cons pid pids)
  obtain w1 r where put: "os_put os w f pid = (w1, r)" by fastforce
  have "same_reads os reads ok w0 w1" using same_reads_put [OF assms Cons.prems, of pid] by (simp add: put)
  with Cons.IH show ?case by (simp add: put split: os_result.split)
qed simp

lemma same_reads_WritePids:
  "tree_stable os files reads ok \<Longrightarrow> f \<in> files \<Longrightarrow> same_reads os reads ok w0 w \<Longrightarrow>
     same_reads os reads ok w0 (fst (WritePids os f pids w))"
  by (simp add: WritePids_def same_reads_write_pids split: os_result.split)

lemma same_reads_pids:
  assumes "same_reads os reads ok w w'" and "tasks_of d \<in> reads"
  shows "dir_pids os w' d = dir_pids os w d"
  using assms by (simp add: dir_pids_def ReadPids_def same_reads_def)

lemma same_reads_write_dirs:
  "tree_stable os files reads ok \<Longrightarrow> f \<in> files \<Longrightarrow> same_reads os reads ok w0 w \<Longrightarrow>
     same_reads os reads ok w0 (write_dirs os f w1 dirs w)"
proof (induction dirs arbitrary: w)
  case (Cons d ds)
  then show ?case
    by (auto simp: write_dirs_def split: option.split intro: same_reads_WritePids)
qed (simp add: write_dirs_def)

lemma move_tasks_eq:
  "move_tasks os root d rcgroup w =
     (case dir_pids os w d of
        Some pids \<Rightarrow> fst (WritePids os (group_file root rcgroup) pids w) | None \<Rightarrow> w)"
  by (simp add: move_tasks_def dir_pids_def tasks_of_def group_file_def Let_def
      split: os_result.split go.split)

text \<open>A loop whose bodies write the directories of their lists writes those of the concatenation.\<close>

lemma for_entries_writes:
  assumes "tree_stable os files reads ok" and "f \<in> files" and "same_reads os reads ok w0 w"
    and "those (map g (filter sel fis)) = Some dss"
    and "\<And>fi ds v. fi \<in> set fis \<Longrightarrow> sel fi \<Longrightarrow> g fi = Some ds \<Longrightarrow> same_reads os reads ok w0 v \<Longrightarrow>
           ds \<in> set dss \<Longrightarrow> body fi v = Some (write_dirs os f w0 ds v)"
    and "\<And>fi v. fi \<in> set fis \<Longrightarrow> \<not> sel fi \<Longrightarrow> body fi v = Some v"
  shows "for_entries body fis w = Some (write_dirs os f w0 (concat dss) w)"
  using assms(3-6)
proof (induction fis arbitrary: w dss)
  case Nil
  then show ?case by (simp add: write_dirs_def)
next
  case (Cons fi fis)
  show ?case
  proof (cases "sel fi")
    case True
    obtain ds rest where g: "g fi = Some ds" "those (map g (filter sel fis)) = Some rest" "dss = ds # rest"
      using Cons.prems(2) True by (auto split: option.splits)
    let ?w = "write_dirs os f w0 ds w"
    have step: "body fi w = Some ?w"
      using Cons.prems(3) [OF _ True g(1) Cons.prems(1)] g(3) by simp
    have "same_reads os reads ok w0 ?w"
      by (rule same_reads_write_dirs [OF assms(1,2) Cons.prems(1)])
    then have "for_entries body fis ?w = Some (write_dirs os f w0 (concat rest) ?w)"
      using Cons.IH g(2,3) Cons.prems(3,4) by (metis list.set_intros(2))
    then show ?thesis by (simp add: step g(3) write_dirs_def)
  next
    case False
    have "for_entries body fis w = Some (write_dirs os f w0 (concat dss) w)"
      by (rule Cons.IH) (use Cons.prems False in auto)
    with False Cons.prems(4) show ?thesis by simp
  qed
qed

lemma those_member: "those xs = Some ys \<Longrightarrow> y \<in> set ys \<Longrightarrow> Some y \<in> set xs"
proof (induction xs arbitrary: ys)
  case (Cons x xs)
  then show ?case by (auto split: option.splits)
qed simp

lemma assign_writes:
  assumes "tree_stable os files reads ok" and "group_file root rcgroup \<in> files"
    and "same_reads os reads ok w0 w"
    and "subtree depth os w0 dir = Some ds"
    and "\<forall>d \<in> set ds. tasks_of d \<in> reads"
  shows "assignMPAMControlGroup depth os root dir rcgroup w =
         Some (write_dirs os (group_file root rcgroup) w0 ds w)"
  using assms(3-5)
proof (induction depth arbitrary: dir w ds)
  case (Suc depth)
  let ?f = "group_file root rcgroup"
  have rd: "os_readdir os w dir = os_readdir os w0 dir" using Suc.prems(1) by (simp add: same_reads_def)
  show ?case
  proof (cases "os_readdir os w0 dir")
    case (Fail e)
    then show ?thesis using Suc.prems(2) by (simp add: rd write_dirs_def)
  next
    case (Done fis)
    let ?sub = "\<lambda>fi. subtree depth os w0 (filepath_Join [dir, fi_name fi])"
    obtain dss where dss: "those (map ?sub (filter fi_dir fis)) = Some dss" "ds = dir # concat dss"
      using Suc.prems(2) Done by auto
    let ?w = "move_tasks os root dir rcgroup w"
    have w: "?w = write_dirs os ?f w0 [dir] w"
      using same_reads_pids [OF Suc.prems(1)] Suc.prems(3) dss(2)
      by (simp add: move_tasks_eq write_dirs_def)
    have same: "same_reads os reads ok w0 ?w"
      unfolding w by (rule same_reads_write_dirs [OF assms(1,2) Suc.prems(1)])
    have "for_entries (\<lambda>fi w. if fi_dir fi
              then assignMPAMControlGroup depth os root (filepath_Join [dir, fi_name fi]) rcgroup w
              else Some w) fis ?w = Some (write_dirs os ?f w0 (concat dss) ?w)"
    proof (rule for_entries_writes [OF assms(1,2) same dss(1)])
      fix fi es v
      assume h: "fi_dir fi" "?sub fi = Some es" "same_reads os reads ok w0 v" "es \<in> set dss"
      have "\<forall>d \<in> set es. tasks_of d \<in> reads" using Suc.prems(3) dss(2) h(4) by auto
      from Suc.IH [OF h(3,2) this] h(1)
      show "(if fi_dir fi then assignMPAMControlGroup depth os root (filepath_Join [dir, fi_name fi]) rcgroup v
              else Some v) = Some (write_dirs os ?f w0 es v)" by simp
    qed simp
    then show ?thesis by (simp add: rd Done w dss(2) write_dirs_def)
  qed
qed simp

lemma find_writes:
  assumes "tree_stable os files reads ok" and "group_file root rcgroup \<in> files"
    and "same_reads os reads ok w0 w"
    and "targets depth os w0 dir uid = Some ds"
    and "\<forall>d \<in> set ds. tasks_of d \<in> reads"
  shows "findPodAndAssign depth os root dir uid rcgroup w =
         Some (write_dirs os (group_file root rcgroup) w0 ds w)"
  using assms(3-5)
proof (induction depth arbitrary: dir w ds)
  case (Suc depth)
  let ?f = "group_file root rcgroup"
  have rd: "os_readdir os w dir = os_readdir os w0 dir" using Suc.prems(1) by (simp add: same_reads_def)
  show ?case
  proof (cases "os_readdir os w0 dir")
    case (Fail e)
    then show ?thesis using Suc.prems(2) by (simp add: rd write_dirs_def)
  next
    case (Done fis)
    let ?path = "\<lambda>fi. filepath_Join [dir, fi_name fi]"
    let ?sub = "\<lambda>fi. if strings_Contains (fi_name fi) uid then subtree depth os w0 (?path fi)
                     else targets depth os w0 (?path fi) uid"
    let ?body = "\<lambda>fi w. if \<not> fi_dir fi then Some w
              else if strings_Contains (fi_name fi) uid
              then assignMPAMControlGroup depth os root (?path fi) rcgroup w
              else findPodAndAssign depth os root (?path fi) uid rcgroup w"
    obtain dss where dss: "those (map ?sub (filter fi_dir fis)) = Some dss" "ds = concat dss"
      using Suc.prems(2) Done by auto
    have "for_entries ?body fis w = Some (write_dirs os ?f w0 (concat dss) w)"
    proof (rule for_entries_writes [OF assms(1,2) Suc.prems(1) dss(1)])
      fix fi es v
      assume h: "fi_dir fi" "?sub fi = Some es" "same_reads os reads ok w0 v" "es \<in> set dss"
      have ok: "\<forall>d \<in> set es. tasks_of d \<in> reads" using Suc.prems(3) dss(2) h(4) by auto
      show "?body fi v = Some (write_dirs os ?f w0 es v)"
      proof (cases "strings_Contains (fi_name fi) uid")
        case True
        then show ?thesis using assign_writes [OF assms(1,2) h(3) _ ok] h(1,2) by simp
      next
        case False
        then show ?thesis using Suc.IH [OF h(3) _ ok] h(1,2) by simp
      qed
    qed simp
    then show ?thesis by (simp add: rd Done dss(2))
  qed
qed simp

section \<open>Which directories these are\<close>

text \<open>
  The readable directories below one, and those below a topmost directory named after the UID.
\<close>

inductive below :: "'w os \<Rightarrow> 'w \<Rightarrow> string \<Rightarrow> string \<Rightarrow> bool" for os w where
  here: "os_readdir os w d = Done fis \<Longrightarrow> below os w d d"
| down: "os_readdir os w d = Done fis \<Longrightarrow> fi \<in> set fis \<Longrightarrow> fi_dir fi \<Longrightarrow>
    below os w (filepath_Join [d, fi_name fi]) e \<Longrightarrow> below os w d e"

inductive named :: "'w os \<Rightarrow> 'w \<Rightarrow> string \<Rightarrow> string \<Rightarrow> string \<Rightarrow> bool" for os w uid where
  hit: "os_readdir os w d = Done fis \<Longrightarrow> fi \<in> set fis \<Longrightarrow> fi_dir fi \<Longrightarrow> strings_Contains (fi_name fi) uid \<Longrightarrow>
    below os w (filepath_Join [d, fi_name fi]) e \<Longrightarrow> named os w uid d e"
| deeper: "os_readdir os w d = Done fis \<Longrightarrow> fi \<in> set fis \<Longrightarrow> fi_dir fi \<Longrightarrow> \<not> strings_Contains (fi_name fi) uid \<Longrightarrow>
    named os w uid (filepath_Join [d, fi_name fi]) e \<Longrightarrow> named os w uid d e"

inductive_simps below_iff: "below os w d e"
inductive_simps named_iff: "named os w uid d e"

lemma those_set:
  "those (map g xs) = Some ys \<Longrightarrow> set ys = {y. \<exists>x \<in> set xs. g x = Some y}"
proof (induction xs arbitrary: ys)
  case (Cons x xs)
  then obtain z zs where e: "g x = Some z" "those (map g xs) = Some zs" "ys = z # zs"
    by (auto split: option.splits)
  from Cons.IH [OF e(2)] e(1,3) show ?case by auto
qed simp

lemma those_all: "those (map g xs) = Some ys \<Longrightarrow> x \<in> set xs \<Longrightarrow> \<exists>y. g x = Some y"
  by (induction xs arbitrary: ys) (auto split: option.splits)

text \<open>The concatenation of defined lists holds what some of them holds.\<close>

lemma those_concat:
  assumes "those (map g xs) = Some dss" and "\<And>x ds. x \<in> set xs \<Longrightarrow> g x = Some ds \<Longrightarrow> (e \<in> set ds) = P x"
  shows "e \<in> set (concat dss) \<longleftrightarrow> (\<exists>x \<in> set xs. P x)"
proof -
  have "e \<in> set (concat dss) \<longleftrightarrow> (\<exists>x \<in> set xs. \<exists>ds. g x = Some ds \<and> e \<in> set ds)"
    using those_set [OF assms(1)] by auto
  also have "\<dots> \<longleftrightarrow> (\<exists>x \<in> set xs. P x)"
    using assms(2) those_all [OF assms(1)] by metis
  finally show ?thesis .
qed

lemma subtree_below: "subtree depth os w d = Some ds \<Longrightarrow> e \<in> set ds \<longleftrightarrow> below os w d e"
proof (induction depth arbitrary: d ds)
  case (Suc depth)
  show ?case
  proof (cases "os_readdir os w d")
    case (Fail x)
    then show ?thesis using Suc.prems by (subst below_iff) simp
  next
    case (Done fis)
    let ?sub = "\<lambda>fi. subtree depth os w (filepath_Join [d, fi_name fi])"
    obtain dss where dss: "those (map ?sub (filter fi_dir fis)) = Some dss" "ds = d # concat dss"
      using Suc.prems Done by auto
    have "e \<in> set (concat dss) \<longleftrightarrow> (\<exists>fi \<in> set (filter fi_dir fis). below os w (filepath_Join [d, fi_name fi]) e)"
      by (rule those_concat [OF dss(1)]) (rule Suc.IH)
    then show ?thesis
      by (subst below_iff) (auto simp: Done dss(2))
  qed
qed simp

lemma targets_named: "targets depth os w d uid = Some ds \<Longrightarrow> e \<in> set ds \<longleftrightarrow> named os w uid d e"
proof (induction depth arbitrary: d ds)
  case (Suc depth)
  show ?case
  proof (cases "os_readdir os w d")
    case (Fail x)
    then show ?thesis using Suc.prems by (subst named_iff) simp
  next
    case (Done fis)
    let ?path = "\<lambda>fi. filepath_Join [d, fi_name fi]"
    let ?sub = "\<lambda>fi. if strings_Contains (fi_name fi) uid then subtree depth os w (?path fi)
                     else targets depth os w (?path fi) uid"
    obtain dss where dss: "those (map ?sub (filter fi_dir fis)) = Some dss" "ds = concat dss"
      using Suc.prems Done by auto
    have "e \<in> set (concat dss) \<longleftrightarrow> (\<exists>fi \<in> set (filter fi_dir fis).
        if strings_Contains (fi_name fi) uid then below os w (?path fi) e else named os w uid (?path fi) e)"
    proof (rule those_concat [OF dss(1)])
      fix fi es
      assume es: "?sub fi = Some es"
      show "(e \<in> set es) = (if strings_Contains (fi_name fi) uid then below os w (?path fi) e
                            else named os w uid (?path fi) e)"
      proof (cases "strings_Contains (fi_name fi) uid")
        case True
        with es have "subtree depth os w (?path fi) = Some es" by (simp only: if_True)
        from subtree_below [OF this, of e] True show ?thesis by (simp only: if_True)
      next
        case False
        with es have "targets depth os w (?path fi) uid = Some es" by (simp only: if_False)
        from Suc.IH [OF this] False show ?thesis by (simp only: if_False)
      qed
    qed
    also have "\<dots> \<longleftrightarrow> named os w uid d e"
    proof
      assume "\<exists>fi \<in> set (filter fi_dir fis).
        if strings_Contains (fi_name fi) uid then below os w (?path fi) e else named os w uid (?path fi) e"
      then obtain fi where fi: "fi \<in> set fis" "fi_dir fi"
        "if strings_Contains (fi_name fi) uid then below os w (?path fi) e else named os w uid (?path fi) e"
        by auto
      show "named os w uid d e"
        by (cases "strings_Contains (fi_name fi) uid")
          (use fi in \<open>auto intro: named.hit [OF Done] named.deeper [OF Done]\<close>)
    next
      assume "named os w uid d e"
      then show "\<exists>fi \<in> set (filter fi_dir fis).
        if strings_Contains (fi_name fi) uid then below os w (?path fi) e else named os w uid (?path fi) e"
        by (cases rule: named.cases) (use Done in force)+
    qed
    finally show ?thesis by (simp add: dss(2))
  qed
qed simp

section \<open>Properties\<close>

text \<open>
  C22: assigning a pod to a group writes to the group's tasks file the process IDs of exactly the
  directories below a topmost cgroup directory whose name contains the UID, spelt with
  underscores or as it is, directory by directory; nothing else is written. Of the kernel it is
  assumed that a write to this tasks file, in a state in which the group exists, neither creates
  nor removes a directory and does not change the tasks files of those directories; the tasks
  files of other groups may change.
\<close>

theorem AssignControlGroup_moves:
  assumes "tree_stable os {group_file root rcgroup} (tasks_of ` set (ds1 @ ds2)) ok" and "ok w"
    and "targets depth os w CgroupCpusetRootPath (strings_ReplaceAll uid (CHR ''-'') (CHR ''_'')) = Some ds1"
    and "targets depth os w CgroupCpusetRootPath uid = Some ds2"
  shows "AssignControlGroup depth os root uid rcgroup w =
      Some (write_dirs os (group_file root rcgroup) w (ds1 @ ds2) w)
    \<and> set (ds1 @ ds2) = {d. named os w (strings_ReplaceAll uid (CHR ''-'') (CHR ''_'')) CgroupCpusetRootPath d
                          \<or> named os w uid CgroupCpusetRootPath d}"
proof -
  let ?f = "group_file root rcgroup"
  let ?w = "write_dirs os ?f w ds1 w"
  have f: "?f \<in> {?f}" by simp
  have same: "same_reads os (tasks_of ` set (ds1 @ ds2)) ok w w"
    using assms(2) by (simp only: same_reads_refl)
  have "findPodAndAssign depth os root CgroupCpusetRootPath
      (strings_ReplaceAll uid (CHR ''-'') (CHR ''_'')) rcgroup w = Some ?w"
    by (rule find_writes [OF assms(1) f same assms(3)]) simp
  moreover have "findPodAndAssign depth os root CgroupCpusetRootPath uid rcgroup ?w =
      Some (write_dirs os ?f w ds2 ?w)"
    by (rule find_writes [OF assms(1) f same_reads_write_dirs [OF assms(1) f same] assms(4)]) simp
  moreover have "write_dirs os ?f w ds2 ?w = write_dirs os ?f w (ds1 @ ds2) w"
    by (simp add: write_dirs_def)
  ultimately show ?thesis
    using targets_named [OF assms(3)] targets_named [OF assms(4)] by (auto simp: AssignControlGroup_def)
qed

text \<open>
  The empty UID would select every directory below the root of the cgroup tree.
\<close>

theorem empty_uid_matches_all:
  "named os w '''' d e \<longleftrightarrow>
     (\<exists>fis fi. os_readdir os w d = Done fis \<and> fi \<in> set fis \<and> fi_dir fi \<and> below os w (filepath_Join [d, fi_name fi]) e)"
proof -
  have "strings_Contains s ''''" for s by (subst strings_Contains.simps) simp
  then show ?thesis by (subst named_iff) auto
qed

section \<open>The cached pods\<close>

type_synonym pod_seen = "string \<times> string \<times> string \<times> (string \<rightharpoonup> string) option"

definition seen_group :: "pod_seen \<Rightarrow> string" where
  "seen_group v = (case snd (snd (snd v)) of None \<Rightarrow> ''''
     | Some m \<Rightarrow> (case m GroupLabel of Some g \<Rightarrow> g | None \<Rightarrow> ''''))"

fun assign_all :: "nat \<Rightarrow> 'w os \<Rightarrow> string \<Rightarrow> (string \<times> string) list \<Rightarrow> 'w \<Rightarrow> 'w option" where
  "assign_all depth os root [] w = Some w"
| "assign_all depth os root ((uid, g) # ps) w =
     (case AssignControlGroup depth os root uid g w of
        None \<Rightarrow> None | Some w1 \<Rightarrow> assign_all depth os root ps w1)"

lemma pod_view_group: "ResCtrlGroup st (st_pods st ! a) = seen_group (pod_view st a)"
  by (auto simp: ResCtrlGroup_def seen_group_def pod_view_def Let_def read_labels_def split: option.split)

lemma pod_view_uid: "pi_uid (st_pods st ! a) = fst (snd (pod_view st a))"
  by (simp add: pod_view_def Let_def)

lemma sync_pods_assign:
  assumes "\<forall>(u, v) \<in> set ps. \<exists>b. v = Some b \<and> pi_uid (st_pods st ! b) = u"
  shows "sync_pods depth os root st (map snd ps) w =
    map_option Ok (assign_all depth os root
      (map (\<lambda>(u, v). (u, seen_group (pod_view st (the v)))) ps) w)"
  using assms
proof (induction ps arbitrary: w)
  case (Cons p ps)
  obtain u b where p: "p = (u, Some b)" "pi_uid (st_pods st ! b) = u"
    using Cons.prems by (cases p) auto
  with Cons show ?case by (simp add: Let_def pod_view_group split: option.split)
qed simp

lemma ListPod_distinct: "distinct (map fst (fst (ListPod orders c st)))"
proof -
  have "distinct (map fst (fst (fold (\<lambda>(uid, a) (res, st).
         let (b, st1) = DeepCopy (fst orders) (Some a) st in (AList.update uid b res, st1)) xs (res, st))))"
    if "distinct (map fst res)" for xs res st
    using that by (induction xs arbitrary: res st) (auto simp: distinct_update split: prod.split)
  from this [of "[]" "snd orders c" st] show ?thesis by (simp add: ListPod_def)
qed

text \<open>The groups seen in a list of fresh copies are those of the cache.\<close>

lemma listed_groups:
  assumes "\<And>u v. (u, v) \<in> set res \<Longrightarrow> fresh_entry st st' c u v" and "fst ` set res = fst ` set c"
  shows "(\<lambda>(u, v). (u, seen_group (pod_view st' (the v)))) ` set res =
    {(u, seen_group v) | u v. cache_view (st, c) u = Some v}"
proof -
  have fresh: "\<exists>a. map_of c u = Some a \<and> seen_group (pod_view st' (the v)) = seen_group (pod_view st a)"
    if "(u, v) \<in> set res" for u v
    using assms(1) [OF that] by (auto simp: fresh_entry_def)
  show ?thesis
  proof (intro equalityI subsetI)
    fix x
    assume "x \<in> (\<lambda>(u, v). (u, seen_group (pod_view st' (the v)))) ` set res"
    then obtain u v where "(u, v) \<in> set res" "x = (u, seen_group (pod_view st' (the v)))" by auto
    then obtain a where "map_of c u = Some a" "x = (u, seen_group (pod_view st a))"
      using fresh [of u v] by auto
    moreover from this have "cache_view (st, c) u = Some (pod_view st a)" by (simp add: cache_view_def)
    ultimately show "x \<in> {(u, seen_group v) | u v. cache_view (st, c) u = Some v}" by blast
  next
    fix x
    assume "x \<in> {(u, seen_group v) | u v. cache_view (st, c) u = Some v}"
    then obtain u a where a: "map_of c u = Some a" "x = (u, seen_group (pod_view st a))"
      by (auto simp: cache_view_def)
    then have "u \<in> fst ` set res" using assms(2) by (force dest: map_of_SomeD)
    then obtain v where v: "(u, v) \<in> set res" by auto
    with fresh [OF v] a show "x \<in> (\<lambda>(u, v). (u, seen_group (pod_view st' (the v)))) ` set res"
      by (intro image_eqI [of _ _ "(u, v)"]) auto
  qed
qed

text \<open>
  C24: a synchronisation assigns every cached pod once, with its UID and the group of its label,
  in whatever order the goroutines run, and never crashes; no UID is empty, so no pod is ever
  assigned the processes of all others.
\<close>

theorem sync_assigns_cached_pods:
  assumes "cache_ok (st, c)" and "range_order o1" and "range_order o2" and "range_order schedule"
  shows "\<exists>ps. SyncResCtrlGroupTasks depth os root (o1, o2) schedule (st, c) w =
      map_option Ok (assign_all depth os root ps w)
    \<and> distinct (map fst ps)
    \<and> set ps = {(u, seen_group v) | u v. cache_view (st, c) u = Some v}
    \<and> '''' \<notin> fst ` set ps"
proof -
  obtain res st' where list: "ListPod (o1, o2) c st = (res, st')" by fastforce
  have fresh: "\<And>u v. map_of res u = Some v \<Longrightarrow> fresh_entry st st' c u v" "fst ` set res = fst ` set c"
    using ListPod_copies [OF assms(1-3)] list by auto
  have dist: "distinct (map fst res)" using ListPod_distinct [of "(o1, o2)" c st] by (simp add: list)
  let ?ps = "map (\<lambda>(u, v). (u, seen_group (pod_view st' (the v)))) (schedule res)"
  have entry: "fresh_entry st st' c u v" if "(u, v) \<in> set res" for u v
    using fresh(1) dist that by simp
  have cached: "pod_view st a = pod_view st a \<and> fst (snd (pod_view st a)) = u \<and> u \<noteq> ''''"
    if "map_of c u = Some a" for u a
    using assms(1) that by (auto simp: cache_ok_def pod_view_def Let_def dest!: map_of_SomeD)
  have set: "set (schedule res) = set res" by (rule range_order_set [OF assms(4)])
  have run: "sync_pods depth os root st' (map snd (schedule res)) w = map_option Ok (assign_all depth os root ?ps w)"
    by (rule sync_pods_assign)
      (use entry cached set in \<open>fastforce simp: fresh_entry_def pod_view_uid\<close>)
  have dist': "distinct (map fst ?ps)"
    using range_order_keys [OF assms(4) dist] by (simp add: comp_def split_beta)
  have all: "set ?ps = {(u, seen_group v) | u v. cache_view (st, c) u = Some v}"
    using listed_groups [OF entry fresh(2)] by (simp add: set)
  have nonempty: "'''' \<notin> fst ` set ?ps"
    unfolding all using cache_view_empty [OF assms(1)] by auto
  have "SyncResCtrlGroupTasks depth os root (o1, o2) schedule (st, c) w =
      map_option Ok (assign_all depth os root ?ps w)"
    using run by (simp add: SyncResCtrlGroupTasks_def list)
  then show ?thesis using dist' all nonempty by (intro exI [of _ ?ps] conjI)
qed

section \<open>Concrete runs\<close>

text \<open>
  Pod a-b has the processes 7 and 8, which the default group lists at first; the other cgroup has
  process 9, which is gone.
\<close>

definition sample_cgroup :: sample_fs where
  "sample_cgroup =
     \<lparr>fs_dirs = [(''/sys/fs/cgroup/cpuset/'', [\<lparr>fi_name = ''pod_a_b'', fi_dir = True\<rparr>,
                                             \<lparr>fi_name = ''other'', fi_dir = True\<rparr>]),
                (''/sys/fs/cgroup/cpuset/pod_a_b'', []), (''/sys/fs/cgroup/cpuset/other'', [])],
      fs_files = [(''/sys/fs/cgroup/cpuset/pod_a_b/tasks'', ''7'' @ [CHR 0x0A] @ ''8''),
                  (''/sys/fs/cgroup/cpuset/other/tasks'', ''9'')]\<rparr>"

definition sample_state :: resctrl_world where
  "sample_state = \<lparr>rw_fs = sample_cgroup, rw_live = [''1'', ''7'', ''8''],
     rw_groups = [(''/sys/fs/resctrl/tasks'', [''1'', ''7'', ''8'']),
                  (''/sys/fs/resctrl/gold/tasks'', []), (''/sys/fs/resctrl/silver/tasks'', [])]\<rparr>"

text \<open>A state in which the pod's processes have moved.\<close>

definition sample_moved :: resctrl_world where
  "sample_moved = sample_state\<lparr>rw_groups := [(''/sys/fs/resctrl/tasks'', [''1'']),
     (''/sys/fs/resctrl/gold/tasks'', [''7'', ''8'']), (''/sys/fs/resctrl/silver/tasks'', [])]\<rparr>"

lemma AssignControlGroup_moves_witness:
  "AssignControlGroup 5 resctrl_os ''/sys/fs/resctrl'' ''a-b'' ''gold'' sample_state = Some sample_moved
   \<and> {''/sys/fs/cgroup/cpuset/pod_a_b''} = {d. named resctrl_os sample_state ''a_b'' CgroupCpusetRootPath d
        \<or> named resctrl_os sample_state ''a-b'' CgroupCpusetRootPath d}"
proof -
  have files: "\<forall>f \<in> {group_file ''/sys/fs/resctrl'' ''gold''}. f \<in> fst ` set (rw_groups sample_state)"
    "\<forall>p \<in> tasks_of ` set ([''/sys/fs/cgroup/cpuset/pod_a_b''] @ []). p \<notin> fst ` set (rw_groups sample_state)"
    by code_simp+
  have stable: "tree_stable resctrl_os {group_file ''/sys/fs/resctrl'' ''gold''}
      (tasks_of ` set ([''/sys/fs/cgroup/cpuset/pod_a_b''] @ [])) (same_groups sample_state)"
    unfolding tree_stable_def keeps_dirs_def using resctrl_os_put_keeps files by blast
  have h: "targets 5 resctrl_os sample_state CgroupCpusetRootPath
        (strings_ReplaceAll ''a-b'' (CHR ''-'') (CHR ''_'')) = Some [''/sys/fs/cgroup/cpuset/pod_a_b'']"
    "targets 5 resctrl_os sample_state CgroupCpusetRootPath ''a-b'' = Some []"
    by code_simp+
  have e: "strings_ReplaceAll ''a-b'' (CHR ''-'') (CHR ''_'') = ''a_b''"
    "set ([''/sys/fs/cgroup/cpuset/pod_a_b''] @ []) = {''/sys/fs/cgroup/cpuset/pod_a_b''}"
    by (code_simp, simp)
  have r: "write_dirs resctrl_os (group_file ''/sys/fs/resctrl'' ''gold'') sample_state
       ([''/sys/fs/cgroup/cpuset/pod_a_b''] @ []) sample_state = sample_moved"
    by code_simp
  note run = AssignControlGroup_moves [OF stable same_groups_refl h]
  show ?thesis
    using conjunct2 [OF run] unfolding conjunct1 [OF run] e r by (intro conjI refl)
qed

lemma sync_assigns_cached_pods_witness:
  "\<exists>ps. SyncResCtrlGroupTasks 5 resctrl_os ''/sys/fs/resctrl'' (id, id) rev
      (\<lparr>st_pods = [\<lparr>pi_name = ''p'', pi_uid = ''a-b'', pi_ns = ''ns'', pi_labels = Some 0\<rparr>],
        st_labels = [[(''rcgroup'', ''gold'')]]\<rparr>, [(''a-b'', 0)]) sample_state =
      map_option Ok (assign_all 5 resctrl_os ''/sys/fs/resctrl'' ps sample_state)
    \<and> set ps = {(''a-b'', ''gold'')}"
proof -
  let ?st = "\<lparr>st_pods = [\<lparr>pi_name = ''p'', pi_uid = ''a-b'', pi_ns = ''ns'', pi_labels = Some 0\<rparr>],
        st_labels = [[(''rcgroup'', ''gold'')]]\<rparr>"
  let ?c = "[(''a-b'', 0 :: nat)]"
  have ok: "cache_ok (?st, ?c)" by (auto simp: cache_ok_def store_ok_def)
  have "cache_view (?st, ?c) u = (if u = ''a-b'' then Some (''p'', ''a-b'', ''ns'', Some [''rcgroup'' \<mapsto> ''gold'']) else None)"
    for u by (simp add: cache_view_def pod_view_def read_labels_def)
  then have e: "{(u, seen_group v) | u v. cache_view (?st, ?c) u = Some v} = {(''a-b'', ''gold'')}"
    by (auto simp: seen_group_def GroupLabel_def split: if_split_asm)
  from sync_assigns_cached_pods [OF ok range_order_id range_order_id range_order_rev,
      of 5 resctrl_os "''/sys/fs/resctrl''" sample_state]
  show ?thesis unfolding e by blast
qed

end
