(* ===== verification/ResctrlDepth.thy ===== *)
theory ResctrlDepth
  imports ResctrlTasksProps
begin

text \<open>
  The search of the cgroup tree ends: on a tree whose directories are ranked, each above its
  subdirectories, every depth above the rank of the root is enough, and all of them give the
  same result.
\<close>

section \<open>More depth changes nothing\<close>

lemma for_entries_mono:
  assumes "\<And>fi v v'. fi \<in> set fis \<Longrightarrow> f fi v = Some v' \<Longrightarrow> g fi v = Some v'"
    and "for_entries f fis w = Some w'"
  shows "for_entries g fis w = Some w'"
  using assms
proof (induction fis arbitrary: w)
  case (Cons fi fis)
  from Cons.prems(2) obtain v where v: "f fi w = Some v" "for_entries f fis v = Some w'"
    by (auto split: option.split_asm)
  from Cons.IH [OF _ v(2)] Cons.prems(1) have "for_entries g fis v = Some w'" by simp
  with Cons.prems(1) [of fi w v] v(1) show ?case by simp
qed simp

lemma assign_mono:
  "assignMPAMControlGroup k os root dir rcgroup w = Some w' \<Longrightarrow> k \<le> k' \<Longrightarrow>
   assignMPAMControlGroup k' os root dir rcgroup w = Some w'"
proof (induction k arbitrary: k' dir w w')
  case (Suc k)
  then obtain m where m: "k' = Suc m" "k \<le> m" by (cases k') auto
  show ?case
  proof (cases "os_readdir os w dir")
    case (Done fis)
    let ?body = "\<lambda>k fi w. if fi_dir fi
        then assignMPAMControlGroup k os root (filepath_Join [dir, fi_name fi]) rcgroup w else Some w"
    have more: "?body m fi v = Some v'" if "?body k fi v = Some v'" for fi v v'
      by (cases "fi_dir fi") (use Suc.IH [OF _ m(2)] that in metis)+
    have "for_entries (?body k) fis (move_tasks os root dir rcgroup w) = Some w'"
      using Suc.prems(1) by (simp only: assignMPAMControlGroup.simps Done os_result.case)
    then have "for_entries (?body m) fis (move_tasks os root dir rcgroup w) = Some w'"
      by (rule for_entries_mono [rotated]) (rule more)
    then show ?thesis by (simp only: m(1) assignMPAMControlGroup.simps Done os_result.case)
  qed (use Suc.prems(1) m in simp)
qed simp

lemma find_mono:
  "findPodAndAssign k os root dir uid rcgroup w = Some w' \<Longrightarrow> k \<le> k' \<Longrightarrow>
   findPodAndAssign k' os root dir uid rcgroup w = Some w'"
proof (induction k arbitrary: k' dir w w')
  case (Suc k)
  then obtain m where m: "k' = Suc m" "k \<le> m" by (cases k') auto
  show ?case
  proof (cases "os_readdir os w dir")
    case (Done fis)
    let ?body = "\<lambda>k fi w. if \<not> fi_dir fi then Some w
        else if strings_Contains (fi_name fi) uid
        then assignMPAMControlGroup k os root (filepath_Join [dir, fi_name fi]) rcgroup w
        else findPodAndAssign k os root (filepath_Join [dir, fi_name fi]) uid rcgroup w"
    have more: "?body m fi v = Some v'" if "?body k fi v = Some v'" for fi v v'
      by (cases "fi_dir fi"; cases "strings_Contains (fi_name fi) uid")
        (use Suc.IH [OF _ m(2)] assign_mono [OF _ m(2)] that in metis)+
    have "for_entries (?body k) fis w = Some w'"
      using Suc.prems(1) by (simp only: findPodAndAssign.simps Done os_result.case)
    then have "for_entries (?body m) fis w = Some w'"
      by (rule for_entries_mono [rotated]) (rule more)
    then show ?thesis by (simp only: m(1) findPodAndAssign.simps Done os_result.case)
  qed (use Suc.prems(1) m in simp)
qed simp

section \<open>Enough depth\<close>

definition ranked :: "'w os \<Rightarrow> 'w \<Rightarrow> (string \<Rightarrow> nat) \<Rightarrow> bool" where
  "ranked os w rank \<longleftrightarrow> (\<forall>d fis fi. os_readdir os w d = Done fis \<longrightarrow> fi \<in> set fis \<longrightarrow> fi_dir fi \<longrightarrow>
     rank (filepath_Join [d, fi_name fi]) < rank d)"

text \<open>A step that ends, in an allowed state, and leaves the directories as they are.\<close>

definition same_dirs :: "'w os \<Rightarrow> ('w \<Rightarrow> bool) \<Rightarrow> 'w \<Rightarrow> 'w \<Rightarrow> bool" where
  "same_dirs os ok w0 w \<longleftrightarrow> ok w \<and> os_readdir os w = os_readdir os w0"

definition ends_on :: "'w os \<Rightarrow> ('w \<Rightarrow> bool) \<Rightarrow> 'w \<Rightarrow> ('w \<Rightarrow> 'w option) \<Rightarrow> bool" where
  "ends_on os ok w0 f \<longleftrightarrow> (\<forall>w. same_dirs os ok w0 w \<longrightarrow> (\<exists>w'. f w = Some w' \<and> same_dirs os ok w0 w'))"

lemma ends_onD:
  assumes "ends_on os ok w0 f" and "same_dirs os ok w0 w"
  obtains w' where "f w = Some w'" and "same_dirs os ok w0 w'"
  using assms unfolding ends_on_def by blast

lemma for_entries_ends:
  "(\<And>fi. fi \<in> set fis \<Longrightarrow> ends_on os ok w0 (body fi)) \<Longrightarrow> ends_on os ok w0 (for_entries body fis)"
proof (induction fis)
  case (Cons fi fis)
  show ?case
    unfolding ends_on_def
  proof (intro allI impI)
    fix w
    assume w: "same_dirs os ok w0 w"
    obtain w1 where w1: "body fi w = Some w1" "same_dirs os ok w0 w1"
      using ends_onD [OF Cons.prems [of fi] w] by auto
    obtain w2 where "for_entries body fis w1 = Some w2" "same_dirs os ok w0 w2"
      using ends_onD [OF Cons.IH w1(2)] Cons.prems by auto
    with w1 show "\<exists>w'. for_entries body (fi # fis) w = Some w' \<and> same_dirs os ok w0 w'" by simp
  qed
qed (simp add: ends_on_def)

lemma write_pids_dirs:
  assumes "keeps_dirs os {f} ok"
  shows "same_dirs os ok w0 w \<Longrightarrow> same_dirs os ok w0 (fst (write_pids os f pids w))"
proof (induction pids arbitrary: w)
  case (Cons pid pids)
  obtain w1 r where put: "os_put os w f pid = (w1, r)" by fastforce
  have "ok (fst (os_put os w f pid)) \<and> os_readdir os (fst (os_put os w f pid)) = os_readdir os w"
    using assms Cons.prems by (simp add: keeps_dirs_def same_dirs_def)
  then have "same_dirs os ok w0 w1" using Cons.prems by (simp add: put same_dirs_def)
  with Cons.IH show ?case by (simp add: put split: os_result.split)
qed simp

lemma move_tasks_dirs:
  assumes "keeps_dirs os {group_file root rcgroup} ok" and "same_dirs os ok w0 w"
  shows "same_dirs os ok w0 (move_tasks os root dir rcgroup w)"
  using assms(2) write_pids_dirs [OF assms]
  by (auto simp: move_tasks_eq WritePids_def split: option.split os_result.split)

lemma assign_ends:
  assumes "keeps_dirs os {group_file root rcgroup} ok" and "ranked os w0 rank"
  shows "rank dir < k \<Longrightarrow> ends_on os ok w0 (assignMPAMControlGroup k os root dir rcgroup)"
proof (induction k arbitrary: dir)
  case (Suc k)
  show ?case
    unfolding ends_on_def
  proof (intro allI impI)
    fix w
    assume w: "same_dirs os ok w0 w"
    show "\<exists>w'. assignMPAMControlGroup (Suc k) os root dir rcgroup w = Some w' \<and> same_dirs os ok w0 w'"
    proof (cases "os_readdir os w dir")
      case (Done fis)
      have "ends_on os ok w0 (\<lambda>v. if fi_dir fi
          then assignMPAMControlGroup k os root (filepath_Join [dir, fi_name fi]) rcgroup v else Some v)"
        if fi: "fi \<in> set fis" for fi
      proof (cases "fi_dir fi")
        case True
        then have "rank (filepath_Join [dir, fi_name fi]) < rank dir"
          using assms(2) Done w fi unfolding ranked_def same_dirs_def by metis
        with Suc.prems True show ?thesis by (simp add: Suc.IH del: filepath_Join.simps)
      qed (simp add: ends_on_def)
      then have "ends_on os ok w0 (for_entries (\<lambda>fi v. if fi_dir fi
          then assignMPAMControlGroup k os root (filepath_Join [dir, fi_name fi]) rcgroup v else Some v) fis)"
        by (rule for_entries_ends)
      from ends_onD [OF this move_tasks_dirs [OF assms(1) w]] show ?thesis
        unfolding assignMPAMControlGroup.simps Done os_result.case by blast
    qed (use w in simp)
  qed
qed simp

lemma find_ends:
  assumes "keeps_dirs os {group_file root rcgroup} ok" and "ranked os w0 rank"
  shows "rank dir < k \<Longrightarrow> ends_on os ok w0 (findPodAndAssign k os root dir uid rcgroup)"
proof (induction k arbitrary: dir)
  case (Suc k)
  show ?case
    unfolding ends_on_def
  proof (intro allI impI)
    fix w
    assume w: "same_dirs os ok w0 w"
    show "\<exists>w'. findPodAndAssign (Suc k) os root dir uid rcgroup w = Some w' \<and> same_dirs os ok w0 w'"
    proof (cases "os_readdir os w dir")
      case (Done fis)
      let ?body = "\<lambda>fi v. if \<not> fi_dir fi then Some v
          else if strings_Contains (fi_name fi) uid
          then assignMPAMControlGroup k os root (filepath_Join [dir, fi_name fi]) rcgroup v
          else findPodAndAssign k os root (filepath_Join [dir, fi_name fi]) uid rcgroup v"
      have "ends_on os ok w0 (?body fi)" if fi: "fi \<in> set fis" for fi
      proof (cases "fi_dir fi")
        case True
        then have "rank (filepath_Join [dir, fi_name fi]) < rank dir"
          using assms(2) Done w fi unfolding ranked_def same_dirs_def by metis
        with Suc.prems True show ?thesis
          by (cases "strings_Contains (fi_name fi) uid")
            (simp_all add: Suc.IH assign_ends [OF assms] del: filepath_Join.simps)
      qed (simp add: ends_on_def)
      then have "ends_on os ok w0 (for_entries ?body fis)" by (rule for_entries_ends)
      from ends_onD [OF this w] show ?thesis
        unfolding findPodAndAssign.simps Done os_result.case by blast
    qed (use w in simp)
  qed
qed simp

text \<open>
  C23: on a finite cgroup tree the assignment of a pod ends, whatever its UID: there is one
  outcome that every depth above the rank of the root gives. Of the kernel it is assumed only
  that a write to the group's tasks file neither creates nor removes a directory.
\<close>

theorem AssignControlGroup_ends:
  assumes "keeps_dirs os {group_file root rcgroup} ok" and "ok w" and "ranked os w rank"
  shows "\<exists>w'. \<forall>depth > rank CgroupCpusetRootPath. AssignControlGroup depth os root uid rcgroup w = Some w'"
proof -
  let ?k = "Suc (rank CgroupCpusetRootPath)"
  have ends: "ends_on os ok w (findPodAndAssign ?k os root CgroupCpusetRootPath u rcgroup)" for u
    by (rule find_ends [OF assms(1,3)]) simp
  have start: "same_dirs os ok w w" using assms(2) by (simp add: same_dirs_def)
  from ends_onD [OF ends start] obtain w1 where w1: "findPodAndAssign ?k os root CgroupCpusetRootPath
       (strings_ReplaceAll uid (CHR ''-'') (CHR ''_'')) rcgroup w = Some w1" "same_dirs os ok w w1" .
  from ends_onD [OF ends w1(2)] obtain w2 where w2:
    "findPodAndAssign ?k os root CgroupCpusetRootPath uid rcgroup w1 = Some w2" .
  have "AssignControlGroup depth os root uid rcgroup w = Some w2"
    if d: "rank CgroupCpusetRootPath < depth" for depth
  proof -
    have "?k \<le> depth" using d by simp
    from find_mono [OF w1(1) this] find_mono [OF w2 this]
    show ?thesis by (simp only: AssignControlGroup_def option.case)
  qed
  then show ?thesis by blast
qed

theorem AssignControlGroup_ends_witness:
  "\<exists>w'. \<forall>depth > 1. AssignControlGroup depth resctrl_os ''/sys/fs/resctrl'' ''a-b'' ''gold'' sample_state = Some w'"
proof -
  let ?rank = "\<lambda>d. if d = CgroupCpusetRootPath then 1 else 0 :: nat"
  have j: "filepath_Join [CgroupCpusetRootPath, ''pod_a_b''] = ''/sys/fs/cgroup/cpuset/pod_a_b''"
    "filepath_Join [CgroupCpusetRootPath, ''other''] = ''/sys/fs/cgroup/cpuset/other''"
    by code_simp+
  have "keeps_dirs resctrl_os {group_file ''/sys/fs/resctrl'' ''gold''} (same_groups sample_state)"
    by (simp add: keeps_dirs_def resctrl_os_put_keeps)
  moreover have "ranked resctrl_os sample_state ?rank"
    unfolding ranked_def resctrl_os_calls
    using j by (auto simp: sample_os_def sample_state_def sample_cgroup_def CgroupCpusetRootPath_def
        simp del: filepath_Join.simps split: if_split_asm option.split_asm)
  ultimately show ?thesis
    using AssignControlGroup_ends [of resctrl_os "''/sys/fs/resctrl''" "''gold''" "same_groups sample_state" sample_state
        ?rank "''a-b''"] same_groups_refl by simp
qed

end
