(* ===== verification/Watcher.thy ===== *)
theory Watcher
  imports ResctrlGroup ObjectWatch
begin

text \<open>
  \<open>pkg/agent/watcher.go\<close>: the configuration of the control groups. The agent watches its node
  (for the label that names the node's group), the ConfigMap of the node and the ConfigMap of the
  group or the default one; the node's configuration takes precedence over the group's, and the
  configuration in force is applied to the resctrl file system.
\<close>

section \<open>Settings\<close>

definition strings_ToLower :: "string \<Rightarrow> string" where
  "strings_ToLower s = map (\<lambda>c.
     if 65 \<le> (of_char c :: nat) \<and> (of_char c :: nat) \<le> 90 then char_of ((of_char c :: nat) + 32) else c) s"

record watcher_settings =
  ws_resCtrlRoot :: string
  ws_namespace :: string
  ws_qosPrefix :: string
  ws_reSync :: int
  ws_nodeName :: string

text \<open>
  The variables of the package and \<open>init\<close>; \<open>getenv\<close> answers the empty string for a variable that
  is not set, \<open>hostname\<close> is \<^verbatim>\<open>/etc/hostname\<close> if it can be read. The error of \<^verbatim>\<open>Atoi\<close> is
  dropped: the number it answers then is 0, or the nearest bound when it is out of range, and all
  of these are replaced by the default.
\<close>

definition settings :: "(string \<Rightarrow> string) \<Rightarrow> string option \<Rightarrow> watcher_settings" where
  "settings getenv hostname =
     (let time = (case strconv_Atoi (getenv ''RE_SYNC_TIME'') of Ok i \<Rightarrow> i | _ \<Rightarrow> 0);
          dflt = (\<lambda>v d. if v = '''' then d else v)
      in \<lparr>ws_resCtrlRoot = dflt (getenv ''RESCTRL_PATH'') ''/sys/fs/resctrl'',
          ws_namespace = dflt (getenv ''CONFIGMAP_NAMESPACE'') ''rc-config'',
          ws_qosPrefix = dflt (getenv ''QOS_CONFIGMAP_NAME'') ''mpam-qos-config'',
          ws_reSync = (if time \<le> 0 \<or> time > 3600 then 10 else time),
          ws_nodeName = (if getenv ''NODE_NAME'' \<noteq> '''' then getenv ''NODE_NAME''
            else (case hostname of Some h \<Rightarrow> strings_ToLower (strings_TrimSpace h) | None \<Rightarrow> ''''))\<rparr>)"

definition defaultQosConfigMapPrefix :: string where
  "defaultQosConfigMapPrefix = ''mpam-qos-config''"

section \<open>Applying a configuration\<close>

type_synonym config_data = "(string, string) go_map"

record group_config =
  gc_L3PRI :: int
  gc_MBPRI :: int

type_synonym mpam_config = "(string, group_config) go_map"

text \<open>
  What applying needs of its surroundings: the operating system, the root of the resctrl file
  system, the YAML decoder, which decodes into what was decoded before and says whether it
  failed, and the orders in which the two maps are ranged over.
\<close>

record 'w apply_env =
  ae_os :: "'w os"
  ae_root :: string
  ae_yaml :: "string \<Rightarrow> mpam_config \<Rightarrow> mpam_config \<times> bool"
  ae_data_order :: "config_data \<Rightarrow> config_data"
  ae_group_order :: "mpam_config \<Rightarrow> mpam_config"

text \<open>Directories of the resctrl root that are not in the list are removed, errors dropped.\<close>

definition cleanResCtrlGroup :: "'w apply_env \<Rightarrow> string list \<Rightarrow> 'w \<Rightarrow> 'w" where
  "cleanResCtrlGroup env groups w =
     (case os_readdir (ae_os env) w (ae_root env) of
        Fail _ \<Rightarrow> w
      | Done fis \<Rightarrow>
          fold (\<lambda>fi w. if \<not> fi_dir fi then w
             else if fi_name fi \<notin> set groups
             then fst (os_remove (ae_os env) w (filepath_Join [ae_root env, fi_name fi]))
             else w) fis w)"

definition group_dir_name :: "string \<Rightarrow> string" where
  "group_dir_name groupName = (if groupName = ''DEFAULT'' then '''' else groupName)"

text \<open>The groups of the decoded configuration; the flag says that an error ended \<open>ApplyConfig\<close>.\<close>

fun apply_groups ::
    "'w apply_env \<Rightarrow> mpam_config \<Rightarrow> 'w \<times> int list \<Rightarrow> ('w \<times> int list) \<times> bool" where
  "apply_groups env [] s = (s, False)"
| "apply_groups env ((name, g) # gs) s =
     (case SetGroupQos (ae_os env)
             (NewMpamResCtrlGroup (ae_root env) (group_dir_name name) (gc_L3PRI g) (gc_MBPRI g)) s of
        (s1, Ok _) \<Rightarrow> apply_groups env gs s1
      | (s1, _) \<Rightarrow> (s1, True))"

fun apply_values ::
    "'w apply_env \<Rightarrow> string list \<Rightarrow> mpam_config \<Rightarrow> 'w \<times> int list \<Rightarrow> 'w \<times> int list" where
  "apply_values env [] cfg s = s"
| "apply_values env (val # vals) cfg s =
     (let (cfg1, failed) = ae_yaml env val cfg;
          s1 = (if failed then (cleanResCtrlGroup env [] (fst s), snd s) else s);
          (s2, stop) = apply_groups env (ae_group_order env cfg1) s1
      in if stop then s2 else apply_values env vals cfg1 s2)"

definition ApplyConfig ::
    "'w apply_env \<Rightarrow> config_data option \<Rightarrow> 'w \<times> int list \<Rightarrow> 'w \<times> int list" where
  "ApplyConfig env data s =
     (case data of
        None \<Rightarrow> (cleanResCtrlGroup env [] (fst s), snd s)
      | Some d \<Rightarrow> apply_values env (map snd (ae_data_order env d)) [] s)"

section \<open>The watcher\<close>

text \<open>
  \<open>wt_group\<close> is the variable of the goroutine that watches the node, \<open>None\<close> when there is no such
  goroutine; \<open>wt_nodeWatch\<close> says whether the node's ConfigMap is watched, \<open>wt_groupWatch\<close> which
  group ConfigMap is. \<open>wt_applied\<close> records the last configuration applied, \<open>wt_world\<close> is the
  world with the cache of L3 IDs.
\<close>

record 'w watcher =
  wt_nodeCfg :: "config_data option"
  wt_groupCfg :: "config_data option"
  wt_groupName :: string
  wt_group :: "string option"
  wt_nodeWatch :: bool
  wt_groupWatch :: "string option"
  wt_applied :: "config_data option option"
  wt_world :: "'w \<times> int list"

definition new_watcher :: "'w \<Rightarrow> 'w watcher" where
  "new_watcher w =
     \<lparr>wt_nodeCfg = None, wt_groupCfg = None, wt_groupName = '''', wt_group = None,
      wt_nodeWatch = False, wt_groupWatch = None, wt_applied = None, wt_world = (w, [])\<rparr>"

definition effective :: "'w watcher \<Rightarrow> config_data option" where
  "effective t = (if wt_nodeCfg t \<noteq> None then wt_nodeCfg t else wt_groupCfg t)"

definition applyConfig :: "'w apply_env \<Rightarrow> 'w watcher \<Rightarrow> 'w watcher" where
  "applyConfig env t =
     (let config = (if wt_nodeCfg t \<noteq> None then wt_nodeCfg t else wt_groupCfg t)
      in t\<lparr>wt_applied := Some config, wt_world := ApplyConfig env config (wt_world t)\<rparr>)"

definition setNodeConfig :: "'w apply_env \<Rightarrow> config_data option \<Rightarrow> 'w watcher \<Rightarrow> 'w watcher" where
  "setNodeConfig env d t = applyConfig env (t\<lparr>wt_nodeCfg := d\<rparr>)"

definition setGroupConfig :: "'w apply_env \<Rightarrow> config_data option \<Rightarrow> 'w watcher \<Rightarrow> 'w watcher" where
  "setGroupConfig env d t =
     (let t1 = t\<lparr>wt_groupCfg := d\<rparr>
      in if wt_nodeCfg t1 = None then applyConfig env t1 else t1)"

text \<open>Starting the watches; the flag says whether the API server accepts.\<close>

definition watchNode :: "bool \<Rightarrow> 'w watcher \<Rightarrow> 'w watcher" where
  "watchNode accepted t = t\<lparr>wt_group := (if accepted then Some '''' else None)\<rparr>"

definition watchNodeConfigMap :: "bool \<Rightarrow> 'w watcher \<Rightarrow> 'w watcher" where
  "watchNodeConfigMap accepted t = t\<lparr>wt_nodeWatch := accepted\<rparr>"

definition group_cm_name :: "string \<Rightarrow> string" where
  "group_cm_name groupName =
     (if groupName \<noteq> '''' then defaultQosConfigMapPrefix @ ''.group.'' @ groupName
      else defaultQosConfigMapPrefix @ ''.default'')"

definition watchGroupConfigMap :: "bool \<Rightarrow> 'w watcher \<Rightarrow> 'w watcher" where
  "watchGroupConfigMap accepted t =
     t\<lparr>wt_groupWatch := (if accepted then Some (group_cm_name (wt_groupName t)) else None)\<rparr>"

text \<open>
  Objects of events by dynamic type. The one of a node event is asserted to be a node, which
  panics when it is not; a ConfigMap that is not one is skipped.
\<close>

datatype watched = NodeObject "(string, string) go_map option" | ConfigMapObject config_data | StatusObject

definition node_label :: "(string, string) go_map option \<Rightarrow> string" where
  "node_label labels =
     (case labels of None \<Rightarrow> ''''
      | Some m \<Rightarrow> (case map_of m ''ngroup'' of Some g \<Rightarrow> g | None \<Rightarrow> ''''))"

text \<open>
  A node event: with a new group name the running watch of the group's ConfigMap is stopped, its
  goroutine then starts the next one (\<open>GroupWatchClosed\<close>).
\<close>

definition node_event :: "event_type \<Rightarrow> watched \<Rightarrow> 'w watcher \<Rightarrow> 'w watcher go" where
  "node_event ty obj t =
     (if ty = Added \<or> ty = Modified
      then (case obj of
              NodeObject labels \<Rightarrow>
                (if wt_group t \<noteq> Some (node_label labels)
                 then Ok (t\<lparr>wt_group := Some (node_label labels), wt_groupName := node_label labels\<rparr>)
                 else Ok t)
            | _ \<Rightarrow> Panic TypeAssertion)
      else Ok t)"

definition node_cm_event :: "'w apply_env \<Rightarrow> event_type \<Rightarrow> watched \<Rightarrow> 'w watcher \<Rightarrow> 'w watcher" where
  "node_cm_event env ty obj t =
     (if ty = Added \<or> ty = Modified
      then (case obj of ConfigMapObject d \<Rightarrow> setNodeConfig env (Some d) t | _ \<Rightarrow> t)
      else if ty = Deleted then setNodeConfig env None t
      else t)"

text \<open>\<open>dflt\<close> is what the API server answers for the default ConfigMap.\<close>

definition group_cm_event ::
    "'w apply_env \<Rightarrow> config_data go \<Rightarrow> event_type \<Rightarrow> watched \<Rightarrow> 'w watcher \<Rightarrow> 'w watcher" where
  "group_cm_event env dflt ty obj t =
     (if ty = Added \<or> ty = Modified
      then (case obj of ConfigMapObject d \<Rightarrow> setGroupConfig env (Some d) t | _ \<Rightarrow> t)
      else if ty = Deleted
      then (case obj of
              ConfigMapObject _ \<Rightarrow>
                (case dflt of Ok d \<Rightarrow> setGroupConfig env (Some d) t | _ \<Rightarrow> setGroupConfig env None t)
            | _ \<Rightarrow> t)
      else t)"

text \<open>The goroutines, one event at a time; the end of a watch starts it again.\<close>

datatype watcher_event =
    NodeEvent event_type watched | NodeWatchClosed bool
  | NodeCmEvent event_type watched | NodeCmWatchClosed bool
  | GroupCmEvent "config_data go" event_type watched | GroupWatchClosed bool

fun enabled :: "watcher_event \<Rightarrow> 'w watcher \<Rightarrow> bool" where
  "enabled (NodeEvent _ _) t = (wt_group t \<noteq> None)"
| "enabled (NodeWatchClosed _) t = (wt_group t \<noteq> None)"
| "enabled (NodeCmEvent _ _) t = wt_nodeWatch t"
| "enabled (NodeCmWatchClosed _) t = wt_nodeWatch t"
| "enabled (GroupCmEvent _ _ _) t = (wt_groupWatch t \<noteq> None)"
| "enabled (GroupWatchClosed _) t = (wt_groupWatch t \<noteq> None)"

fun watcher_step :: "'w apply_env \<Rightarrow> watcher_event \<Rightarrow> 'w watcher \<Rightarrow> 'w watcher go" where
  "watcher_step env (NodeEvent ty obj) t = node_event ty obj t"
| "watcher_step env (NodeWatchClosed accepted) t = Ok (watchNode accepted t)"
| "watcher_step env (NodeCmEvent ty obj) t = Ok (node_cm_event env ty obj t)"
| "watcher_step env (NodeCmWatchClosed accepted) t = Ok (watchNodeConfigMap accepted t)"
| "watcher_step env (GroupCmEvent dflt ty obj) t = Ok (group_cm_event env dflt ty obj t)"
| "watcher_step env (GroupWatchClosed accepted) t = Ok (watchGroupConfigMap accepted t)"

text \<open>The start: the three watches, one after the other.\<close>

definition start_watcher :: "bool \<Rightarrow> bool \<Rightarrow> bool \<Rightarrow> 'w \<Rightarrow> 'w watcher" where
  "start_watcher a b c w = watchGroupConfigMap c (watchNodeConfigMap b (watchNode a (new_watcher w)))"

inductive watcher_reachable :: "'w apply_env \<Rightarrow> 'w watcher \<Rightarrow> bool" for env where
  start: "watcher_reachable env (start_watcher a b c w)"
| event: "watcher_reachable env t \<Longrightarrow> enabled e t \<Longrightarrow> watcher_step env e t = Ok t' \<Longrightarrow>
    watcher_reachable env t'"

end
