(* ===== verification/WatcherProps.thy ===== *)
theory WatcherProps
  imports Watcher OsSample
begin

text \<open>
  The configuration in force is the one last applied; applying a configuration removes no group;
  and where the directory of a group is.
\<close>

section \<open>Precedence\<close>

definition watcher_inv :: "'w watcher \<Rightarrow> bool" where
  "watcher_inv t \<longleftrightarrow> (case wt_applied t of
     None \<Rightarrow> wt_nodeCfg t = None \<and> wt_groupCfg t = None
   | Some config \<Rightarrow> config = effective t)"

lemma inv_applyConfig: "watcher_inv (applyConfig env t)"
  by (simp add: watcher_inv_def applyConfig_def effective_def Let_def)

lemma inv_setNodeConfig: "watcher_inv (setNodeConfig env d t)"
  by (simp add: setNodeConfig_def inv_applyConfig)

lemma inv_setGroupConfig: "watcher_inv t \<Longrightarrow> watcher_inv (setGroupConfig env d t)"
  by (auto simp: setGroupConfig_def Let_def inv_applyConfig)
    (auto simp: watcher_inv_def effective_def split: option.splits)

text \<open>Fields that the invariant does not look at.\<close>

lemma inv_fields [simp]:
  "watcher_inv (t\<lparr>wt_group := g\<rparr>) = watcher_inv t"
  "watcher_inv (t\<lparr>wt_groupName := n\<rparr>) = watcher_inv t"
  "watcher_inv (t\<lparr>wt_nodeWatch := b\<rparr>) = watcher_inv t"
  "watcher_inv (t\<lparr>wt_groupWatch := x\<rparr>) = watcher_inv t"
  by (auto simp: watcher_inv_def effective_def split: option.splits)

lemma inv_step: "watcher_step env e t = Ok t' \<Longrightarrow> watcher_inv t \<Longrightarrow> watcher_inv t'"
  by (cases e)
    (auto simp: node_event_def node_cm_event_def group_cm_event_def watchNode_def watchNodeConfigMap_def
      watchGroupConfigMap_def inv_setNodeConfig inv_setGroupConfig
      split: if_split_asm watched.splits go.splits)

text \<open>
  C20: whatever events arrive, in whatever order, the configuration applied last is the one in
  force: that of the node's ConfigMap while there is one, otherwise that of the group's or the
  default one, or none; before anything was applied there is no configuration at all.
\<close>

theorem watcher_precedence:
  assumes "watcher_reachable env t"
  shows "case wt_applied t of
      None \<Rightarrow> wt_nodeCfg t = None \<and> wt_groupCfg t = None
    | Some config \<Rightarrow> config = (case wt_nodeCfg t of Some d \<Rightarrow> Some d | None \<Rightarrow> wt_groupCfg t)"
proof -
  have "watcher_inv t"
    using assms
  proof (induction rule: watcher_reachable.induct)
    case (start a b c w)
    then show ?case
      by (simp add: start_watcher_def watchNode_def watchNodeConfigMap_def watchGroupConfigMap_def)
        (simp add: watcher_inv_def new_watcher_def)
  next
    case (event t e t')
    then show ?case using inv_step by blast
  qed
  then show ?thesis by (auto simp: watcher_inv_def effective_def split: option.splits)
qed

section \<open>Groups that are no longer configured\<close>

definition without_remove :: "'w apply_env \<Rightarrow> 'w apply_env" where
  "without_remove env = env\<lparr>ae_os := (ae_os env)\<lparr>os_remove := (\<lambda>w p. (w, Fail NotExist))\<rparr>\<rparr>"

lemma without_remove_calls:
  "createGroupDir (ae_os (without_remove env)) = createGroupDir (ae_os env)"
  "GetL3IdFromFile (ae_os (without_remove env)) = GetL3IdFromFile (ae_os env)"
  "WriteFile (ae_os (without_remove env)) = WriteFile (ae_os env)"
  by (simp_all add: fun_eq_iff createGroupDir_def GetL3IdFromFile_def WriteFile_def IsDir_def PathExist_def
      without_remove_def del: filepath_Join.simps)

lemma SetGroupQos_without_remove:
  "SetGroupQos (ae_os (without_remove env)) g s = SetGroupQos (ae_os env) g s"
  unfolding SetGroupQos_def GetL3Id_def without_remove_calls by (rule refl)

lemma apply_groups_without_remove:
  "apply_groups (without_remove env) gs s = apply_groups env gs s"
proof (induction gs arbitrary: s)
  case (Cons ng gs)
  obtain n g where "ng = (n, g)" by fastforce
  moreover have "ae_root (without_remove env) = ae_root env" by (simp add: without_remove_def)
  ultimately show ?case
    using Cons by (simp add: SetGroupQos_without_remove split: prod.split go.split)
qed simp

text \<open>The values decode one after the other, each into the configuration that those before it left.\<close>

fun decodes :: "'w apply_env \<Rightarrow> string list \<Rightarrow> mpam_config \<Rightarrow> bool" where
  "decodes env [] cfg \<longleftrightarrow> True"
| "decodes env (val # vals) cfg \<longleftrightarrow>
     \<not> snd (ae_yaml env val cfg) \<and> decodes env vals (fst (ae_yaml env val cfg))"

text \<open>
  C21: applying a configuration whose values decode (those of this configuration, in the order
  they are taken; other strings may well not) never removes a group directory, whether or not the
  configuration still names it: the outcome is the same on a system on which nothing can be
  removed. Groups go only when there is no configuration or one that does not decode.
\<close>

theorem ApplyConfig_removes_nothing:
  assumes "decodes env (map snd (ae_data_order env d)) []"
  shows "ApplyConfig env (Some d) s = ApplyConfig (without_remove env) (Some d) s"
proof -
  have fields: "ae_yaml (without_remove env) = ae_yaml env" "ae_group_order (without_remove env) = ae_group_order env"
    "ae_data_order (without_remove env) = ae_data_order env"
    by (simp_all add: without_remove_def)
  have "decodes env vals cfg \<Longrightarrow> apply_values (without_remove env) vals cfg s = apply_values env vals cfg s"
    for vals cfg s
  proof (induction vals arbitrary: cfg s)
    case (Cons val vals)
    obtain cfg1 b where y: "ae_yaml env val cfg = (cfg1, b)" by fastforce
    with Cons show ?case
      by (simp add: fields y apply_groups_without_remove Let_def split: prod.split)
  qed simp
  then show ?thesis using assms by (simp add: ApplyConfig_def fields)
qed

text \<open>
  A decoder that takes lines \<^verbatim>\<open>name:L3\<close> of one digit and refuses all else; the file system has an
  old group that the configuration does not name.
\<close>

definition line_decoder :: "string \<Rightarrow> mpam_config \<Rightarrow> mpam_config \<times> bool" where
  "line_decoder val cfg =
     (case strings_Split val (CHR '':'') of
        [name, v] \<Rightarrow> (case strconv_Atoi v of
            Ok n \<Rightarrow> (cfg @ [(name, \<lparr>gc_L3PRI = n, gc_MBPRI = n\<rparr>)], False) | _ \<Rightarrow> (cfg, True))
      | _ \<Rightarrow> (cfg, True))"

lemma ApplyConfig_removes_nothing_witness:
  "let env = \<lparr>ae_os = sample_os, ae_root = ''/r'', ae_yaml = line_decoder, ae_data_order = id, ae_group_order = id\<rparr>;
       s = (\<lparr>fs_dirs = [(''/r'', [\<lparr>fi_name = ''old'', fi_dir = True\<rparr>]), (''/r/old'', [])], fs_files = []\<rparr>, [])
   in snd (line_decoder ''gold'' [])
     \<and> ApplyConfig env (Some [(''k'', ''gold:1''), (''m'', ''tin:2'')]) s =
       ApplyConfig (without_remove env) (Some [(''k'', ''gold:1''), (''m'', ''tin:2'')]) s
     \<and> ''/r/old'' \<in> set (map fst (fs_dirs (fst (ApplyConfig env (Some [(''k'', ''gold:1''), (''m'', ''tin:2'')]) s))))
     \<and> ''/r/old'' \<notin> set (map fst (fs_dirs (fst (ApplyConfig env (Some [(''k'', ''gold'')]) s))))"
proof -
  let ?env = "\<lparr>ae_os = sample_os, ae_root = ''/r'', ae_yaml = line_decoder, ae_data_order = id, ae_group_order = id\<rparr>"
  have h: "decodes ?env (map snd (ae_data_order ?env [(''k'', ''gold:1''), (''m'', ''tin:2'')])) []"
    by code_simp
  show ?thesis
    unfolding Let_def
    by (intro conjI ApplyConfig_removes_nothing [OF h]) code_simp+
qed

section \<open>Group directories\<close>

text \<open>A name that is one plain path segment.\<close>

definition plain_name :: "string \<Rightarrow> bool" where
  "plain_name n \<longleftrightarrow> n \<noteq> '''' \<and> n \<noteq> ''.'' \<and> n \<noteq> ''..'' \<and> CHR ''/'' \<notin> set n"

text \<open>An absolute path that is clean and not the root directory, by its segments.\<close>

definition clean_dir :: "string list \<Rightarrow> string" where
  "clean_dir segs = CHR ''/'' # strings_Join segs ''/''"

lemma no_slash:
  assumes "\<forall>w \<in> set ws. plain_name w" and "w \<in> set ([] # ws @ [[]])"
  shows "CHR ''/'' \<notin> set w"
proof (cases "w = []")
  case False
  with assms have "plain_name w" by simp
  then show ?thesis unfolding plain_name_def by blast
qed simp

lemma clean_segments_plain:
  "\<forall>w \<in> set ws. plain_name w \<Longrightarrow> clean_segments True (ws @ vs) stack = clean_segments True vs (rev ws @ stack)"
  by (induction ws arbitrary: stack) (auto simp: plain_name_def)

lemma Clean_plain:
  assumes "\<forall>w \<in> set ws. plain_name w" and "ws \<noteq> []"
  shows "filepath_Clean (clean_dir ws) = clean_dir ws"
proof -
  have "clean_dir ws = strings_Join ([] # ws) [CHR ''/'']"
    using assms(2) by (simp add: clean_dir_def strings_Join_Cons)
  moreover have "strings_Split (strings_Join ([] # ws) [CHR ''/'']) (CHR ''/'') = [] # ws"
    by (rule strings_Split_Join) (simp, rule no_slash [OF assms(1)], auto)
  ultimately have "strings_Split (clean_dir ws) (CHR ''/'') = [] # ws" by simp
  moreover have "clean_segments True ws [] = ws"
    using clean_segments_plain [OF assms(1), of "[]" "[]"] by simp
  ultimately show ?thesis by (simp add: filepath_Clean_def clean_dir_def Let_def)
qed

lemma Join_plain:
  assumes "\<forall>w \<in> set (segs @ ws). plain_name w" and "segs \<noteq> []"
  shows "filepath_Join (clean_dir segs # ws) = clean_dir (segs @ ws)"
proof -
  have "strings_Join (clean_dir segs # ws) ''/'' = clean_dir (segs @ ws)"
  proof -
    have app: "strings_Join (xs @ ys) s = strings_Join xs s @ s @ strings_Join ys s"
      if "xs \<noteq> []" "ys \<noteq> []" for xs ys s
      using that by (induction xs) (auto simp: strings_Join_Cons)
    show ?thesis
      using assms(2) app [of segs ws "''/''"] by (cases "ws = []") (auto simp: clean_dir_def strings_Join_Cons)
  qed
  moreover have "clean_dir segs \<noteq> []" by (simp add: clean_dir_def)
  ultimately show ?thesis
    using Clean_plain [OF assms(1)] assms(2) by simp
qed

text \<open>
  A group with a plain name has its directory directly below the resctrl root and its
  schemata file in it, and the group DEFAULT is the root itself; a name with dots is not
  refused: it leads out of the resctrl file system.
\<close>

theorem group_directory:
  assumes "\<forall>w \<in> set segs. plain_name w" and "segs \<noteq> []" and "plain_name name" and "name \<noteq> ''DEFAULT''"
  shows "mg_dir (NewMpamResCtrlGroup (clean_dir segs) (group_dir_name name) l3 mb) = clean_dir segs @ ''/'' @ name
    \<and> filepath_Join [mg_dir (NewMpamResCtrlGroup (clean_dir segs) (group_dir_name name) l3 mb), ''schemata''] =
      clean_dir segs @ ''/'' @ name @ ''/schemata''
    \<and> mg_dir (NewMpamResCtrlGroup (clean_dir segs) (group_dir_name ''DEFAULT'') l3 mb) = clean_dir segs
    \<and> mg_dir (NewMpamResCtrlGroup ''/sys/fs/resctrl'' (group_dir_name ''../../kernel'') l3 mb) = ''/sys/kernel''"
proof -
  have plain: "plain_name ''schemata''" by code_simp
  have dir: "clean_dir (segs @ ws) = clean_dir segs @ ''/'' @ strings_Join ws ''/''" if "ws \<noteq> []" for ws
  proof -
    have "strings_Join (xs @ ws) s = strings_Join xs s @ s @ strings_Join ws s" if "xs \<noteq> []" for xs s
      using that \<open>ws \<noteq> []\<close> by (induction xs) (auto simp: strings_Join_Cons)
    then show ?thesis using assms(2) by (simp add: clean_dir_def)
  qed
  have d: "filepath_Join [clean_dir segs, name] = clean_dir (segs @ [name])"
    using Join_plain [of segs "[name]"] assms by simp
  have s: "filepath_Join [clean_dir (segs @ [name]), ''schemata''] = clean_dir (segs @ [name, ''schemata''])"
    using Join_plain [of "segs @ [name]" "[''schemata'']"] assms plain by simp
  have r: "filepath_Join [clean_dir segs, ''''] = clean_dir segs"
  proof -
    have "strings_Split (clean_dir segs @ ''/'') (CHR ''/'') = [] # segs @ [[]]"
    proof -
      have "strings_Join ([] # segs @ [[]]) [CHR ''/''] = clean_dir segs @ ''/''"
        using dir [of "[[]]"] assms(2) by (simp add: clean_dir_def strings_Join_Cons)
      then show ?thesis
        using strings_Split_Join [OF _ no_slash [OF assms(1)], of "[] # segs @ [[]]"] by simp
    qed
    moreover have "clean_segments True (segs @ [[]]) [] = segs"
      using clean_segments_plain [OF assms(1), of "[[]]" "[]"] by simp
    moreover have "clean_dir segs \<noteq> []" "hd (clean_dir segs @ ''/'') = CHR ''/''" by (simp_all add: clean_dir_def)
    ultimately show ?thesis by (simp add: filepath_Clean_def Let_def) (simp add: clean_dir_def)
  qed
  have e: "filepath_Join [''/sys/fs/resctrl'', ''../../kernel''] = ''/sys/kernel''" by code_simp
  have n: "group_dir_name name = name" "group_dir_name ''DEFAULT'' = ''''" "group_dir_name ''../../kernel'' = ''../../kernel''"
    using assms(4) by (simp_all add: group_dir_name_def)
  show ?thesis
    unfolding NewMpamResCtrlGroup_def mpam_group.simps n d s r e
    using dir [of "[name]"] dir [of "[name, ''schemata'']"] by simp
qed

lemma group_directory_witness:
  "mg_dir (NewMpamResCtrlGroup (clean_dir [''sys'', ''fs'', ''resctrl'']) (group_dir_name ''gold'') 1 2) =
   clean_dir [''sys'', ''fs'', ''resctrl''] @ ''/'' @ ''gold''"
proof -
  have h: "\<forall>w \<in> set [''sys'', ''fs'', ''resctrl'']. plain_name w" "[''sys'', ''fs'', ''resctrl''] \<noteq> []"
    "plain_name ''gold''" "''gold'' \<noteq> ''DEFAULT''"
    by (code_simp, simp, code_simp, simp)
  from group_directory [OF h, of 1 2] show ?thesis by (elim conjE)
qed

section \<open>A concrete run\<close>

lemma watcher_precedence_witness:
  "let env = \<lparr>ae_os = sample_os, ae_root = ''/sys/fs/resctrl'', ae_yaml = (\<lambda>val cfg. ([], False)),
              ae_data_order = id, ae_group_order = id\<rparr>;
       t = node_cm_event env Added (ConfigMapObject [(''a'', ''b'')])
             (start_watcher True True True \<lparr>fs_dirs = [], fs_files = []\<rparr>)
   in wt_applied t = Some (Some [(''a'', ''b'')]) \<and>
      (case wt_applied t of
        None \<Rightarrow> wt_nodeCfg t = None \<and> wt_groupCfg t = None
      | Some config \<Rightarrow> config = (case wt_nodeCfg t of Some d \<Rightarrow> Some d | None \<Rightarrow> wt_groupCfg t))"
proof -
  let ?env = "\<lparr>ae_os = sample_os, ae_root = ''/sys/fs/resctrl'', ae_yaml = (\<lambda>val cfg. ([], False)),
              ae_data_order = id, ae_group_order = id\<rparr>"
  let ?s = "start_watcher True True True \<lparr>fs_dirs = [], fs_files = []\<rparr>"
  let ?t = "node_cm_event ?env Added (ConfigMapObject [(''a'', ''b'')]) ?s"
  have "enabled (NodeCmEvent Added (ConfigMapObject [(''a'', ''b'')])) ?s" by code_simp
  then have "watcher_reachable ?env ?t"
    by (rule watcher_reachable.event [OF watcher_reachable.start]) simp
  moreover have "wt_applied ?t = Some (Some [(''a'', ''b'')])" by code_simp
  ultimately show ?thesis
    unfolding Let_def using watcher_precedence by blast
qed

end
