(* ===== verification/AgentLoop.thy ===== *)
theory AgentLoop
  imports CrdPolicy LoadBalance NumafastUpdate ObjectWatch Watcher ClusterSample
begin

text \<open>
  The agent as a whole (\<open>pkg/agent/agent.go\<close>, with the start of \<open>pkg/resmgr/resmgr.go\<close>): its
  construction, the set-up of its clients and watches, and the select loop that runs its handlers.
\<close>

section \<open>Construction\<close>

text \<open>The command line flags of the agent, and their values when none is given.\<close>

record agent_flags =
  fl_kubeconfig :: string
  fl_configFile :: string
  fl_crdName :: string
  fl_namespace :: string
  fl_grpcIp :: string
  fl_grpcPort :: string
  fl_reconcilerTime :: int
  fl_policy :: int

definition NET_AFFINITY :: int where "NET_AFFINITY = 0"

definition LOAD_BALANCE :: int where "LOAD_BALANCE = 1"

definition default_flags :: agent_flags where
  "default_flags =
     \<lparr>fl_kubeconfig = '''', fl_configFile = '''', fl_crdName = ''podafi'', fl_namespace = ''kube-system'',
      fl_grpcIp = ''127.0.0.1'', fl_grpcPort = ''9090'', fl_reconcilerTime = 300, fl_policy = NET_AFFINITY\<rparr>"

text \<open>
  \<open>nodeName\<close> is the environment variable \<^verbatim>\<open>NODE_NAME\<close>. Options are applied one after the
  other; the first that fails ends the construction.
\<close>

definition New :: "string \<Rightarrow> agent_flags \<Rightarrow> (agent_cfg \<Rightarrow> agent_cfg go) list \<Rightarrow> agent_cfg go" where
  "New nodeName fl options =
     go_bind (go_for (\<lambda>opt a. go_wrap (\<lambda>e. ''failed to create agent: '' @ e) (opt a)) options
       \<lparr>ag_nodeName = nodeName, ag_kubeconfig = fl_kubeconfig fl, ag_configFile = fl_configFile fl,
        ag_namespace = fl_namespace fl, ag_crdname = fl_crdName fl\<rparr>)
     (\<lambda>a. if ag_nodeName a = '''' \<and> ag_configFile a = ''''
          then Err ''failed to create agent: neither node name nor config file set''
          else Ok a)"

section \<open>Set-up\<close>

text \<open>
  What the libraries answer to the calls of the set-up: the two ways to a Kubernetes configuration,
  the two clients made from it, a watch of a resource (group, version, name) in a namespace with
  a field selector, a watch of the pods of a namespace, and a gRPC connection to an address.
\<close>

record setup_calls =
  su_inCluster :: "unit go"
  su_fromFlags :: "string \<Rightarrow> unit go"
  su_clientset :: "unit go"
  su_dynamic :: "unit go"
  su_watch :: "string \<times> string \<times> string \<Rightarrow> string \<Rightarrow> string \<Rightarrow> unit go"
  su_podWatch :: "string \<Rightarrow> unit go"
  su_grpc :: "string \<Rightarrow> unit go"

definition getK8sConfig :: "setup_calls \<Rightarrow> agent_cfg \<Rightarrow> unit go" where
  "getK8sConfig su a =
     go_wrap (\<lambda>e. ''failed to get kuberneters config: '' @ e)
       (if ag_kubeconfig a = '''' then su_inCluster su else su_fromFlags su (ag_kubeconfig a))"

definition SetKubeClient :: "setup_calls \<Rightarrow> unit go" where
  "SetKubeClient su = go_wrap (\<lambda>e. ''failed to create client kuebclient: '' @ e) (su_dynamic su)"

definition setupClients :: "setup_calls \<Rightarrow> agent_cfg \<Rightarrow> unit go" where
  "setupClients su a =
     go_bind (getK8sConfig su a) (\<lambda>_.
     go_bind (go_wrap (\<lambda>e. ''failed to setup kubernetes client: '' @ e) (su_clientset su)) (\<lambda>_.
       go_wrap (\<lambda>e. ''failed to setup config resource client: '' @ e) (SetKubeClient su)))"

definition CreateWatch :: "setup_calls \<Rightarrow> string \<Rightarrow> string \<Rightarrow> string \<times> string \<times> string \<Rightarrow> unit go" where
  "CreateWatch su ns name gvr = su_watch su gvr ns (''metadata.name='' @ name)"

text \<open>
  \<^verbatim>\<open>watch.Object\<close> opens its inner watch before it returns, and its error is the one of
  \<open>create\<close>; how the watch goes on is the theory \<open>ObjectWatch\<close>.
\<close>

definition watch_Object :: "(string \<Rightarrow> string \<Rightarrow> unit go) \<Rightarrow> string \<Rightarrow> string \<Rightarrow> 'e watch_state go" where
  "watch_Object create ns name =
     (case create ns name of
        Panic p \<Rightarrow> Panic p
      | Err e \<Rightarrow> Err e
      | Ok _ \<Rightarrow> Ok (fst (ow_open True new_watch)))"

definition setupCrdWatch :: "setup_calls \<Rightarrow> agent_cfg \<Rightarrow> 'e watch_state go" where
  "setupCrdWatch su a =
     go_wrap (\<lambda>e. ''failed to setup crd watch: '' @ e)
       (watch_Object (\<lambda>ns name. CreateWatch su ns name (''resource.sop.huawei.com'', ''v1alpha1'', ''oenumas''))
         (ag_namespace a) (ag_crdname a))"

definition setupPodWatch :: "setup_calls \<Rightarrow> 'e watch_state go" where
  "setupPodWatch su =
     go_wrap (\<lambda>e. ''failed to setup pod watch: '' @ e) (watch_Object (\<lambda>ns name. su_podWatch su '''') '''' '''')"

definition setupWhitelistWatch :: "setup_calls \<Rightarrow> agent_cfg \<Rightarrow> 'e watch_state go" where
  "setupWhitelistWatch su a =
     go_wrap (\<lambda>e. ''failed to setup whitelist watch: '' @ e)
       (watch_Object (\<lambda>ns name. CreateWatch su ns name (''resource.sop.huawei.com'', ''v1alpha1'', ''whitelists''))
         (ag_namespace a) ''whitelist'')"

definition NewGrpcClient :: "setup_calls \<Rightarrow> string \<Rightarrow> string \<Rightarrow> unit go" where
  "NewGrpcClient su ip port = go_wrap (\<lambda>e. ''did not connect:'' @ e) (su_grpc su (ip @ '':'' @ port))"

definition setupGrpc :: "setup_calls \<Rightarrow> agent_flags \<Rightarrow> unit go" where
  "setupGrpc su fl =
     go_wrap (\<lambda>_. ''can not set up grpc client'') (NewGrpcClient su (fl_grpcIp fl) (fl_grpcPort fl))"

section \<open>The loop\<close>

text \<open>
  What \<^verbatim>\<open>Start\<close> launches beside its loop: the three watches of the group configuration, the
  periodic synchronisation of the tasks (with its period in seconds) and the metrics server.
\<close>

datatype service = NodeWatch | NodeConfigMapWatch | GroupConfigMapWatch | TaskSync int | MetricsServer

text \<open>
  \<open>al_crdWatch\<close> and its companions are the object watches, as they are when they are set; the pod
  watch is never cleaned up.
\<close>

record ('w, 'u) agent_state =
  al_services :: "service list"
  al_world :: 'w
  al_resmgr :: resmgr
  al_cache :: "store \<times> pod_cache"
  al_crdWatch :: "'u event_object watch_state option"
  al_podWatch :: "'u event_object watch_state option"
  al_whitelistWatch :: "'u event_object watch_state option"

text \<open>
  \<open>agent_start\<close> is \<^verbatim>\<open>Start\<close> up to its loop; a failing \<open>setupConfigCrd\<close> is only logged.
\<close>

definition agent_start ::
    "('w, 'u) cluster \<Rightarrow> setup_calls \<Rightarrow> agent_flags \<Rightarrow> agent_cfg \<Rightarrow> int \<Rightarrow> ('w, 'u) agent_state \<Rightarrow>
     ('w, 'u) agent_state go" where
  "agent_start cl su fl a reSync s =
     go_bind (setupClients su a) (\<lambda>_.
     go_bind (setupCrdWatch su a) (\<lambda>crd.
     go_bind (setupPodWatch su) (\<lambda>pod.
     go_bind (setupWhitelistWatch su a) (\<lambda>whitelist.
     go_bind (setupGrpc su fl) (\<lambda>_.
       (case setupConfigCrd cl a (al_world s) of
          (w1, Panic p) \<Rightarrow> Panic p
        | (w1, _) \<Rightarrow>
            (let (c1, r) = initPodCache cl w1 (al_cache s)
             in go_bind r (\<lambda>_. Ok (s\<lparr>al_world := w1, al_cache := c1, al_crdWatch := Some crd,
                  al_podWatch := Some pod, al_whitelistWatch := Some whitelist,
                  al_services := [NodeWatch, NodeConfigMapWatch, GroupConfigMapWatch,
                                  TaskSync reSync, MetricsServer]\<rparr>)))))))))"

text \<open>
  An event on a watch channel, or \<open>None\<close> when the channel is closed.
\<close>

datatype 'u loop_event =
    StopSignal | Tick | LoadBalanceTick
  | CrdEvent "'u event_object event option"
  | PodEvent "'u event_object event option"
  | WhitelistEvent "'u event_object event option"

datatype 's loop_result = Continue 's | Return 's

text \<open>
  The fields once the two calls of \<^verbatim>\<open>Stop\<close> have returned; that a call never does while the
  worker of the watch runs is shown of \<open>ObjectWatch\<close>.
\<close>

definition cleanUpWatches :: "('w, 'u) agent_state \<Rightarrow> ('w, 'u) agent_state" where
  "cleanUpWatches s = s\<lparr>al_crdWatch := None, al_whitelistWatch := None\<rparr>"

text \<open>The errors of handlers are logged; a panic ends the process.\<close>

definition log_error ::
    "('w, 'u) agent_state \<Rightarrow> 'w \<times> unit go \<Rightarrow> ('w, 'u) agent_state loop_result go" where
  "log_error s = (\<lambda>(w, r). case r of Panic p \<Rightarrow> Panic p | _ \<Rightarrow> Ok (Continue (s\<lparr>al_world := w\<rparr>)))"

fun loop_step ::
    "('w, 'u) cluster \<Rightarrow> agent_cfg \<Rightarrow> int \<Rightarrow> 'u loop_event \<Rightarrow> ('w, 'u) agent_state \<Rightarrow>
     ('w, 'u) agent_state loop_result go" where
  "loop_step cl a policy StopSignal s = Ok (Return (cleanUpWatches s))"
| "loop_step cl a policy Tick s =
     (if policy \<noteq> NET_AFFINITY then Ok (Continue s)
      else log_error s (updateByNumafastAware cl a (al_world s)))"
| "loop_step cl a policy LoadBalanceTick s =
     (if policy \<noteq> LOAD_BALANCE then Ok (Continue s)
      else log_error s (updateByLoadBalancing cl a (al_world s)))"
| "loop_step cl a policy (CrdEvent None) s = Ok (Continue s)"
| "loop_step cl a policy (CrdEvent (Some e)) s =
     (if ev_type e = Added \<or> ev_type e = Modified
      then (let (m1, w1, r) = updateByCrdConfig cl a (al_resmgr s) (ev_object e) (al_world s)
            in log_error (s\<lparr>al_resmgr := m1\<rparr>) (w1, r))
      else Ok (Continue s))"
| "loop_step cl a policy (PodEvent None) s = Ok (Continue s)"
| "loop_step cl a policy (PodEvent (Some e)) s =
     (if ev_type e = Deleted
      then log_error s (deleteObsoletePodsInCr cl a (ev_object e) (al_world s))
      else Ok (Continue s))"
| "loop_step cl a policy (WhitelistEvent None) s = Ok (Continue s)"
| "loop_step cl a policy (WhitelistEvent (Some e)) s =
     (if ev_type e = Added \<or> ev_type e = Modified
      then log_error s (al_world s, go_map (\<lambda>_. ()) (getManagedPods cl a (al_world s)))
      else Ok (Continue s))"

text \<open>The loop over the events that arrive; it ends at the stop signal.\<close>

fun agent_loop ::
    "('w, 'u) cluster \<Rightarrow> agent_cfg \<Rightarrow> int \<Rightarrow> 'u loop_event list \<Rightarrow> ('w, 'u) agent_state \<Rightarrow>
     ('w, 'u) agent_state loop_result go" where
  "agent_loop cl a policy [] s = Ok (Continue s)"
| "agent_loop cl a policy (e # es) s =
     (case loop_step cl a policy e s of
        Ok (Continue s1) \<Rightarrow> agent_loop cl a policy es s1
      | r \<Rightarrow> r)"

text \<open>
  The resource manager is started, then the agent.
\<close>

definition mgr_Start ::
    "('w, 'u) cluster \<Rightarrow> setup_calls \<Rightarrow> agent_flags \<Rightarrow> agent_cfg \<Rightarrow> int \<Rightarrow> 'u loop_event list \<Rightarrow>
     ('w, 'u) agent_state \<Rightarrow> ('w, 'u) agent_state loop_result go" where
  "mgr_Start cl su fl a reSync es s =
     (case resmgr_Start cl (al_resmgr s) (al_world s) of
        (m1, w1, Ok _) \<Rightarrow>
          go_bind (agent_start cl su fl a reSync (s\<lparr>al_resmgr := m1, al_world := w1\<rparr>))
            (agent_loop cl a (fl_policy fl) es)
      | (m1, w1, Err e) \<Rightarrow> Err e
      | (m1, w1, Panic p) \<Rightarrow> Panic p)"

text \<open>
  The process (\<open>cmd/nriplugin/main.go\<close>) in a world \<open>w\<close> with an empty cache \<open>c\<close>: every error ends it.
\<close>

definition nriplugin_main ::
    "('w, 'u) cluster \<Rightarrow> setup_calls \<Rightarrow> string \<Rightarrow> agent_flags \<Rightarrow> int \<Rightarrow> 'u loop_event list \<Rightarrow> 'w \<Rightarrow>
     store \<times> pod_cache \<Rightarrow> ('w, 'u) agent_state loop_result go" where
  "nriplugin_main cl su nodeName fl reSync es w c =
     (case New nodeName fl [] of
        Err e \<Rightarrow> Panic ProcessExit
      | Panic p \<Rightarrow> Panic p
      | Ok a \<Rightarrow>
          (case mgr_Start cl su fl a reSync es
                  \<lparr>al_services = [], al_world = w, al_resmgr = NewResourceManager, al_cache = c,
                   al_crdWatch = None, al_podWatch = None, al_whitelistWatch = None\<rparr> of
             Err e \<Rightarrow> Panic ProcessExit
           | r \<Rightarrow> r))"

section \<open>Stop\<close>

text \<open>
  The agent's channels, \<open>None\<close> for nil: \<^verbatim>\<open>New\<close> makes \<open>stopC\<close> only. Closing a closed channel
  panics; receiving from an open channel that nobody closes, and from a nil channel, blocks.
\<close>

datatype chan = OpenChan | ClosedChan

record agent_chans =
  ac_stopC :: "chan option"
  ac_doneC :: "chan option"

definition new_chans :: agent_chans where
  "new_chans = \<lparr>ac_stopC = Some OpenChan, ac_doneC = None\<rparr>"

datatype 'a call = Returns 'a | Blocks 'a

definition agent_Stop :: "agent_chans \<Rightarrow> agent_chans call go" where
  "agent_Stop c =
     (case ac_stopC c of
        None \<Rightarrow> Ok (Returns c)
      | Some ClosedChan \<Rightarrow> Panic CloseOfClosed
      | Some OpenChan \<Rightarrow>
          (let c1 = c\<lparr>ac_stopC := Some ClosedChan\<rparr>
           in if ac_doneC c1 = Some ClosedChan then Ok (Returns (c1\<lparr>ac_stopC := None\<rparr>))
              else Ok (Blocks c1)))"

text \<open>The loop sees the stop signal as soon as \<open>stopC\<close> is closed, and closes nothing itself.\<close>

definition stop_signalled :: "agent_chans \<Rightarrow> bool" where
  "stop_signalled c \<longleftrightarrow> ac_stopC c = Some ClosedChan"

text \<open>
  No assignment of the package sets \<open>doneC\<close>: the caller waits for ever, whether or not the loop gets
  past its clean-up.
\<close>

lemma agent_Stop_blocks:
  assumes "ac_stopC c = Some OpenChan" and "ac_doneC c = None"
  shows "\<exists>c1. agent_Stop c = Ok (Blocks c1) \<and> stop_signalled c1 \<and> ac_doneC c1 = None
           \<and> loop_step cl a policy StopSignal s = Ok (Return (cleanUpWatches s))"
  using assms by (simp add: agent_Stop_def stop_signalled_def)

section \<open>Properties\<close>

text \<open>A client library whose calls answer or report an error.\<close>

definition calm :: "('w, 'u) cluster \<Rightarrow> bool" where
  "calm cl \<longleftrightarrow>
     (\<forall>w r ns n. \<not> go_is_panic (cl_get cl w r ns n)) \<and> (\<forall>w r ns u. \<not> go_is_panic (snd (cl_update cl w r ns u)))
   \<and> (\<forall>w ns n. \<not> go_is_panic (cl_get_pod cl w ns n)) \<and> (\<forall>u. \<not> go_is_panic (cl_to_oenuma cl u))
   \<and> (\<forall>oe. \<not> go_is_panic (cl_of_oenuma cl oe)) \<and> (\<forall>u. \<not> go_is_panic (cl_to_whitelist cl u))
   \<and> (\<forall>w us. \<not> go_is_panic (snd (cl_update_containers cl w us)))"

lemma calm_not_Panic:
  "\<not> go_is_panic r \<Longrightarrow> r \<noteq> Panic p" by auto

lemma go_is_panic_map [simp]: "go_is_panic (go_map f r) = go_is_panic r"
  by (cases r) auto

lemma go_is_panic_wrap [simp]: "go_is_panic (go_wrap f r) = go_is_panic r"
  by (cases r) auto

lemma calm_calls:
  assumes "calm cl"
  shows "\<not> go_is_panic (cl_get cl w r ns n)" and "\<not> go_is_panic (snd (cl_update cl w r ns u))"
    and "\<not> go_is_panic (cl_to_oenuma cl u)" and "\<not> go_is_panic (cl_of_oenuma cl oe)"
    and "\<not> go_is_panic (cl_to_whitelist cl u)"
    and "\<not> go_is_panic (snd (cl_update_containers cl w us))"
  using assms by (simp_all add: calm_def)

lemma go_is_panic_bind:
  "\<lbrakk>\<not> go_is_panic r; \<And>x. \<not> go_is_panic (f x)\<rbrakk> \<Longrightarrow> \<not> go_is_panic (go_bind r f)"
  by (cases r) auto

lemma calm_read_oenuma: "calm cl \<Longrightarrow> \<not> go_is_panic (read_oenuma cl a w)"
  by (simp add: read_oenuma_def GetConfigCrd_def go_is_panic_bind calm_calls)

lemma calm_write_oenuma: 
  assumes "calm cl"
  shows "\<not> go_is_panic (snd (write_oenuma cl a w oe))"
  using calm_calls(4) [OF assms, of oe]
  by (cases "cl_of_oenuma cl oe")
    (simp_all add: write_oenuma_def UpdateConfigCrd_def split_beta Let_def calm_calls(2) [OF assms])

lemma calm_getManagedPods: "calm cl \<Longrightarrow> \<not> go_is_panic (getManagedPods cl a w)"
  by (simp add: getManagedPods_def GetConfigCrd_def go_is_panic_bind calm_calls)

lemma calm_delete: "calm cl \<Longrightarrow> \<not> go_is_panic (snd (deleteObsoletePodsInCr cl a obj w))"
  using calm_read_oenuma [of cl a w]
  by (cases obj; cases "read_oenuma cl a w")
    (auto simp: deleteObsoletePodsInCr_def calm_write_oenuma split: option.split)

lemma calm_crd:
  assumes "calm cl" and "resmgr_ok m" and "rm_running m"
  shows "fst (updateByCrdConfig cl a m obj w) = m \<and> \<not> go_is_panic (snd (snd (updateByCrdConfig cl a m obj w)))"
proof (cases obj)
  case (Unstruct un)
  obtain cfg where cfg: "createCrdConfigPolicy cl a w oe = Ok (cfg oe)" for oe
    using createCrdConfigPolicy_updates [of cl w a] assms(1) unfolding calm_def by metis
  have "updateConfig cl m (PolicyConfig c) w = (m, reconfigCrd cl m c w)" for c
    using assms(3) by (simp add: updateConfig_def rm_ensure_running_def split_beta)
  moreover have "\<not> go_is_panic (snd (reconfigCrd cl m c w))" for c
    using assms(1) unfolding reconfigCrd_running [OF assms(2,3)] calm_def by simp
  ultimately show ?thesis
    using assms(1) unfolding calm_def
    by (cases "cl_to_oenuma cl un") (auto simp: Unstruct updateByCrdConfig_def cfg dest: calm_not_Panic)
qed (auto simp: updateByCrdConfig_def)

text \<open>The events of the watches.\<close>

fun watch_event :: "'u loop_event \<Rightarrow> bool" where
  "watch_event (CrdEvent _) = True"
| "watch_event (PodEvent _) = True"
| "watch_event (WhitelistEvent _) = True"
| "watch_event _ = False"

lemma log_error_ok:
  "\<not> go_is_panic (snd x) \<Longrightarrow> log_error s x = Ok (Continue (s\<lparr>al_world := fst x\<rparr>))"
  by (cases x; cases "snd x") (auto simp: log_error_def)

lemma watch_step:
  assumes "calm cl" and "resmgr_ok (al_resmgr s)" and "rm_running (al_resmgr s)" and "watch_event e"
  shows "\<exists>s'. loop_step cl a policy e s = Ok (Continue s') \<and> al_resmgr s' = al_resmgr s"
proof (cases e)
  case (CrdEvent ev)
  show ?thesis
  proof (cases ev)
    case (Some x)
    obtain m1 w1 r where u: "updateByCrdConfig cl a (al_resmgr s) (ev_object x) (al_world s) = (m1, w1, r)"
      by (metis prod_cases3)
    then have "m1 = al_resmgr s" "\<not> go_is_panic r"
      using calm_crd [OF assms(1-3), of a "ev_object x" "al_world s"] by auto
    then show ?thesis by (simp add: CrdEvent Some u log_error_ok)
  qed (simp add: CrdEvent)
next
  case (PodEvent ev)
  then show ?thesis
    by (cases ev) (auto simp: log_error_ok calm_delete [OF assms(1)])
next
  case (WhitelistEvent ev)
  then show ?thesis
    by (cases ev) (auto simp: log_error_ok calm_getManagedPods [OF assms(1)])
qed (use assms(4) in auto)

text \<open>
  C31: once the process has started, no sequence of events on its watches ends the agent's loop:
  whatever objects they carry and whatever the client libraries report, errors are logged, closed
  channels are skipped, and the runtime is only ever called through a stub that exists.
\<close>

theorem watch_events_never_stop_agent:
  assumes "calm cl" and "resmgr_ok (al_resmgr s)"
    and "resmgr_Start cl (al_resmgr s) (al_world s) = (m1, w1, Ok ())"
    and "agent_start cl su fl a reSync (s\<lparr>al_resmgr := m1, al_world := w1\<rparr>) = Ok s1"
    and "list_all watch_event es"
  shows "\<exists>s'. mgr_Start cl su fl a reSync es s = Ok (Continue s') \<and> rm_running (al_resmgr s')"
proof -
  have m1: "resmgr_ok m1" "rm_running m1"
    using rm_ensure_running_ok [OF assms(2), of cl "al_world s" m1 w1 "Ok ()"] assms(3)
    by (auto simp: resmgr_Start_def)
  have s1: "al_resmgr s1 = m1"
    using assms(4) unfolding agent_start_def
    by (auto elim!: go_bind_OkE split: prod.split_asm go.split_asm simp: Let_def)
  have "\<exists>s'. agent_loop cl a (fl_policy fl) es s = Ok (Continue s') \<and> rm_running (al_resmgr s')"
    if "al_resmgr s = m1" for s
    using assms(5) that
  proof (induction es arbitrary: s)
    case (Cons e es)
    then obtain s2 where "loop_step cl a (fl_policy fl) e s = Ok (Continue s2)" "al_resmgr s2 = m1"
      using watch_step [OF assms(1), of s e a "fl_policy fl"] m1 by auto
    with Cons show ?case by simp
  qed (use m1 in simp)
  from this [OF s1] show ?thesis by (simp add: mgr_Start_def assms(3,4))
qed

definition all_well :: setup_calls where
  "all_well =
     \<lparr>su_inCluster = Ok (), su_fromFlags = (\<lambda>_. Err ''no kubeconfig''), su_clientset = Ok (),
      su_dynamic = Ok (), su_watch = (\<lambda>_ _ _. Ok ()), su_podWatch = (\<lambda>_. Ok ()), su_grpc = (\<lambda>_. Ok ())\<rparr>"

definition sample_state :: "(world, uobject) agent_state" where
  "sample_state =
     \<lparr>al_services = [], al_world = (sample_world [] [] [] [])\<lparr>wd_oenumas := []\<rparr>,
      al_resmgr = NewResourceManager, al_cache = (\<lparr>st_pods = [], st_labels = []\<rparr>, []), al_crdWatch = None,
      al_podWatch = None, al_whitelistWatch = None\<rparr>"

lemma calm_sample: "calm sample_cluster"
  by (auto simp: calm_def sample_cluster_def world_get_def world_put_def split: option.split sum.split)

theorem watch_events_never_stop_agent_witness:
  "\<exists>s'. mgr_Start sample_cluster all_well default_flags sample_agent 10
     [CrdEvent (Some \<lparr>ev_type = Modified, ev_object = Unstruct (Inl (sample_oenuma []))\<rparr>),
      PodEvent None, WhitelistEvent (Some \<lparr>ev_type = Added, ev_object = NoObject\<rparr>),
      PodEvent (Some \<lparr>ev_type = Deleted, ev_object = OtherObject ''status''\<rparr>)] sample_state = Ok (Continue s')
   \<and> rm_running (al_resmgr s')"
proof -
  define m1 where "m1 = \<lparr>rm_running = True, rm_nri = Some \<lparr>np_stub = True\<rparr>\<rparr>"
  define s1 where "s1 = sample_state\<lparr>al_resmgr := m1, al_world := al_world sample_state\<rparr>"
  have r: "resmgr_Start sample_cluster (al_resmgr sample_state) (al_world sample_state)
      = (m1, al_world sample_state, Ok ())"
    unfolding m1_def by code_simp
  have "go_is_ok (agent_start sample_cluster all_well default_flags sample_agent 10 s1)"
    unfolding s1_def m1_def by code_simp
  then obtain s2 where s2: "agent_start sample_cluster all_well default_flags sample_agent 10 s1 = Ok s2"
    by (auto simp: go_is_ok_iff)
  show ?thesis
    by (rule watch_events_never_stop_agent [OF calm_sample _ r s2 [unfolded s1_def]])
      (simp_all add: sample_state_def resmgr_ok_new)
qed

end
