(* ===== verification/Durations.thy ===== *)
theory Durations
  imports GoStrings
begin

text \<open>
  \<^verbatim>\<open>time.ParseDuration\<close> of the standard library: a sign, then numbers with units, summed in
  nanoseconds within 63 bits. The library adds a fraction with floating point numbers; here it is
  added exactly and rounded down, which can differ in the last nanosecond of a fraction with more
  digits than its unit has.
\<close>

definition unit_nanos :: "string \<Rightarrow> int option" where
  "unit_nanos u =
     map_of [(''ns'', 1), (''us'', 1000), ([CHR 0xC2, CHR 0xB5, CHR ''s''], 1000),
             ([CHR 0xCE, CHR 0xBC, CHR ''s''], 1000), (''ms'', 1000000), (''s'', 1000000000),
             (''m'', 60 * 1000000000), (''h'', 3600 * 1000000000)] u"

definition is_number_char :: "char \<Rightarrow> bool" where
  "is_number_char c \<longleftrightarrow> c = CHR ''.'' \<or> is_digit c"

definition digit_int :: "char \<Rightarrow> int" where
  "digit_int c = int (of_char c) - 48"

definition two63 :: int where "two63 = 9223372036854775808"

text \<open>The digits in front: more than \<open>2 ^ 63\<close> is an error, \<open>None\<close>.\<close>

fun int_of_digits :: "string \<Rightarrow> int \<Rightarrow> int" where
  "int_of_digits [] x = x"
| "int_of_digits (c # cs) x = int_of_digits cs (x * 10 + digit_int c)"

definition leadingInt :: "string \<Rightarrow> int option \<times> string" where
  "leadingInt s =
     (let x = int_of_digits (takeWhile is_digit s) 0
      in (if x > two63 then None else Some x, dropWhile is_digit s))"

text \<open>The digits of a fraction, those beyond 63 bits skipped: numerator and scale.\<close>

fun fraction :: "string \<Rightarrow> int \<times> int \<Rightarrow> int \<times> int" where
  "fraction [] r = r"
| "fraction (c # cs) (x, scale) =
     (if x > (two63 - 1) div 10 \<or> x * 10 + digit_int c > two63 then (x, scale)
      else fraction cs (x * 10 + digit_int c, scale * 10))"

definition invalid_duration :: "string \<Rightarrow> string" where
  "invalid_duration orig = ''time: invalid duration '' @ quoted orig"

text \<open>One number with its unit: the nanoseconds, and what is left of the text.\<close>

definition parse_number :: "string \<Rightarrow> string \<Rightarrow> (int \<times> string) go" where
  "parse_number orig s =
     (if s = [] \<or> \<not> is_number_char (hd s) then Err (invalid_duration orig)
      else (case leadingInt s of
        (None, _) \<Rightarrow> Err (invalid_duration orig)
      | (Some v, s1) \<Rightarrow>
          (let dot = (s1 \<noteq> [] \<and> hd s1 = CHR ''.'');
               frac = (if dot then takeWhile is_digit (tl s1) else []);
               s2 = (if dot then dropWhile is_digit (tl s1) else s1);
               (f, scale) = fraction frac (0, 1);
               u = takeWhile (\<lambda>c. \<not> is_number_char c) s2;
               s3 = dropWhile (\<lambda>c. \<not> is_number_char c) s2
           in if s1 = s \<and> frac = [] then Err (invalid_duration orig)
              else if u = [] then Err (''time: missing unit in duration '' @ quoted orig)
              else (case unit_nanos u of
                 None \<Rightarrow> Err (''time: unknown unit '' @ quoted u @ '' in duration '' @ quoted orig)
               | Some n \<Rightarrow>
                   (if v > two63 div n \<or> v * n + f * n div scale > two63 then Err (invalid_duration orig)
                    else Ok (v * n + f * n div scale, s3))))))"

lemma parse_number_shorter: "parse_number orig s = Ok (v, s') \<Longrightarrow> length s' < length s"
proof -
  assume "parse_number orig s = Ok (v, s')"
  then obtain s1 s2 where s1: "s1 = dropWhile is_digit s"
    and s2: "s2 = (if s1 \<noteq> [] \<and> hd s1 = CHR ''.'' then dropWhile is_digit (tl s1) else s1)"
    and u: "takeWhile (\<lambda>c. \<not> is_number_char c) s2 \<noteq> []"
    and s': "s' = dropWhile (\<lambda>c. \<not> is_number_char c) s2"
    by (auto simp: parse_number_def leadingInt_def Let_def
        split: if_split_asm option.split_asm prod.split_asm)
  have "length s' < length s2"
    using u unfolding s' by (cases s2) (auto simp: less_Suc_eq_le length_dropWhile_le)
  also have "length s2 \<le> length s1"
    using length_dropWhile_le [of is_digit "tl s1"] by (simp add: s2) linarith
  also have "length s1 \<le> length s" by (simp add: s1 length_dropWhile_le)
  finally show ?thesis .
qed

text \<open>The loop over the numbers; the sum is kept in 64 bits.\<close>

function parse_numbers :: "string \<Rightarrow> string \<Rightarrow> int \<Rightarrow> int go" where
  "parse_numbers orig s d =
     (if s = [] then Ok d
      else (case parse_number orig s of
        Ok (v, s1) \<Rightarrow> 
          (let d1 = (d + v) mod (2 * two63)
           in if d1 > two63 then Err (invalid_duration orig) else parse_numbers orig s1 d1)
      | Err e \<Rightarrow> Err e
      | Panic p \<Rightarrow> Panic p))"
  by auto
termination
  by (relation "measure (\<lambda>(orig, s, d). length s)") (auto simp: parse_number_shorter)

definition time_ParseDuration :: "string \<Rightarrow> int go" where
  "time_ParseDuration orig =
     (let signed = (orig \<noteq> [] \<and> hd orig \<in> {CHR ''-'', CHR ''+''});
          neg = (orig \<noteq> [] \<and> hd orig = CHR ''-'');
          s = (if signed then tl orig else orig)
      in if s = ''0'' then Ok 0
         else if s = [] then Err (invalid_duration orig)
         else go_bind (parse_numbers orig s 0) (\<lambda>d.
                if neg then Ok (- d)
                else if d > two63 - 1 then Err (invalid_duration orig) else Ok d))"

section \<open>Whole seconds\<close>

declare parse_numbers.simps [simp del]

lemma digit_int_digit_char [simp]: "d < 10 \<Longrightarrow> digit_int (digit_char d) = int d"
  by (simp add: digit_int_def of_digit_char)

lemma int_of_digits_append: "int_of_digits (s @ t) x = int_of_digits t (int_of_digits s x)"
  by (induction s arbitrary: x) auto

lemma int_of_digits_nat_digits: "int_of_digits (nat_digits n) 0 = int n"
proof (induction n rule: nat_digits.induct)
  case (1 n)
  then show ?case
    by (cases "n < 10") (simp_all add: nat_digits.simps [of n] int_of_digits_append zdiv_int zmod_int)
qed

lemma digits_then: 
  assumes "\<not> is_digit c"
  shows "takeWhile is_digit (nat_digits n @ c # s) = nat_digits n"
    and "dropWhile is_digit (nat_digits n @ c # s) = c # s"
  using assms nat_digits_digits [of _ n]
  by (simp_all add: takeWhile_append2 dropWhile_append2)

lemma letter_s [simp]: "\<not> is_digit (CHR ''s'')" "\<not> is_number_char (CHR ''s'')"
  by (simp_all add: is_digit_def digit_value_def is_number_char_def)

text \<open>The largest number of whole seconds in 63 bits.\<close>

definition max_seconds :: int where "max_seconds = 9223372036"

lemma parse_number_seconds:
  "parse_number orig (nat_digits n @ ''s'') =
     (if int n \<le> max_seconds then Ok (int n * 1000000000, []) else Err (invalid_duration orig))"
proof -
  have "is_number_char (hd (nat_digits n @ ''s''))"
    using hd_nat_digits [of n] by (simp add: is_number_char_def)
  then show ?thesis
    by (auto simp: parse_number_def leadingInt_def digits_then int_of_digits_nat_digits unit_nanos_def
        max_seconds_def two63_def)
qed

lemma ParseDuration_seconds:
  assumes "0 \<le> n"
  shows "time_ParseDuration (strconv_Itoa n @ ''s'') =
     (if n \<le> max_seconds then Ok (n * 1000000000) else Err (invalid_duration (strconv_Itoa n @ ''s'')))"
proof -
  obtain d ds where d: "nat_digits (nat n) = d # ds" "is_digit d"
    using hd_nat_digits [of "nat n"] by (cases "nat_digits (nat n)") auto
  have i: "strconv_Itoa n = nat_digits (nat n)" using assms by (simp add: strconv_Itoa_def)
  have "d \<noteq> CHR ''-''" "d \<noteq> CHR ''+''" using d(2) by auto
  moreover have "parse_numbers orig (nat_digits (nat n) @ ''s'') 0 =
      (if n \<le> max_seconds then Ok (n * 1000000000) else Err (invalid_duration orig))" for orig
    using assms by (simp add: parse_numbers.simps [of orig "nat_digits (nat n) @ ''s''"]
        parse_numbers.simps [of orig "[]"] parse_number_seconds max_seconds_def two63_def)
  ultimately show ?thesis
    using assms by (auto simp: time_ParseDuration_def i d max_seconds_def two63_def Let_def)
qed

end
