(* ===== verification/RuntimeConfig.thy ===== *)
theory RuntimeConfig
  imports OsFiles Durations
begin

text \<open>
  \<open>pkg/resmgr/config-manager.go\<close>: the configuration of the container runtime. The timeouts of the
  NRI plugin are checked, the one runtime that is active is found, its configuration is changed
  so that NRI is enabled, and the runtime is restarted.
\<close>

section \<open>TOML documents\<close>

text \<open>
  A document as the TOML library decodes it: tables are maps, what the code does not look into is
  kept as it is. A table nested in another is shared with it, so that a change of the inner one
  is written back into the outer one here.
\<close>

datatype toml =
    TomlTable "(string \<times> toml) list" | TomlString string | TomlBool bool | TomlInt int
  | TomlArray "toml list" | TomlOther string

type_synonym toml_map = "(string, toml) go_map"

text \<open>The type assertion \<^verbatim>\<open>v.(map[string]interface{})\<close> on the value of a key.\<close>

definition table_at :: "string \<Rightarrow> toml_map \<Rightarrow> toml_map option" where
  "table_at k m = (case map_of m k of Some (TomlTable t) \<Rightarrow> Some t | _ \<Rightarrow> None)"

section \<open>The surroundings\<close>

text \<open>
  \<open>re_create\<close> makes a file or empties it, \<open>re_put\<close> writes on at the end of what was written to
  it; the TOML library decodes a document, to a nil map when there is nothing in it, and encodes
  one; \<open>re_connect\<close>, \<open>re_active_units\<close> and \<open>re_restart\<close> are calls of systemd over D-Bus, the last
  one answers the result of the restart job.
\<close>

record 'w runtime_env =
  re_os :: "'w os"
  re_create :: "'w \<Rightarrow> string \<Rightarrow> 'w \<times> unit os_result"
  re_put :: "'w \<Rightarrow> string \<Rightarrow> string \<Rightarrow> 'w \<times> unit os_result"
  re_unmarshal :: "string \<Rightarrow> toml_map option go"
  re_encode :: "toml_map \<Rightarrow> string go"
  re_connect :: "'w \<Rightarrow> unit go"
  re_active_units :: "'w \<Rightarrow> string list go"
  re_restart :: "'w \<Rightarrow> string \<Rightarrow> 'w \<times> string go"

definition containerdConfigFile :: string where "containerdConfigFile = ''/etc/containerd/config.toml''"

definition crioConfigFile :: string where "crioConfigFile = ''/etc/crio/crio.conf.d/10-enable-nri.conf''"

definition nriPluginKey :: string where "nriPluginKey = ''io.containerd.nri.v1.nri''"

definition containerdUnit :: string where "containerdUnit = ''containerd.service''"

definition crioUnit :: string where "crioUnit = ''crio.service''"

section \<open>The timeouts\<close>

record nriConfig =
  nc_registrationTimeout :: string
  nc_requestTimeout :: string

text \<open>What the flags of the command line are without arguments.\<close>

definition default_nriConfig :: nriConfig where
  "default_nriConfig = \<lparr>nc_registrationTimeout = ''15s'', nc_requestTimeout = ''5s''\<rparr>"

text \<open>The last message leaves out the two durations.\<close>

definition check :: "nriConfig \<Rightarrow> unit go" where
  "check cfg =
     (if nc_registrationTimeout cfg = '''' \<and> nc_requestTimeout cfg = '''' then Ok ()
      else if nc_registrationTimeout cfg \<noteq> '''' \<and> nc_requestTimeout cfg = ''''
      then Err ''NRI plugin registration timeout set without request timeout''
      else if nc_registrationTimeout cfg = '''' \<and> nc_requestTimeout cfg \<noteq> ''''
      then Err ''NRI plugin request timeout set without registration timeout''
      else go_bind (go_wrap (\<lambda>e. ''invalid plugin registration timeout: '' @ e)
                     (time_ParseDuration (nc_registrationTimeout cfg))) (\<lambda>register.
           go_bind (go_wrap (\<lambda>e. ''invalid plugin request timeout: '' @ e)
                     (time_ParseDuration (nc_requestTimeout cfg))) (\<lambda>request.
             if register \<le> request
             then Err ''NRI plugin registration timeout must be > request timeout''
             else Ok ())))"

section \<open>The runtime in use\<close>

definition detectRuntime :: "'w runtime_env \<Rightarrow> 'w \<Rightarrow> string go" where
  "detectRuntime env w =
     go_bind (go_wrap (\<lambda>e. ''failed to create DBus connection: '' @ e) (re_connect env w)) (\<lambda>_.
     go_bind (go_wrap (\<lambda>e. ''failed to detect container runtime in use: '' @ e) (re_active_units env w))
       (\<lambda>units.
         let expectedUnits = filter (\<lambda>u. u = containerdUnit \<or> u = crioUnit) units
         in if length expectedUnits = 0
            then Err ''failed to detect container runtime in use: got 0 systemd units''
            else if length expectedUnits > 1
            then Err ''detected more than one container runtime on the host, expected one''
            else Ok (expectedUnits ! 0)))"

section \<open>containerd\<close>

definition readConfig :: "'w runtime_env \<Rightarrow> string \<Rightarrow> 'w \<Rightarrow> toml_map option go" where
  "readConfig env file w =
     (case os_read (re_os env) w file of
        Fail e \<Rightarrow> Err (''error reading file: '' @ error_text e)
      | Done (_, Some e) \<Rightarrow> Err (''error reading file: '' @ error_text e)
      | Done (s, None) \<Rightarrow> go_wrap (\<lambda>e. ''error unmarshaling TOML: '' @ e) (re_unmarshal env s))"

text \<open>The method of \<^verbatim>\<open>nriConfig\<close>: the timeouts, set in the map it is given.\<close>

definition registrationTimeoutKey :: string where
  "registrationTimeoutKey = ''plugin_registration_timeout''"

definition requestTimeoutKey :: string where "requestTimeoutKey = ''plugin_request_timeout''"

definition set_timeouts :: "nriConfig \<Rightarrow> toml_map \<Rightarrow> toml_map" where
  "set_timeouts cfg m =
     (let m1 = (if nc_registrationTimeout cfg \<noteq> ''''
                then AList.update registrationTimeoutKey (TomlString (nc_registrationTimeout cfg)) m
                else m)
      in if nc_requestTimeout cfg \<noteq> ''''
         then AList.update requestTimeoutKey (TomlString (nc_requestTimeout cfg)) m1
         else m1)"

text \<open>
  A missing section, or one that is no table, is replaced by an empty one; writing to the nil
  map of an empty document panics.
\<close>

definition updateContainerdConfig :: "toml_map option \<Rightarrow> nriConfig \<Rightarrow> toml_map go" where
  "updateContainerdConfig config cfg =
     (case config of
        None \<Rightarrow> Panic NilMapWrite
      | Some m \<Rightarrow>
          (let plugins = (case table_at ''plugins'' m of Some t \<Rightarrow> t | None \<Rightarrow> []);
               nri = (case table_at nriPluginKey plugins of Some t \<Rightarrow> t | None \<Rightarrow> []);
               nri1 = AList.update ''disable'' (TomlBool False) nri;
               plugins1 = AList.update nriPluginKey (TomlTable nri1) plugins;
               m1 = AList.update ''plugins'' (TomlTable plugins1) m
           in Ok (set_timeouts cfg m1)))"

text \<open>
  The text goes through a buffer of 4096 bytes: a longer one is written by \<^verbatim>\<open>WriteString\<close>, a
  shorter one by \<^verbatim>\<open>Flush\<close>, whose error is passed on as it is.
\<close>

definition writeToContainerdConfig ::
    "'w runtime_env \<Rightarrow> string \<Rightarrow> toml_map \<Rightarrow> 'w \<Rightarrow> 'w \<times> unit go" where
  "writeToContainerdConfig env file config w =
     (case re_encode env config of
        Err e \<Rightarrow> (w, Err (''error encoding file: '' @ e))
      | Panic p \<Rightarrow> (w, Panic p)
      | Ok text \<Rightarrow>
          (case re_create env w file of
             (w1, Fail e) \<Rightarrow> (w1, Err (''error truncating file: '' @ error_text e))
           | (w1, Done _) \<Rightarrow>
               if text = [] then (w1, Ok ())
               else (case re_put env w1 file text of
                       (w2, Done _) \<Rightarrow> (w2, Ok ())
                     | (w2, Fail e) \<Rightarrow>
                         (w2, Err (if int (length text) > 4096 then ''error writing to file: '' @ error_text e
                                   else error_text e)))))"

definition configureNriForContainerd :: "'w runtime_env \<Rightarrow> nriConfig \<Rightarrow> 'w \<Rightarrow> 'w \<times> unit go" where
  "configureNriForContainerd env cfg w =
     (case go_bind (go_wrap (\<lambda>e. ''error reading TOML file: '' @ e) (readConfig env containerdConfigFile w))
             (\<lambda>m. updateContainerdConfig m cfg) of
        Err e \<Rightarrow> (w, Err e)
      | Panic p \<Rightarrow> (w, Panic p)
      | Ok m \<Rightarrow>
          (let (w1, r) = writeToContainerdConfig env containerdConfigFile m w
           in (w1, go_wrap (\<lambda>e. ''failed to write updated config into a file '' @
                 quoted containerdConfigFile @ '': '' @ e) r)))"

section \<open>CRI-O\<close>

text \<open>Texts written one after the other to the file; the first error ends it.\<close>

fun write_texts :: "'w runtime_env \<Rightarrow> string \<Rightarrow> string list \<Rightarrow> 'w \<Rightarrow> 'w \<times> unit go" where
  "write_texts env file [] w = (w, Ok ())"
| "write_texts env file (t # ts) w =
     (case re_put env w file t of
        (w1, Done _) \<Rightarrow> write_texts env file ts w1
      | (w1, Fail e) \<Rightarrow> (w1, Err (error_text e)))"

definition crio_line :: "string \<Rightarrow> string \<Rightarrow> string" where
  "crio_line key v = key @ '' = '' @ [CHR 0x22] @ v @ [CHR 0x22] @ [CHR 0x0A]"

definition crio_lines :: "nriConfig \<Rightarrow> string list" where
  "crio_lines cfg =
     (if nc_registrationTimeout cfg \<noteq> ''''
      then [crio_line ''nri_plugin_registration_timeout'' (nc_registrationTimeout cfg)] else []) @
     (if nc_requestTimeout cfg \<noteq> ''''
      then [crio_line ''nri_plugin_request_timeout'' (nc_requestTimeout cfg)] else [])"

definition writeCrioConfig :: "'w runtime_env \<Rightarrow> string \<Rightarrow> nriConfig \<Rightarrow> 'w \<Rightarrow> 'w \<times> unit go" where
  "writeCrioConfig env file cfg w = write_texts env file (crio_lines cfg) w"

definition crio_header :: string where
  "crio_header = ''[crio.nri]'' @ [CHR 0x0A] @ ''enable_nri = true'' @ [CHR 0x0A]"

definition configureNriForCrio :: "'w runtime_env \<Rightarrow> nriConfig \<Rightarrow> 'w \<Rightarrow> 'w \<times> unit go" where
  "configureNriForCrio env cfg w =
     (case re_create env w crioConfigFile of
        (w1, Fail e) \<Rightarrow> (w1, Err (''error creating a drop-in file for CRI-O: '' @ error_text e))
      | (w1, Done _) \<Rightarrow>
          (case re_put env w1 crioConfigFile crio_header of
             (w2, Fail e) \<Rightarrow> (w2, Err (''error writing a drop-in file for CRI-O: '' @ error_text e))
           | (w2, Done _) \<Rightarrow>
               (let (w3, r) = writeCrioConfig env crioConfigFile cfg w2
                in (w3, go_wrap (\<lambda>e. ''error writing NRI configuration for CRI-O: '' @ e) r))))"

section \<open>The whole\<close>

definition restartSystemdUnit :: "'w runtime_env \<Rightarrow> string \<Rightarrow> 'w \<Rightarrow> 'w \<times> unit go" where
  "restartSystemdUnit env unit w =
     (case re_restart env w unit of
        (w1, Ok result) \<Rightarrow>
          (w1, if result \<noteq> ''done''
               then Err (''failed to restart systemd unit '' @ quoted unit @ '', with result '' @ quoted result)
               else Ok ())
      | (w1, Err e) \<Rightarrow> (w1, Err (''failed to restart systemd unit '' @ quoted unit @ '': '' @ e))
      | (w1, Panic p) \<Rightarrow> (w1, Panic p))"

text \<open>
  The error of the configuration is kept in \<^verbatim>\<open>err\<close>, which the restart then overwrites without
  anyone having looked at it.
\<close>

definition ReconfigContainerd :: "'w runtime_env \<Rightarrow> nriConfig \<Rightarrow> 'w \<Rightarrow> 'w \<times> unit go" where
  "ReconfigContainerd env cfg w =
     (case check cfg of
        Err _ \<Rightarrow> (w, Panic ProcessExit)
      | Panic p \<Rightarrow> (w, Panic p)
      | Ok _ \<Rightarrow>
          (case detectRuntime env w of
             Err _ \<Rightarrow> (w, Panic ProcessExit)
           | Panic p \<Rightarrow> (w, Panic p)
           | Ok unit \<Rightarrow>
               (let configured =
                      (if unit = containerdUnit then configureNriForContainerd env cfg w
                       else if unit = crioUnit then configureNriForCrio env cfg w
                       else (w, Panic ProcessExit))
                in (case configured of
                      (w1, Panic p) \<Rightarrow> (w1, Panic p)
                    | (w1, _) \<Rightarrow>
                        (case restartSystemdUnit env unit w1 of
                           (w2, Ok _) \<Rightarrow> (w2, Ok ())
                         | (w2, Err _) \<Rightarrow> (w2, Panic ProcessExit)
                         | (w2, Panic p) \<Rightarrow> (w2, Panic p))))))"

end
