(* ===== verification/RuntimeConfigProps.thy ===== *)
theory RuntimeConfigProps
  imports RuntimeConfig OsSample
begin

text \<open>
  Properties of the configuration of the container runtime: which timeouts are accepted, what
  the configuration of containerd looks like afterwards, and when the whole succeeds.
\<close>

section \<open>The timeouts\<close>

lemma strconv_Itoa_append [simp]: "strconv_Itoa n @ s \<noteq> []"
  by simp

text \<open>
  C36: timeouts of whole seconds are accepted exactly when the registration timeout is the longer
  one and fits a duration, 63 bits of nanoseconds; beyond that bound it is refused, not wrapped.
\<close>

theorem check_seconds:
  assumes "0 \<le> r" and "0 \<le> q"
  shows "check \<lparr>nc_registrationTimeout = strconv_Itoa r @ ''s'', nc_requestTimeout = strconv_Itoa q @ ''s''\<rparr>
           = Ok ()
         \<longleftrightarrow> q < r \<and> r \<le> max_seconds"
  using assms by (auto simp: check_def ParseDuration_seconds)

theorem check_seconds_witness:
  "check \<lparr>nc_registrationTimeout = strconv_Itoa 15 @ ''s'', nc_requestTimeout = strconv_Itoa 5 @ ''s''\<rparr>
     = Ok ()
   \<and> check \<lparr>nc_registrationTimeout = strconv_Itoa 9223372037 @ ''s'',
           nc_requestTimeout = strconv_Itoa 5 @ ''s''\<rparr> \<noteq> Ok ()"
  using check_seconds [of 15 5] check_seconds [of 9223372037 5] by (simp add: max_seconds_def)

section \<open>containerd\<close>

lemma keys_distinct [simp]:
  "registrationTimeoutKey \<noteq> requestTimeoutKey" "''plugins'' \<noteq> registrationTimeoutKey"
  "''plugins'' \<noteq> requestTimeoutKey"
  by (simp_all add: registrationTimeoutKey_def requestTimeoutKey_def)

lemmas keys_distinct_sym [simp] = keys_distinct [symmetric]

lemma set_timeouts_other:
  "k \<notin> {registrationTimeoutKey, requestTimeoutKey} \<Longrightarrow>
   map_of (set_timeouts cfg m) k = map_of m k"
  by (simp add: set_timeouts_def Let_def update_conv')

lemma set_timeouts_values:
  "map_of (set_timeouts cfg m) registrationTimeoutKey =
     (if nc_registrationTimeout cfg \<noteq> '''' then Some (TomlString (nc_registrationTimeout cfg))
      else map_of m registrationTimeoutKey)"
  "map_of (set_timeouts cfg m) requestTimeoutKey =
     (if nc_requestTimeout cfg \<noteq> '''' then Some (TomlString (nc_requestTimeout cfg))
      else map_of m requestTimeoutKey)"
  by (simp_all add: set_timeouts_def Let_def update_conv')

text \<open>A table within a table, empty when there is none.\<close>

definition sub_table :: "string \<Rightarrow> toml_map \<Rightarrow> toml_map" where
  "sub_table k m = (case table_at k m of Some t \<Rightarrow> t | None \<Rightarrow> [])"

lemma sub_table_update [simp]: "sub_table k (AList.update k (TomlTable t) m) = t"
  by (simp add: sub_table_def table_at_def update_conv')

lemma sub_table_set_timeouts [simp]: "sub_table ''plugins'' (set_timeouts cfg m) = sub_table ''plugins'' m"
  by (simp add: sub_table_def table_at_def set_timeouts_other)

lemma updateContainerdConfig_eq:
  "updateContainerdConfig (Some m) cfg =
     Ok (set_timeouts cfg (AList.update ''plugins'' (TomlTable
       (AList.update nriPluginKey (TomlTable
         (AList.update ''disable'' (TomlBool False) (sub_table nriPluginKey (sub_table ''plugins'' m))))
         (sub_table ''plugins'' m))) m))"
  by (simp add: updateContainerdConfig_def sub_table_def Let_def)

text \<open>
  The changed configuration of containerd enables NRI and keeps every other setting of the
  NRI section, every other plugin and every other top level key; the timeouts are set at the top
  level, while those of the NRI section, where containerd looks for them, stay as they were.
\<close>

theorem updateContainerdConfig_enables:
  "\<exists>m'. updateContainerdConfig (Some m) cfg = Ok m'
     \<and> (let old = sub_table nriPluginKey (sub_table ''plugins'' m);
            new = sub_table nriPluginKey (sub_table ''plugins'' m')
        in map_of new = (map_of old)(''disable'' \<mapsto> TomlBool False))
     \<and> (\<forall>k. k \<noteq> nriPluginKey \<longrightarrow>
          map_of (sub_table ''plugins'' m') k = map_of (sub_table ''plugins'' m) k)
     \<and> (\<forall>k. k \<notin> {''plugins'', registrationTimeoutKey, requestTimeoutKey} \<longrightarrow>
          map_of m' k = map_of m k)
     \<and> (nc_requestTimeout cfg \<noteq> '''' \<longrightarrow>
          map_of m' requestTimeoutKey = Some (TomlString (nc_requestTimeout cfg)))"
  unfolding updateContainerdConfig_eq
  by (intro exI conjI) (auto simp: Let_def update_conv' set_timeouts_other set_timeouts_values)

definition sample_toml :: toml_map where
  "sample_toml = [(''version'', TomlInt 2), (''plugins'', TomlTable [(''cri'', TomlTable []),
     (''io.containerd.nri.v1.nri'', TomlTable [(''disable'', TomlBool True),
       (''plugin_request_timeout'', TomlString ''2s'')])])]"

theorem updateContainerdConfig_enables_witness:
  "\<exists>m'. updateContainerdConfig (Some sample_toml) default_nriConfig = Ok m'
     \<and> map_of m' ''version'' = Some (TomlInt 2)
     \<and> map_of m' requestTimeoutKey = Some (TomlString ''5s'')"
proof -
  obtain m' where m': "updateContainerdConfig (Some sample_toml) default_nriConfig = Ok m'"
    and k: "\<forall>k. k \<notin> {''plugins'', registrationTimeoutKey, requestTimeoutKey} \<longrightarrow>
          map_of m' k = map_of sample_toml k"
    and t: "nc_requestTimeout default_nriConfig \<noteq> '''' \<longrightarrow>
          map_of m' requestTimeoutKey = Some (TomlString (nc_requestTimeout default_nriConfig))"
    using updateContainerdConfig_enables [of sample_toml default_nriConfig] by blast
  from k have "map_of m' ''version'' = map_of sample_toml ''version''"
    by (simp add: registrationTimeoutKey_def requestTimeoutKey_def)
  with m' t show ?thesis by (simp add: sample_toml_def default_nriConfig_def)
qed

section \<open>The whole\<close>

lemma single_iff: "xs = [x] \<longleftrightarrow> length xs = 1 \<and> xs ! 0 = x"
  by (cases xs) auto

lemma detectRuntime_Ok_iff:
  "detectRuntime env w = Ok u \<longleftrightarrow>
     re_connect env w = Ok () \<and> (\<exists>units. re_active_units env w = Ok units
       \<and> filter (\<lambda>u. u = containerdUnit \<or> u = crioUnit) units = [u])"
proof -
  have "(if length xs = 0 then Err a else if length xs > 1 then Err b else Ok (xs ! 0)) = Ok u
      \<longleftrightarrow> xs = [u]" for xs :: "string list" and a b
    unfolding single_iff by (cases xs) auto
  then show ?thesis
    by (simp only: detectRuntime_def Let_def go_bind_eq_Ok go_wrap_eq_Ok) simp
qed

lemma detectRuntime_unit:
  assumes "detectRuntime env w = Ok u"
  shows "u = containerdUnit \<or> u = crioUnit"
proof -
  obtain units where "filter (\<lambda>u. u = containerdUnit \<or> u = crioUnit) units = [u]"
    using assms by (auto simp: detectRuntime_Ok_iff)
  then have "u \<in> set (filter (\<lambda>u. u = containerdUnit \<or> u = crioUnit) units)" by simp
  then show ?thesis by simp
qed

lemma restartSystemdUnit_Ok_iff:
  "restartSystemdUnit env u w = (w', Ok ()) \<longleftrightarrow> re_restart env w u = (w', Ok ''done'')"
  by (cases "re_restart env w u"; cases "snd (re_restart env w u)")
    (auto simp: restartSystemdUnit_def)

definition configure_unit :: "'w runtime_env \<Rightarrow> nriConfig \<Rightarrow> string \<Rightarrow> 'w \<Rightarrow> 'w \<times> unit go" where
  "configure_unit env cfg u w =
     (if u = containerdUnit then configureNriForContainerd env cfg w else configureNriForCrio env cfg w)"

text \<open>One runtime, once, in the list of active units.\<close>

lemma one_runtime:
  "filter (\<lambda>x. x = containerdUnit \<or> x = crioUnit) units = [u] \<longleftrightarrow>
     u \<in> {containerdUnit, crioUnit} \<and> u \<in> set units
     \<and> count_list units containerdUnit + count_list units crioUnit = 1"
proof -
  have [simp]: "containerdUnit \<noteq> crioUnit" "crioUnit \<noteq> containerdUnit"
    by (simp_all add: containerdUnit_def crioUnit_def)
  let ?f = "filter (\<lambda>x. x = containerdUnit \<or> x = crioUnit) units"
  have count: "length ?f = count_list units containerdUnit + count_list units crioUnit"
    by (induction units) auto
  show ?thesis
  proof
    assume f: "?f = [u]"
    then have "u \<in> set ?f" by (simp only: list.set insertI1)
    then have "u \<in> {containerdUnit, crioUnit} \<and> u \<in> set units" by auto
    then show "u \<in> {containerdUnit, crioUnit} \<and> u \<in> set units
        \<and> count_list units containerdUnit + count_list units crioUnit = 1"
      using count unfolding f by simp
  next
    assume u: "u \<in> {containerdUnit, crioUnit} \<and> u \<in> set units
        \<and> count_list units containerdUnit + count_list units crioUnit = 1"
    then obtain x where x: "?f = [x]" using count by (metis One_nat_def length_0_conv length_Suc_conv)
    have "u \<in> set ?f" using u by auto
    then show "?f = [u]" using x by simp
  qed
qed

text \<open>The TOML library answers with values and errors; it does not panic.\<close>

definition toml_answers :: "'w runtime_env \<Rightarrow> bool" where
  "toml_answers env \<longleftrightarrow> (\<forall>s. \<not> go_is_panic (re_unmarshal env s)) \<and> (\<forall>m. \<not> go_is_panic (re_encode env m))"

text \<open>The configuration of containerd can be read and has nothing in it.\<close>

definition empty_config :: "'w runtime_env \<Rightarrow> string \<Rightarrow> 'w \<Rightarrow> bool" where
  "empty_config env u w \<longleftrightarrow> u = containerdUnit
     \<and> (\<exists>s. os_read (re_os env) w containerdConfigFile = Done (s, None) \<and> re_unmarshal env s = Ok None)"

lemma write_texts_no_panic: "\<not> go_is_panic (snd (write_texts env file ts w))"
  by (induction ts arbitrary: w) (auto split: prod.split os_result.split)

lemma crio_no_panic: "\<not> go_is_panic (snd (configureNriForCrio env cfg w))"
proof -
  have "\<not> go_is_panic (go_wrap f r)" if "write_texts env crioConfigFile ts v = (v1, r)" for f r ts v v1
    using write_texts_no_panic [of env crioConfigFile ts v] that by (cases r) simp_all
  then show ?thesis
    by (auto simp: configureNriForCrio_def writeCrioConfig_def split: prod.split os_result.split)
qed

lemma containerd_panics:
  assumes "toml_answers env"
  shows "go_is_panic (snd (configureNriForContainerd env cfg w)) \<longleftrightarrow> empty_config env containerdUnit w"
proof -
  have enc: "\<not> go_is_panic (snd (writeToContainerdConfig env path m v))" for path m v
    using assms by (cases "re_encode env m")
      (auto simp: writeToContainerdConfig_def toml_answers_def split: prod.split os_result.split dest: spec [of _ m])
  have wrap: "go_is_panic (snd (case x of (w1, r) \<Rightarrow> (w1, go_wrap f r))) = go_is_panic (snd x)"
    for x :: "'w \<times> unit go" and f
    by (cases x; cases "snd x") auto
  have dec: "re_unmarshal env s \<noteq> Panic p" for s p
    using assms by (auto simp: toml_answers_def dest: spec [of _ s])
  show ?thesis
  proof (cases "os_read (re_os env) w containerdConfigFile")
    case (Fail e)
    then show ?thesis by (simp add: configureNriForContainerd_def readConfig_def empty_config_def)
  next
    case (Done r)
    obtain s e where r: "r = (s, e)" by fastforce
    show ?thesis
    proof (cases e)
      case (Some x)
      then show ?thesis using Done r by (simp add: configureNriForContainerd_def readConfig_def empty_config_def)
    next
      case None
      then have read: "os_read (re_os env) w containerdConfigFile = Done (s, None)" using Done r by simp
      show ?thesis
      proof (cases "re_unmarshal env s")
        case (Ok m)
        show ?thesis
        proof (cases m)
          case None
          then show ?thesis using read Ok
            by (simp add: configureNriForContainerd_def readConfig_def empty_config_def updateContainerdConfig_def)
        next
          case (Some t)
          then show ?thesis using read Ok enc unfolding configureNriForContainerd_def
            by (simp add: readConfig_def empty_config_def updateContainerdConfig_eq wrap)
        qed
      qed (use read dec in \<open>simp_all add: configureNriForContainerd_def readConfig_def empty_config_def\<close>)
    qed
  qed
qed

lemma configure_panics:
  "toml_answers env \<Longrightarrow> go_is_panic (snd (configure_unit env cfg u w)) \<longleftrightarrow> empty_config env u w"
  using containerd_panics [of env cfg w] crio_no_panic [of env cfg w]
  by (simp add: configure_unit_def empty_config_def)

lemma ReconfigContainerd_Ok:
  "ReconfigContainerd env cfg w = (w', Ok ()) \<longleftrightarrow>
     check cfg = Ok ()
     \<and> (\<exists>u. detectRuntime env w = Ok u \<and> \<not> go_is_panic (snd (configure_unit env cfg u w))
          \<and> re_restart env (fst (configure_unit env cfg u w)) u = (w', Ok ''done''))"
proof (cases "check cfg = Ok () \<and> (\<exists>u. detectRuntime env w = Ok u)")
  case True
  then obtain u where c: "check cfg = Ok ()" and u: "detectRuntime env w = Ok u" by blast
  obtain w1 r where conf: "configure_unit env cfg u w = (w1, r)" by fastforce
  have "ReconfigContainerd env cfg w =
      (case (w1, r) of
         (w1, Panic p) \<Rightarrow> (w1, Panic p)
       | (w1, _) \<Rightarrow>
           (case restartSystemdUnit env u w1 of
              (w2, Ok _) \<Rightarrow> (w2, Ok ())
            | (w2, Err _) \<Rightarrow> (w2, Panic ProcessExit)
            | (w2, Panic p) \<Rightarrow> (w2, Panic p)))"
    unfolding ReconfigContainerd_def c u go.case Let_def conf [symmetric] configure_unit_def
    using detectRuntime_unit [OF u] by (auto simp only: refl if_True if_False)
  moreover have "(case restartSystemdUnit env u w1 of
        (w2, Ok _) \<Rightarrow> (w2, Ok ()) | (w2, Err _) \<Rightarrow> (w2, Panic ProcessExit)
      | (w2, Panic p) \<Rightarrow> (w2, Panic p)) = (w', Ok ())
      \<longleftrightarrow> re_restart env w1 u = (w', Ok ''done'')"
    unfolding restartSystemdUnit_Ok_iff [symmetric] by (auto split: prod.split go.split)
  ultimately show ?thesis using c u conf by (cases r) auto
next
  case False
  then show ?thesis
    by (cases "check cfg"; cases "detectRuntime env w") (auto simp: ReconfigContainerd_def)
qed


text \<open>
  C37: the runtime is reported as configured exactly when the timeouts are accepted, systemd can be
  asked, containerd and CRI-O have one active unit between them, the restart of this unit is done, and
  the configuration file is not one of containerd with nothing in it, on which the process panics.
  Any error of changing the configuration is dropped: it does not matter for the result.
\<close>

theorem ReconfigContainerd_Ok_iff:
  assumes "toml_answers env"
  shows "ReconfigContainerd env cfg w = (w', Ok ()) \<longleftrightarrow>
     check cfg = Ok () \<and> re_connect env w = Ok ()
     \<and> (\<exists>units u. re_active_units env w = Ok units \<and> u \<in> {containerdUnit, crioUnit} \<and> u \<in> set units
          \<and> count_list units containerdUnit + count_list units crioUnit = 1
          \<and> \<not> empty_config env u w
          \<and> re_restart env (fst (configure_unit env cfg u w)) u = (w', Ok ''done''))"
  unfolding ReconfigContainerd_Ok detectRuntime_Ok_iff one_runtime configure_panics [OF assms] by blast

text \<open>
  A host on which containerd is active, in a state without its configuration file, whose creation
  fails besides, and in one with an empty file; and the same host with both runtimes active.
\<close>

definition sample_host :: "string list \<Rightarrow> sample_fs runtime_env" where
  "sample_host units =
     \<lparr>re_os = sample_os, re_create = (\<lambda>w p. (w, Fail NotExist)), re_put = (\<lambda>w p s. (w, Fail NotExist)),
      re_unmarshal = (\<lambda>s. if s = [] then Ok None else Err ''toml: expected key''), re_encode = (\<lambda>m. Ok []),
      re_connect = (\<lambda>w. Ok ()), re_active_units = (\<lambda>w. Ok units), re_restart = (\<lambda>w u. (w, Ok ''done''))\<rparr>"

theorem ReconfigContainerd_Ok_iff_witness:
  "let w = \<lparr>fs_dirs = [], fs_files = []\<rparr>; w2 = \<lparr>fs_dirs = [], fs_files = [(containerdConfigFile, [])]\<rparr>;
       env = sample_host [''sshd.service'', containerdUnit]
   in ReconfigContainerd env default_nriConfig w = (w, Ok ())
     \<and> ReconfigContainerd env default_nriConfig w2 \<noteq> (w2, Ok ())
     \<and> ReconfigContainerd (sample_host [crioUnit, containerdUnit]) default_nriConfig w \<noteq> (w, Ok ())"
proof -
  have toml: "toml_answers (sample_host units)" for units by (simp add: toml_answers_def sample_host_def)
  have "check default_nriConfig = Ok ()" by code_simp
  moreover have "count_list [''sshd.service'', containerdUnit] containerdUnit
        + count_list [''sshd.service'', containerdUnit] crioUnit = 1"
      "count_list [crioUnit, containerdUnit] containerdUnit + count_list [crioUnit, containerdUnit] crioUnit \<noteq> 1"
      "crioUnit \<notin> set [''sshd.service'', containerdUnit]"
    by code_simp+
  moreover have "empty_config (sample_host units) containerdUnit \<lparr>fs_dirs = [], fs_files = [(containerdConfigFile, [])]\<rparr>"
      "\<not> empty_config (sample_host units) containerdUnit \<lparr>fs_dirs = [], fs_files = []\<rparr>" for units
    by (simp_all add: empty_config_def sample_host_def sample_os_def)
  moreover have "fst (configure_unit (sample_host units) cfg containerdUnit \<lparr>fs_dirs = [], fs_files = []\<rparr>)
      = \<lparr>fs_dirs = [], fs_files = []\<rparr>" for units cfg
    by (simp add: configure_unit_def configureNriForContainerd_def readConfig_def sample_host_def sample_os_def)
  moreover have "re_connect (sample_host units) w = Ok ()" "re_active_units (sample_host units) w = Ok units"
      "re_restart (sample_host units) w u = (w, Ok ''done'')" for units w u
    by (simp_all add: sample_host_def)
  ultimately show ?thesis
    unfolding Let_def ReconfigContainerd_Ok_iff [OF toml] by auto
qed

end
