(* ===== verification/Metrics.thy ===== *)
theory Metrics
  imports OsFiles OsSample
begin

text \<open>
  \<open>pkg/prometheus/prometheus.go\<close>: the monitoring data of the control groups are read from the
  resctrl file system in every period and set in two gauges. Numbers are parsed by a function
  that is an argument (\<^verbatim>\<open>strconv.ParseFloat\<close>, whose error the code ignores), so that nothing
  depends on how floating point numbers are represented.
\<close>

section \<open>Settings\<close>

record metric_settings =
  ms_root :: string
  ms_port :: string
  ms_period :: int

definition metric_settings :: "(string \<Rightarrow> string) \<Rightarrow> metric_settings" where
  "metric_settings getenv =
     (let period = (case strconv_Atoi (getenv ''METRIC_COLLECT_PERIOD'') of Ok i \<Rightarrow> i | _ \<Rightarrow> 0)
      in \<lparr>ms_root = (if getenv ''RESCTRL_PATH'' = '''' then ''/sys/fs/resctrl'' else getenv ''RESCTRL_PATH''),
          ms_port = (if getenv ''METRIC_PORT'' = '''' then ''8000'' else getenv ''METRIC_PORT''),
          ms_period = (if period \<le> 0 \<or> period > 60 then 10 else period)\<rparr>)"

definition excludeDirs :: "string set" where
  "excludeDirs = {''info'', ''mon_data'', ''mon_groups''}"

section \<open>Collecting\<close>

text \<open>A gauge holds one value per group and cache or NUMA node.\<close>

datatype metric = L3Occupancy | MBMTotalBytes

type_synonym 'f gauges = "(metric \<times> string \<times> string, 'f) go_map"

record ('w, 'f) metric_env =
  me_os :: "'w os"
  me_root :: string
  me_parse :: "string \<Rightarrow> 'f"

definition metric_of_file :: "string \<Rightarrow> metric option" where
  "metric_of_file name =
     (if name = ''llc_occupancy'' then Some L3Occupancy
      else if name = ''mbm_total_bytes'' then Some MBMTotalBytes else None)"

text \<open>
  One file of a resource directory. The label is the third part of the resource's name between
  underscores, taken without looking whether there is one.
\<close>

definition collect_file ::
    "('w, 'f) metric_env \<Rightarrow> 'w \<Rightarrow> string \<Rightarrow> string \<Rightarrow> string \<Rightarrow> file_info \<Rightarrow> 'f gauges \<Rightarrow> 'f gauges go" where
  "collect_file env w groupName resource resourcePath file g =
     (case metric_of_file (fi_name file) of
        None \<Rightarrow> Ok g
      | Some metric \<Rightarrow>
          (case os_read (me_os env) w (filepath_Join [resourcePath, fi_name file]) of
             Done (text, None) \<Rightarrow>
               go_bind (go_nth (strings_Split resource (CHR ''_'')) 2) (\<lambda>i.
                 Ok (AList.update (metric, groupName, i) (me_parse env (strings_TrimSpace text)) g))
           | _ \<Rightarrow> Ok g))"

definition collect_resource ::
    "('w, 'f) metric_env \<Rightarrow> 'w \<Rightarrow> string \<Rightarrow> string \<Rightarrow> file_info \<Rightarrow> 'f gauges \<Rightarrow> 'f gauges go" where
  "collect_resource env w groupName monDataPath resource g =
     (if fi_name resource \<in> excludeDirs \<or> \<not> fi_dir resource then Ok g
      else let resourcePath = filepath_Join [monDataPath, fi_name resource]
           in (case os_readdir (me_os env) w resourcePath of
                 Fail _ \<Rightarrow> Ok g
               | Done files \<Rightarrow> go_for (collect_file env w groupName (fi_name resource) resourcePath) files g))"

definition processGroup ::
    "('w, 'f) metric_env \<Rightarrow> 'w \<Rightarrow> string \<Rightarrow> string \<Rightarrow> 'f gauges \<Rightarrow> 'f gauges go" where
  "processGroup env w groupPath groupName g =
     (let monDataPath = filepath_Join [groupPath, ''mon_data'']
      in (case os_readdir (me_os env) w (filepath_Join [monDataPath]) of
            Fail _ \<Rightarrow> Ok g
          | Done resources \<Rightarrow> go_for (collect_resource env w groupName monDataPath) resources g))"

definition collectMetrics :: "('w, 'f) metric_env \<Rightarrow> 'w \<Rightarrow> 'f gauges \<Rightarrow> 'f gauges go" where
  "collectMetrics env w g =
     (case os_readdir (me_os env) w (me_root env) of
        Fail _ \<Rightarrow> Ok g
      | Done groups \<Rightarrow>
          go_bind (processGroup env w (me_root env) ''total'' g)
            (go_for (\<lambda>group g.
               if fi_name group \<in> excludeDirs \<or> \<not> fi_dir group then Ok g
               else processGroup env w (filepath_Join [me_root env, fi_name group]) (fi_name group) g)
             groups))"

section \<open>The server\<close>

text \<open>
  The address the server listens on, and the rounds of its loop: one per tick, in the world as it
  is by then.
\<close>

definition listen_address :: "metric_settings \<Rightarrow> string" where
  "listen_address s = '':8000''"

definition metric_rounds :: "('w, 'f) metric_env \<Rightarrow> 'w list \<Rightarrow> 'f gauges go" where
  "metric_rounds env ws = go_for (collectMetrics env) ws []"

section \<open>What a round reads\<close>

text \<open>
  The readings of a round in the order they are set: group, resource directory, file; a reading
  has a label when the name of its resource has three parts.
\<close>

type_synonym 'f reading = "metric \<times> string \<times> string list \<times> 'f"

definition file_readings ::
    "('w, 'f) metric_env \<Rightarrow> 'w \<Rightarrow> string \<Rightarrow> string \<Rightarrow> string \<Rightarrow> file_info \<Rightarrow> 'f reading list" where
  "file_readings env w groupName resource resourcePath file =
     (case (metric_of_file (fi_name file),
            os_read (me_os env) w (filepath_Join [resourcePath, fi_name file])) of
        (Some m, Done (text, None)) \<Rightarrow>
          [(m, groupName, strings_Split resource (CHR ''_''), me_parse env (strings_TrimSpace text))]
      | _ \<Rightarrow> [])"

definition sub_entries :: "'w os \<Rightarrow> 'w \<Rightarrow> string \<Rightarrow> file_info list" where
  "sub_entries os w path = (case os_readdir os w path of Done fis \<Rightarrow> fis | Fail _ \<Rightarrow> [])"

definition monitored :: "file_info list \<Rightarrow> file_info list" where
  "monitored fis = filter (\<lambda>fi. fi_name fi \<notin> excludeDirs \<and> fi_dir fi) fis"

definition resource_readings ::
    "('w, 'f) metric_env \<Rightarrow> 'w \<Rightarrow> string \<Rightarrow> string \<Rightarrow> file_info \<Rightarrow> 'f reading list" where
  "resource_readings env w groupName monDataPath resource =
     (let path = filepath_Join [monDataPath, fi_name resource]
      in concat (map (file_readings env w groupName (fi_name resource) path) (sub_entries (me_os env) w path)))"

definition group_readings :: "('w, 'f) metric_env \<Rightarrow> 'w \<Rightarrow> string \<times> string \<Rightarrow> 'f reading list" where
  "group_readings env w = (\<lambda>(groupPath, groupName).
     let path = filepath_Join [groupPath, ''mon_data'']
     in concat (map (resource_readings env w groupName path)
          (monitored (sub_entries (me_os env) w (filepath_Join [path])))))"

definition round_groups :: "('w, 'f) metric_env \<Rightarrow> 'w \<Rightarrow> (string \<times> string) list" where
  "round_groups env w =
     (case os_readdir (me_os env) w (me_root env) of
        Fail _ \<Rightarrow> []
      | Done fis \<Rightarrow> (me_root env, ''total'')
          # map (\<lambda>fi. (filepath_Join [me_root env, fi_name fi], fi_name fi)) (monitored fis))"

definition round_readings :: "('w, 'f) metric_env \<Rightarrow> 'w \<Rightarrow> 'f reading list" where
  "round_readings env w = concat (map (group_readings env w) (round_groups env w))"

fun set_reading :: "'f reading \<Rightarrow> 'f gauges \<Rightarrow> 'f gauges go" where
  "set_reading (m, grp, parts, v) g = go_bind (go_nth parts 2) (\<lambda>i. Ok (AList.update (m, grp, i) v g))"

lemma go_for_single: "go_for body [x] g = body x g"
  by (cases "body x g") simp_all

lemma go_for_concat:
  assumes "\<And>x g. x \<in> set xs \<Longrightarrow> body x g = go_for set_reading (f x) g"
  shows "go_for body xs g = go_for set_reading (concat (map f xs)) g"
  using assms
proof (induction xs arbitrary: g)
  case (Cons x xs)
  then have "go_for body xs h = go_for set_reading (concat (map f xs)) h" for h by simp
  then have "go_for body xs = go_for set_reading (concat (map f xs))" by (rule ext)
  with Cons.prems [of x g] show ?case by (simp add: go_for_append)
qed simp

lemma go_for_filter:
  "go_for (\<lambda>x g. if \<not> P x then Ok g else body x g) xs g = go_for body (filter P xs) g"
proof (induction xs arbitrary: g)
  case (Cons x xs)
  have "go_for (\<lambda>x g. if \<not> P x then Ok g else body x g) xs = go_for body (filter P xs)"
    using Cons.IH by (rule ext)
  then show ?case by simp
qed simp

lemma collect_file_readings:
  "collect_file env w grp res path file g = go_for set_reading (file_readings env w grp res path file) g"
  by (cases "metric_of_file (fi_name file)"; cases "os_read (me_os env) w (filepath_Join [path, fi_name file])")
    (auto simp: collect_file_def file_readings_def go_for_single simp del: filepath_Join.simps go_for.simps(2)
      split: option.split)

lemma collect_resource_readings:
  "fi_name r \<notin> excludeDirs \<Longrightarrow> fi_dir r \<Longrightarrow>
   collect_resource env w grp path r g = go_for set_reading (resource_readings env w grp path r) g"
  by (auto simp: collect_resource_def resource_readings_def sub_entries_def Let_def
      intro!: go_for_concat collect_file_readings split: os_result.split)

lemma processGroup_readings:
  "processGroup env w path grp g = go_for set_reading (group_readings env w (path, grp)) g"
proof -
  have "collect_resource env w grp p r g =
      (if \<not> (fi_name r \<notin> excludeDirs \<and> fi_dir r) then Ok g else collect_resource env w grp p r g)" for p r g
    by (simp add: collect_resource_def)
  then have "go_for (collect_resource env w grp p) rs g =
      go_for (collect_resource env w grp p) (monitored rs) g" for p rs
    unfolding monitored_def go_for_filter [symmetric] by (intro go_for_cong refl) metis
  also have "\<dots> p rs = go_for set_reading (concat (map (resource_readings env w grp p) (monitored rs))) g" for p rs
    by (rule go_for_concat) (auto simp: monitored_def collect_resource_readings)
  finally show ?thesis
    by (simp add: processGroup_def group_readings_def sub_entries_def monitored_def Let_def
        del: filepath_Join.simps split: os_result.split)
qed

lemma collectMetrics_readings:
  "collectMetrics env w g = go_for set_reading (round_readings env w) g"
proof (cases "os_readdir (me_os env) w (me_root env)")
  case (Done fis)
  have "go_for (\<lambda>group g.
      if fi_name group \<in> excludeDirs \<or> \<not> fi_dir group then Ok g
      else processGroup env w (filepath_Join [me_root env, fi_name group]) (fi_name group) g) fis g =
    go_for (\<lambda>group g. processGroup env w (filepath_Join [me_root env, fi_name group]) (fi_name group) g)
      (monitored fis) g" for g
    unfolding monitored_def go_for_filter [symmetric] by (intro go_for_cong refl) simp
  also have "\<dots> g = go_for set_reading (concat (map (\<lambda>fi.
      group_readings env w (filepath_Join [me_root env, fi_name fi], fi_name fi)) (monitored fis))) g" for g
    by (rule go_for_concat) (rule processGroup_readings)
  finally show ?thesis
    by (simp add: collectMetrics_def Done round_readings_def round_groups_def processGroup_readings
        go_for_append comp_def del: filepath_Join.simps cong: go_bind_cong)
qed (simp add: collectMetrics_def round_readings_def round_groups_def)

end
