(* ===== verification/MetricsProps.thy ===== *)
theory MetricsProps
  imports Metrics
begin

text \<open>
  Properties of the metrics: what a round sets, what it leaves, and when it ends the agent.
\<close>

fun reading_key :: "'f reading \<Rightarrow> metric \<times> string \<times> string" where
  "reading_key (m, grp, parts, v) = (m, grp, parts ! 2)"

fun reading_value :: "'f reading \<Rightarrow> 'f" where
  "reading_value (m, grp, parts, v) = v"

fun reading_labelled :: "'f reading \<Rightarrow> bool" where
  "reading_labelled (m, grp, parts, v) \<longleftrightarrow> 3 \<le> length parts"

text \<open>The value of a gauge after readings: that of the last one for it, or the one before.\<close>

definition gauge_after :: "'f reading list \<Rightarrow> 'f gauges \<Rightarrow> metric \<times> string \<times> string \<Rightarrow> 'f option" where
  "gauge_after rs g k =
     (case find (\<lambda>r. reading_key r = k) (rev rs) of
        Some r \<Rightarrow> Some (reading_value r)
      | None \<Rightarrow> map_of g k)"

lemma set_reading_labelled:
  "set_reading r g =
     (if reading_labelled r then Ok (AList.update (reading_key r) (reading_value r) g)
      else Panic IndexOutOfRange)"
  by (cases r) (simp add: go_nth_def)

lemma find_append: "find P (xs @ ys) = (case find P xs of Some x \<Rightarrow> Some x | None \<Rightarrow> find P ys)"
  by (induction xs) auto

lemma gauge_after_Cons:
  "gauge_after (r # rs) g k = gauge_after rs (AList.update (reading_key r) (reading_value r) g) k"
  by (auto simp: gauge_after_def find_append update_conv' split: option.split)

lemma set_readings:
  "(\<forall>r \<in> set rs. reading_labelled r) \<Longrightarrow>
   \<exists>g'. go_for set_reading rs g = Ok g' \<and> map_of g' = gauge_after rs g"
proof (induction rs arbitrary: g)
  case Nil
  then show ?case by (auto simp: gauge_after_def)
next
  case (Cons r rs)
  then have "\<forall>r \<in> set rs. reading_labelled r" by simp
  from Cons.IH [OF this, of "AList.update (reading_key r) (reading_value r) g"]
  obtain g' where "go_for set_reading rs (AList.update (reading_key r) (reading_value r) g) = Ok g'"
    and "map_of g' = gauge_after rs (AList.update (reading_key r) (reading_value r) g)" by blast
  with Cons.prems show ?case by (simp add: set_reading_labelled [of r g] gauge_after_Cons fun_eq_iff)
qed

lemma set_readings_Panic:
  "\<not> (\<forall>r \<in> set rs. reading_labelled r) \<Longrightarrow> go_for set_reading rs g = Panic IndexOutOfRange"
  by (induction rs arbitrary: g) (auto simp: set_reading_labelled)

text \<open>
  C35: a round of the collection sets every gauge that a monitored group has a reading for to the
  last reading, and leaves all other gauges as they were: those of a group that is gone keep
  their last value for ever. One readable monitoring file in a directory whose name has fewer
  than three parts ends the agent, whatever the other groups are.
\<close>

theorem collectMetrics_round:
  "if \<forall>r \<in> set (round_readings env w). reading_labelled r
   then \<exists>g'. collectMetrics env w g = Ok g' \<and> map_of g' = gauge_after (round_readings env w) g
   else collectMetrics env w g = Panic IndexOutOfRange"
  unfolding collectMetrics_readings
  using set_readings [of "round_readings env w" g] set_readings_Panic [of "round_readings env w" g]
  by (simp only: split: if_split) blast

definition sample_metrics :: "(sample_fs, string) metric_env" where
  "sample_metrics = \<lparr>me_os = sample_os, me_root = ''/r'', me_parse = id\<rparr>"

definition sample_tree :: "string \<Rightarrow> sample_fs" where
  "sample_tree resource =
     \<lparr>fs_dirs = [(''/r'', [\<lparr>fi_name = ''g'', fi_dir = True\<rparr>, \<lparr>fi_name = ''info'', fi_dir = True\<rparr>]),
                (''/r/g/mon_data'', [\<lparr>fi_name = resource, fi_dir = True\<rparr>]),
                (''/r/g/mon_data/'' @ resource, [\<lparr>fi_name = ''llc_occupancy'', fi_dir = False\<rparr>])],
      fs_files = [(''/r/g/mon_data/'' @ resource @ ''/llc_occupancy'', ''42'')]\<rparr>"

theorem collectMetrics_round_witness:
  "\<exists>g'. collectMetrics sample_metrics (sample_tree ''mon_L3_01'') [((L3Occupancy, ''old'', ''00''), ''7'')] = Ok g'
     \<and> map_of g' (L3Occupancy, ''g'', ''01'') = Some ''42''
     \<and> map_of g' (L3Occupancy, ''old'', ''00'') = Some ''7''"
proof -
  have r: "round_readings sample_metrics (sample_tree ''mon_L3_01'') =
      [(L3Occupancy, ''g'', [''mon'', ''L3'', ''01''], ''42'')]"
    by code_simp
  show ?thesis
    using collectMetrics_round [of sample_metrics "sample_tree ''mon_L3_01''"
        "[((L3Occupancy, ''old'', ''00''), ''7'')]"]
    unfolding r by (auto simp: gauge_after_def)
qed

end
