(* ===== verification/ServerProcess.thy ===== *)
theory ServerProcess
  imports AffinityServer
begin

text \<open>
  The process of \<open>cmd/netRelaServer/main.go\<close>: its start, its signal handler, and the goroutine that
  ends the subscription of the relation data and stops the gRPC server. The handler, that
  goroutine and the main goroutine, which is inside \<^verbatim>\<open>Serve\<close>, run interleaved.
\<close>

section \<open>The start\<close>

text \<open>\<open>oeawareStart\<close> of the C library answers an exit code.\<close>

definition ConnectOeAware :: "int \<Rightarrow> unit go" where
  "ConnectOeAware ret =
     (if ret \<noteq> 0 then Err (''failed to subscribe oeaware, exit code: '' @ strconv_Itoa ret) else Ok ())"

text \<open>
  Where the handler is: before its first signal, before its second one, or gone; where the
  goroutine is that waits for the cancellation; how the process ended, if it did. \<open>sp_calls\<close> is
  the number of requests being served, \<open>sp_signals\<close> the buffered signals, \<open>sp_shutdowns\<close> counts
  the calls of \<^verbatim>\<open>oeawareShutdown\<close>.
\<close>

datatype handler_phase = AwaitFirst | AwaitSecond | HandlerDone

datatype stopper_phase = AwaitCancel | Unsubscribed | Stopping

record server_process =
  sp_subscribed :: bool
  sp_signals :: nat
  sp_cancelled :: bool
  sp_handler :: handler_phase
  sp_stopper :: stopper_phase
  sp_calls :: nat
  sp_shutdowns :: nat
  sp_exit :: "int option"

definition started :: server_process where
  "started = \<lparr>sp_subscribed = True, sp_signals = 0, sp_cancelled = False, sp_handler = AwaitFirst,
     sp_stopper = AwaitCancel, sp_calls = 0, sp_shutdowns = 0, sp_exit = None\<rparr>"

text \<open>\<^verbatim>\<open>Fatalf\<close> ends the process when the listener or the subscription fails.\<close>

definition netrela_main :: "unit go \<Rightarrow> int \<Rightarrow> server_process go" where
  "netrela_main listen ret =
     (case listen of
        Ok _ \<Rightarrow> (case ConnectOeAware ret of Ok _ \<Rightarrow> Ok started | _ \<Rightarrow> Panic ProcessExit)
      | _ \<Rightarrow> Panic ProcessExit)"

text \<open>
  The other server, \<open>cmd/grpcServer/main.go\<close>, has no handler of signals: it serves until \<^verbatim>\<open>Serve\<close>
  returns, and \<open>serve\<close> is what that does. A \<^verbatim>\<open>Serve\<close> that fails is fatal too.
\<close>

definition grpc_main :: "unit go \<Rightarrow> unit go \<Rightarrow> unit go" where
  "grpc_main listen serve =
     (case listen of
        Ok _ \<Rightarrow> (case serve of Err _ \<Rightarrow> Panic ProcessExit | r \<Rightarrow> r)
      | Err _ \<Rightarrow> Panic ProcessExit
      | Panic p \<Rightarrow> Panic p)"

lemma grpc_main_returns: "grpc_main listen serve = Ok () \<longleftrightarrow> go_is_ok listen \<and> go_is_ok serve"
  by (cases listen; cases serve) (simp_all add: grpc_main_def)

definition OeAwareShutdown :: "server_process \<Rightarrow> server_process" where
  "OeAwareShutdown s = s\<lparr>sp_subscribed := False, sp_shutdowns := sp_shutdowns s + 1\<rparr>"

section \<open>Steps\<close>

text \<open>
  What the process does by itself: its three goroutines go on, a call that is being served ends.
  \<^verbatim>\<open>GracefulStop\<close> refuses new
  calls and lets \<^verbatim>\<open>Serve\<close> return without an error once no call is left, which ends \<^verbatim>\<open>main\<close>.
\<close>

inductive own_step :: "server_process \<Rightarrow> server_process \<Rightarrow> bool" where
  first_signal: "sp_exit s = None \<Longrightarrow> sp_handler s = AwaitFirst \<Longrightarrow> 0 < sp_signals s \<Longrightarrow>
    own_step s (s\<lparr>sp_signals := sp_signals s - 1, sp_handler := AwaitSecond, sp_cancelled := True\<rparr>)"
| second_signal: "sp_exit s = None \<Longrightarrow> sp_handler s = AwaitSecond \<Longrightarrow> 0 < sp_signals s \<Longrightarrow>
    own_step s (s\<lparr>sp_signals := sp_signals s - 1, sp_handler := HandlerDone, sp_exit := Some 1\<rparr>)"
| unsubscribe: "sp_exit s = None \<Longrightarrow> sp_stopper s = AwaitCancel \<Longrightarrow> sp_cancelled s \<Longrightarrow>
    own_step s ((OeAwareShutdown s)\<lparr>sp_stopper := Unsubscribed\<rparr>)"
| graceful: "sp_exit s = None \<Longrightarrow> sp_stopper s = Unsubscribed \<Longrightarrow>
    own_step s (s\<lparr>sp_stopper := Stopping\<rparr>)"
| call_ends: "sp_exit s = None \<Longrightarrow> 0 < sp_calls s \<Longrightarrow>
    own_step s (s\<lparr>sp_calls := sp_calls s - 1\<rparr>)"
| served: "sp_exit s = None \<Longrightarrow> sp_stopper s = Stopping \<Longrightarrow> sp_calls s = 0 \<Longrightarrow>
    own_step s (s\<lparr>sp_exit := Some 0\<rparr>)"

text \<open>
  What comes from outside. A signal that finds the channel full, with two in it, is dropped; a call
  begins; a call that is being served panics, which nothing recovers, so that the process ends
  (exit code 2); \<^verbatim>\<open>Serve\<close> fails while nobody stops the server, which is fatal (exit code 255).
\<close>

inductive env_step :: "server_process \<Rightarrow> server_process \<Rightarrow> bool" where
  signal: "sp_exit s = None \<Longrightarrow>
    env_step s (s\<lparr>sp_signals := (if sp_signals s < 2 then sp_signals s + 1 else sp_signals s)\<rparr>)"
| call_begins: "sp_exit s = None \<Longrightarrow> sp_stopper s \<noteq> Stopping \<Longrightarrow>
    env_step s (s\<lparr>sp_calls := sp_calls s + 1\<rparr>)"
| call_panics: "sp_exit s = None \<Longrightarrow> 0 < sp_calls s \<Longrightarrow>
    env_step s (s\<lparr>sp_exit := Some 2\<rparr>)"
| serve_fails: "sp_exit s = None \<Longrightarrow> sp_stopper s \<noteq> Stopping \<Longrightarrow>
    env_step s (s\<lparr>sp_exit := Some 255\<rparr>)"

definition server_step :: "server_process \<Rightarrow> server_process \<Rightarrow> bool" where
  "server_step s t \<longleftrightarrow> own_step s t \<or> env_step s t"

inductive server_runs :: "server_process \<Rightarrow> server_process \<Rightarrow> bool" where
  refl: "server_runs s s"
| step: "server_runs s t \<Longrightarrow> server_step t u \<Longrightarrow> server_runs s u"

inductive_cases own_stepE: "own_step s t"

section \<open>Shutdown\<close>

text \<open>
  The subscription is there until the one call that ends it, which comes after a first signal;
  the server is stopped only after it, and a normal end needs the stop.
\<close>

definition server_inv :: "server_process \<Rightarrow> bool" where
  "server_inv s \<longleftrightarrow>
     (sp_subscribed s \<longleftrightarrow> sp_stopper s = AwaitCancel)
   \<and> sp_shutdowns s = (if sp_subscribed s then 0 else 1)
   \<and> (sp_cancelled s \<longleftrightarrow> sp_handler s \<noteq> AwaitFirst)
   \<and> (sp_stopper s \<noteq> AwaitCancel \<longrightarrow> sp_cancelled s)
   \<and> (sp_exit s = Some 0 \<longrightarrow> sp_stopper s = Stopping \<and> sp_calls s = 0)
   \<and> (sp_exit s = Some 1 \<longrightarrow> sp_handler s = HandlerDone)
   \<and> (sp_handler s = HandlerDone \<longrightarrow> sp_exit s = Some 1)
   \<and> sp_signals s \<le> 2"

lemma server_inv_own: "own_step s t \<Longrightarrow> server_inv s \<Longrightarrow> server_inv t"
  by (induction rule: own_step.induct)
    (simp_all add: server_inv_def OeAwareShutdown_def split: if_split_asm, auto)

lemma server_inv_env: "env_step s t \<Longrightarrow> server_inv s \<Longrightarrow> server_inv t"
  by (induction rule: env_step.induct) (simp_all add: server_inv_def split: if_split_asm, auto)

lemma server_inv_step: "server_step s t \<Longrightarrow> server_inv s \<Longrightarrow> server_inv t"
  using server_inv_own server_inv_env by (auto simp: server_step_def)

lemma server_runs_inv: "server_runs s t \<Longrightarrow> server_inv s \<Longrightarrow> server_inv t"
  by (induction rule: server_runs.induct) (auto dest: server_inv_step)

text \<open>
  The subscription of the relation data is ended at most once, and has been when the process
  ends normally, which takes a signal and no call left unanswered; the process ends with code 1
  only after a second signal.
\<close>

theorem shutdown_once:
  assumes "server_runs started s"
  shows "sp_shutdowns s \<le> 1
    \<and> (sp_exit s = Some 0 \<longrightarrow>
         sp_shutdowns s = 1 \<and> \<not> sp_subscribed s \<and> sp_cancelled s \<and> sp_calls s = 0)
    \<and> (sp_exit s = Some 1 \<longrightarrow> sp_handler s = HandlerDone \<and> sp_cancelled s)"
proof -
  have "server_inv started" by (simp add: server_inv_def started_def)
  with assms have "server_inv s" by (rule server_runs_inv)
  then show ?thesis
    by (auto simp: server_inv_def)
qed

section \<open>The end after a signal\<close>

text \<open>The signals that have been received and not dropped, handled or not.\<close>

definition received :: "server_process \<Rightarrow> nat" where
  "received s = sp_signals s + (case sp_handler s of AwaitFirst \<Rightarrow> 0 | AwaitSecond \<Rightarrow> 1 | HandlerDone \<Rightarrow> 2)"

text \<open>How many steps of its own the process has left at most.\<close>

definition steps_left :: "server_process \<Rightarrow> nat" where
  "steps_left s = (if sp_exit s \<noteq> None then 0
     else Suc (sp_signals s + sp_calls s
       + (case sp_stopper s of AwaitCancel \<Rightarrow> 2 | Unsubscribed \<Rightarrow> 1 | Stopping \<Rightarrow> 0)))"

lemma own_step_left: "own_step s t \<Longrightarrow> steps_left t < steps_left s"
  by (induction rule: own_step.induct) (auto simp: steps_left_def OeAwareShutdown_def split: stopper_phase.split)

lemma own_step_received: "own_step s t \<Longrightarrow> received t = received s"
  by (induction rule: own_step.induct) (auto simp: received_def OeAwareShutdown_def)

lemma own_step_exit: "own_step s t \<Longrightarrow> sp_exit t \<in> {None, Some 0, Some 1}"
  by (induction rule: own_step.induct) (auto simp: OeAwareShutdown_def)

text \<open>A process that has received a signal can go on until it has ended.\<close>

lemma own_progress:
  assumes "server_inv s" and "1 \<le> received s" and "sp_exit s = None"
  shows "\<exists>t. own_step s t \<and> sp_exit t \<noteq> Some 1"
proof (cases "sp_handler s = AwaitFirst")
  case True
  with assms have "0 < sp_signals s" by (simp add: received_def)
  from own_step.first_signal [OF assms(3) True this] assms(3) show ?thesis by (intro exI conjI) auto
next
  case False
  then have cancelled: "sp_cancelled s" using assms(1) by (simp add: server_inv_def)
  show ?thesis
  proof (cases "sp_stopper s")
    case AwaitCancel
    from own_step.unsubscribe [OF assms(3) this cancelled] assms(3) show ?thesis
      by (intro exI conjI) (auto simp: OeAwareShutdown_def)
  next
    case Unsubscribed
    from own_step.graceful [OF assms(3) this] assms(3) show ?thesis by (intro exI conjI) auto
  next
    case Stopping
    show ?thesis
    proof (cases "sp_calls s = 0")
      case True
      from own_step.served [OF assms(3) Stopping True] show ?thesis by (intro exI conjI) auto
    next
      case False
      then have "0 < sp_calls s" by simp
      from own_step.call_ends [OF assms(3) this] assms(3) show ?thesis by (intro exI conjI) auto
    qed
  qed
qed

lemma ends_normally:
  "server_inv s \<Longrightarrow> 1 \<le> received s \<Longrightarrow> sp_exit s = None \<Longrightarrow>
     \<exists>t. own_step\<^sup>*\<^sup>* s t \<and> sp_exit t = Some 0 \<and> \<not> sp_subscribed t"
proof (induction "steps_left s" arbitrary: s rule: less_induct)
  case less
  obtain t where t: "own_step s t" "sp_exit t \<noteq> Some 1" using own_progress [OF less.prems] by blast
  have inv: "server_inv t" by (rule server_inv_own [OF t(1) less.prems(1)])
  show ?case
  proof (cases "sp_exit t")
    case None
    have "\<exists>u. own_step\<^sup>*\<^sup>* t u \<and> sp_exit u = Some 0 \<and> \<not> sp_subscribed u"
      using less.hyps [OF own_step_left [OF t(1)] inv _ None] own_step_received [OF t(1)] less.prems(2) by simp
    then show ?thesis using t(1) by (meson converse_rtranclp_into_rtranclp)
  next
    case (Some e)
    with own_step_exit [OF t(1)] t(2) have "sp_exit t = Some 0" by auto
    moreover from this inv have "\<not> sp_subscribed t" by (auto simp: server_inv_def)
    ultimately show ?thesis using t(1) by blast
  qed
qed

text \<open>Any number of own steps.\<close>

lemma own_steps:
  "(own_step ^^ n) s t \<Longrightarrow> server_inv s \<Longrightarrow> sp_exit s = None \<Longrightarrow>
     server_inv t \<and> received t = received s \<and> sp_exit t \<in> {None, Some 0, Some 1} \<and> n + steps_left t \<le> steps_left s"
proof (induction n arbitrary: t)
  case (Suc n)
  then obtain u where u: "(own_step ^^ n) s u" "own_step u t" by auto
  from Suc.IH [OF u(1) Suc.prems(2,3)] show ?case
    using server_inv_own [OF u(2)] own_step_received [OF u(2)] own_step_exit [OF u(2)] own_step_left [OF u(2)] by auto
qed simp

text \<open>
  C38: one signal is enough. From every reachable state of a running server that has received a
  signal, handled or still in the channel, and without anything more from outside: the process can
  end normally, with the subscription ended; however its goroutines are scheduled it makes only
  so many steps, and it stops making them only when it has ended, normally and with the
  subscription ended unless a second signal was received, which may end it with code 1 before.
\<close>

theorem stops_after_signal:
  assumes "server_runs started s" and "sp_exit s = None" and "1 \<le> received s"
  shows "(\<exists>t. own_step\<^sup>*\<^sup>* s t \<and> sp_exit t = Some 0 \<and> \<not> sp_subscribed t)
    \<and> (\<forall>n t. (own_step ^^ n) s t \<longrightarrow> n \<le> steps_left s
        \<and> ((\<nexists>u. own_step t u) \<longrightarrow>
             sp_exit t = Some 0 \<and> \<not> sp_subscribed t \<or> sp_exit t = Some 1 \<and> 2 \<le> received s))"
proof -
  have "server_inv started" by (simp add: server_inv_def started_def)
  with assms(1) have inv: "server_inv s" by (rule server_runs_inv)
  have run: "n \<le> steps_left s \<and> ((\<nexists>u. own_step t u) \<longrightarrow>
      sp_exit t = Some 0 \<and> \<not> sp_subscribed t \<or> sp_exit t = Some 1 \<and> 2 \<le> received s)"
    if "(own_step ^^ n) s t" for n t
  proof -
    from own_steps [OF that inv assms(2)] have t: "server_inv t" "received t = received s"
      "sp_exit t \<in> {None, Some 0, Some 1}" "n \<le> steps_left s" by auto
    have "sp_exit t \<noteq> None" if "\<nexists>u. own_step t u"
      using own_progress [OF t(1)] t(2) assms(3) that by auto
    moreover have "2 \<le> received s" if "sp_exit t = Some 1"
      using t(1,2) that by (simp add: server_inv_def received_def)
    moreover have "\<not> sp_subscribed t" if "sp_exit t = Some 0"
      using t(1) that by (auto simp: server_inv_def)
    ultimately show ?thesis using t(3,4) by auto
  qed
  with ends_normally [OF inv assms(3,2)] show ?thesis by blast
qed

text \<open>A start, a call and a signal that nothing has handled yet.\<close>

lemma signalled_run: "server_runs started (started\<lparr>sp_calls := 1, sp_signals := 1\<rparr>)"
proof -
  let ?s = "started\<lparr>sp_calls := 1\<rparr>"
  have "server_step started ?s"
    using env_step.call_begins [of started] by (simp add: started_def server_step_def)
  moreover have "server_step ?s (started\<lparr>sp_calls := 1, sp_signals := 1\<rparr>)"
    using env_step.signal [of ?s] by (simp add: started_def server_step_def)
  ultimately show ?thesis by (blast intro: server_runs.intros)
qed

theorem shutdown_once_witness:
  "sp_shutdowns (started\<lparr>sp_calls := 1, sp_signals := 1\<rparr>) \<le> 1"
  using shutdown_once [OF signalled_run] by blast

theorem stops_after_signal_witness:
  "{sp_exit t | n t. (own_step ^^ n) (started\<lparr>sp_calls := 1, sp_signals := 1\<rparr>) t \<and> (\<nexists>u. own_step t u)} = {Some 0}
   \<and> {n | n t. (own_step ^^ n) (started\<lparr>sp_calls := 1, sp_signals := 1\<rparr>) t} \<subseteq> {..5}"
proof -
  let ?s = "started\<lparr>sp_calls := 1, sp_signals := 1\<rparr>"
  have h: "sp_exit ?s = None" "1 \<le> received ?s" "steps_left ?s = 5" "received ?s = 1"
    by code_simp+
  note stops = stops_after_signal [OF signalled_run h(1,2), unfolded h(3,4)]
  then obtain t where t: "own_step\<^sup>*\<^sup>* ?s t" "sp_exit t = Some 0" by blast
  then obtain n where "(own_step ^^ n) ?s t" by (auto simp: rtranclp_power)
  moreover have "\<nexists>u. own_step t u" using t(2) by (auto elim: own_stepE)
  ultimately have "Some 0 \<in> {sp_exit t | n t. (own_step ^^ n) ?s t \<and> (\<nexists>u. own_step t u)}"
    using t(2) by force
  then show ?thesis using stops by auto
qed

end
