(* ===== verification/CopyHeap.thy ===== *)
theory CopyHeap
  imports ApiTypes
begin

text \<open>
  Slices behind references, for the generated deep copies: a heap of arrays, slices that are nil
  or refer to an array, the two ways the generated code copies a slice, and the contract of a
  copier: what it returns shows the same content and shares no array with anything there was
  before. The contract is a locale; from a copier of elements follows one of slices.
\<close>

section \<open>The heap\<close>

text \<open>Structs as they are in memory: the slices in them are references.\<close>

type_synonym slice = "nat option"

record h_affinity =
  ha_numa :: int32
  ha_pod :: string
  ha_ns :: string
  ha_containers :: slice

record h_node =
  hn_name :: string
  hn_numa :: slice
  hn_affinity :: slice

record h_oenuma_spec =
  hs_name :: string
  hs_replicas :: int32
  hs_node :: slice
  hs_update :: string

record h_oenuma =
  ho_meta :: object_meta
  ho_spec :: h_oenuma_spec

record h_target =
  ht_ns :: string
  ht_names :: slice

record h_whitelist_spec =
  hw_name :: string
  hw_effective :: bool
  hw_targets :: slice

record h_whitelist =
  hl_meta :: object_meta
  hl_spec :: h_whitelist_spec

datatype cell =
    Names (un_names: "string list") | Containers (un_containers: "container list")
  | Affinities (un_affinities: "h_affinity list") | Numas (un_numas: "numa list")
  | Nodes (un_nodes: "h_node list") | Targets (un_targets: "h_target list")
  | Oenumas (un_oenumas: "h_oenuma list") | Whitelists (un_whitelists: "h_whitelist list")

type_synonym heap = "cell list"

section \<open>Copying a slice\<close>

text \<open>
  \<^verbatim>\<open>make\<close> and \<^verbatim>\<open>copy\<close>: a new array with the same elements.
\<close>

definition copy_plain ::
    "('e list \<Rightarrow> cell) \<Rightarrow> (cell \<Rightarrow> 'e list) \<Rightarrow> slice \<Rightarrow> heap \<Rightarrow> slice \<times> heap" where
  "copy_plain mk un s h =
     (case s of None \<Rightarrow> (None, h) | Some a \<Rightarrow> (Some (length h), h @ [mk (un (h ! a))]))"

text \<open>
  \<^verbatim>\<open>make\<close> and the loop of \<^verbatim>\<open>DeepCopyInto\<close>: a new array of zero values, whose elements are
  then written one after the other.
\<close>

definition copy_elem ::
    "('e list \<Rightarrow> cell) \<Rightarrow> (cell \<Rightarrow> 'e list) \<Rightarrow> ('e \<Rightarrow> heap \<Rightarrow> 'e \<times> heap) \<Rightarrow> nat \<Rightarrow> nat \<Rightarrow> nat \<Rightarrow>
     heap \<Rightarrow> heap" where
  "copy_elem mk un into a b i h =
     (let (e, h1) = into (un (h ! a) ! i) h in h1[b := mk ((un (h1 ! b))[i := e])])"

definition copy_slice ::
    "('e list \<Rightarrow> cell) \<Rightarrow> (cell \<Rightarrow> 'e list) \<Rightarrow> 'e \<Rightarrow> ('e \<Rightarrow> heap \<Rightarrow> 'e \<times> heap) \<Rightarrow> slice \<Rightarrow>
     heap \<Rightarrow> slice \<times> heap" where
  "copy_slice mk un zero into s h =
     (case s of
        None \<Rightarrow> (None, h)
      | Some a \<Rightarrow>
          (let n = length (un (h ! a)); b = length h
           in (Some b, fold (copy_elem mk un into a b) [0..<n] (h @ [mk (replicate n zero)]))))"

text \<open>\<^verbatim>\<open>DeepCopy\<close>: nothing for nil, a new struct that is copied into otherwise.\<close>

definition new_copy :: "('e \<Rightarrow> heap \<Rightarrow> 'e \<times> heap) \<Rightarrow> 'e option \<Rightarrow> heap \<Rightarrow> 'e option \<times> heap" where
  "new_copy into x h =
     (case x of None \<Rightarrow> (None, h) | Some v \<Rightarrow> (let (v', h1) = into v h in (Some v', h1)))"

section \<open>The contract of a copier\<close>

text \<open>
  \<open>valid\<close>: the references in a value lead to arrays of their kind; \<open>locs\<close>: the arrays it reaches;
  \<open>view\<close>: its content.
\<close>

locale copier =
  fixes valid :: "heap \<Rightarrow> 'e \<Rightarrow> bool"
    and locs :: "heap \<Rightarrow> 'e \<Rightarrow> nat set"
    and view :: "heap \<Rightarrow> 'e \<Rightarrow> 'v"
    and into :: "'e \<Rightarrow> heap \<Rightarrow> 'e \<times> heap"
  assumes locs_below: "valid h x \<Longrightarrow> locs h x \<subseteq> {..<length h}"
    and frame: "\<lbrakk>valid h x; length h \<le> length h'; \<forall>a \<in> locs h x. h' ! a = h ! a\<rbrakk> \<Longrightarrow>
      valid h' x \<and> locs h' x = locs h x \<and> view h' x = view h x"
    and copies: "\<lbrakk>valid h x; into x h = (y, h')\<rbrakk> \<Longrightarrow>
      (\<exists>zs. h' = h @ zs) \<and> valid h' y \<and> view h' y = view h x \<and> locs h' y \<inter> {..<length h} = {}"
begin

lemma frame_append:
  assumes "valid h x"
  shows "valid (h @ zs) x" and "locs (h @ zs) x = locs h x" and "view (h @ zs) x = view h x"
proof -
  have "\<forall>a \<in> locs h x. (h @ zs) ! a = h ! a"
    using locs_below [OF assms] by (auto simp: nth_append)
  with frame [OF assms, of "h @ zs"]
  show "valid (h @ zs) x" and "locs (h @ zs) x = locs h x" and "view (h @ zs) x = view h x" by auto
qed

lemma frame_update:
  assumes "valid h x" and "b \<notin> locs h x"
  shows "valid (h[b := c]) x" and "locs (h[b := c]) x = locs h x" and "view (h[b := c]) x = view h x"
proof -
  have "\<forall>a \<in> locs h x. (h[b := c]) ! a = h ! a" using assms(2) by (metis nth_list_update_neq)
  with frame [OF assms(1), of "h[b := c]"]
  show "valid (h[b := c]) x" and "locs (h[b := c]) x = locs h x" and "view (h[b := c]) x = view h x" by auto
qed

text \<open>What a copy is good for: neither side sees what is written to the other one.\<close>

lemma isolated:
  assumes "valid h x" and "into x h = (y, h')"
  shows "view h' y = view h x"
    and "a \<in> locs h' y \<Longrightarrow> view (h'[a := c]) x = view h x"
    and "a < length h \<Longrightarrow> view (h'[a := c]) y = view h x"
proof -
  obtain zs where zs: "h' = h @ zs" and y: "valid h' y" "view h' y = view h x" "locs h' y \<inter> {..<length h} = {}"
    using copies [OF assms] by blast
  show "view h' y = view h x" by (rule y(2))
  have x: "valid h' x" "locs h' x = locs h x" "view h' x = view h x"
    unfolding zs by (simp_all add: frame_append [OF assms(1)])
  show "view (h'[a := c]) x = view h x" if "a \<in> locs h' y"
  proof -
    have "a \<notin> locs h' x" using that y(3) x(2) locs_below [OF assms(1)] by auto
    with frame_update(3) [OF x(1)] x(3) show ?thesis by simp
  qed
  show "view (h'[a := c]) y = view h x" if "a < length h"
  proof -
    have "a \<notin> locs h' y" using that y(3) by auto
    with frame_update(3) [OF y(1)] y(2) show ?thesis by simp
  qed
qed

end

section \<open>From elements to slices\<close>

definition slice_valid ::
    "('e list \<Rightarrow> cell) \<Rightarrow> (cell \<Rightarrow> 'e list) \<Rightarrow> (heap \<Rightarrow> 'e \<Rightarrow> bool) \<Rightarrow> heap \<Rightarrow> slice \<Rightarrow> bool" where
  "slice_valid mk un valid h s \<longleftrightarrow>
     (case s of None \<Rightarrow> True
      | Some a \<Rightarrow> a < length h \<and> h ! a = mk (un (h ! a)) \<and> list_all (valid h) (un (h ! a)))"

definition slice_locs ::
    "(cell \<Rightarrow> 'e list) \<Rightarrow> (heap \<Rightarrow> 'e \<Rightarrow> nat set) \<Rightarrow> heap \<Rightarrow> slice \<Rightarrow> nat set" where
  "slice_locs un locs h s =
     (case s of None \<Rightarrow> {} | Some a \<Rightarrow> insert a (\<Union>x \<in> set (un (h ! a)). locs h x))"

definition slice_view ::
    "(cell \<Rightarrow> 'e list) \<Rightarrow> (heap \<Rightarrow> 'e \<Rightarrow> 'v) \<Rightarrow> heap \<Rightarrow> slice \<Rightarrow> 'v list option" where
  "slice_view un view h s = (case s of None \<Rightarrow> None | Some a \<Rightarrow> Some (map (view h) (un (h ! a))))"

locale slice_copier = copier valid locs view into
  for valid :: "heap \<Rightarrow> 'e \<Rightarrow> bool" and locs :: "heap \<Rightarrow> 'e \<Rightarrow> nat set"
    and view :: "heap \<Rightarrow> 'e \<Rightarrow> 'v" and into :: "'e \<Rightarrow> heap \<Rightarrow> 'e \<times> heap" +
  fixes mk :: "'e list \<Rightarrow> cell" and un :: "cell \<Rightarrow> 'e list" and zero :: 'e
  assumes un_mk: "un (mk xs) = xs"
begin

text \<open>The loop after \<open>k\<close> elements: \<open>ys\<close> are copied, the rest is zero, nothing old has changed.\<close>

definition copied :: "heap \<Rightarrow> 'e list \<Rightarrow> nat \<Rightarrow> 'e list \<Rightarrow> heap \<Rightarrow> bool" where
  "copied h es b ys h' \<longleftrightarrow>
     (\<forall>i < length ys. valid h' (ys ! i) \<and> view h' (ys ! i) = view h (es ! i) \<and> locs h' (ys ! i) \<inter> {..b} = {})"

lemma copied_append: "copied h es b ys h' \<Longrightarrow> copied h es b ys (h' @ zs)"
  by (simp add: copied_def frame_append)

lemma copied_update: "copied h es b ys h' \<Longrightarrow> copied h es b ys (h'[b := c])"
proof -
  assume h': "copied h es b ys h'"
  have "valid (h'[b := c]) y \<and> view (h'[b := c]) y = v \<and> locs (h'[b := c]) y \<inter> {..b} = {}"
    if "valid h' y \<and> view h' y = v \<and> locs h' y \<inter> {..b} = {}" for y v
  proof -
    have "b \<notin> locs h' y" using that by blast
    with frame_update [of h' y b c] that show ?thesis by simp
  qed
  with h' show ?thesis by (simp add: copied_def)
qed

lemma copied_snoc:
  "copied h es b (ys @ [y]) h' \<longleftrightarrow> copied h es b ys h' \<and> valid h' y
     \<and> view h' y = view h (es ! length ys) \<and> locs h' y \<inter> {..b} = {}"
  by (auto simp: copied_def nth_append less_Suc_eq)

lemma copy_loop:
  assumes x: "slice_valid mk un valid h (Some a)" and k: "k \<le> length (un (h ! a))"
  shows "\<exists>ys zs. fold (copy_elem mk un into a (length h)) [0..<k]
        (h @ [mk (replicate (length (un (h ! a))) zero)])
      = h @ mk (ys @ replicate (length (un (h ! a)) - k) zero) # zs
    \<and> length ys = k
    \<and> copied h (un (h ! a)) (length h) ys (h @ mk (ys @ replicate (length (un (h ! a)) - k) zero) # zs)"
  using k
proof (induction k)
  case 0
  then show ?case by (simp add: copied_def)
next
  case (Suc k)
  let ?es = "un (h ! a)" and ?b = "length h"
  let ?n = "length ?es"
  obtain ys zs where run: "fold (copy_elem mk un into a ?b) [0..<k] (h @ [mk (replicate ?n zero)])
        = h @ mk (ys @ replicate (?n - k) zero) # zs"
    and ys: "length ys = k" "copied h ?es ?b ys (h @ mk (ys @ replicate (?n - k) zero) # zs)"
    using Suc by auto
  define hk where "hk = h @ mk (ys @ replicate (?n - k) zero) # zs"
  have a: "a < ?b" and es: "valid h (?es ! k)"
    using x Suc.prems by (auto simp: slice_valid_def list_all_length)
  obtain y h1 where y: "into (?es ! k) hk = (y, h1)" by fastforce
  have ek: "valid hk (?es ! k)" "view hk (?es ! k) = view h (?es ! k)"
    unfolding hk_def using frame_append [OF es] by auto
  from copies [OF ek(1) y] obtain zs' where h1: "h1 = hk @ zs'"
    and y1: "valid h1 y" "view h1 y = view hk (?es ! k)" "locs h1 y \<inter> {..<length hk} = {}" by blast
  let ?c = "mk (ys @ y # replicate (?n - Suc k) zero)"
  have "(ys @ replicate (?n - k) zero)[k := y] = ys @ y # replicate (?n - Suc k) zero"
    using ys(1) Suc.prems by (simp add: list_update_append Suc_diff_Suc [symmetric])
  then have "copy_elem mk un into a ?b k hk = h1[?b := ?c]"
    using a y by (simp add: copy_elem_def h1 hk_def nth_append un_mk)
  moreover have hk1: "h1[?b := ?c] = h @ ?c # (zs @ zs')" by (simp add: h1 hk_def)
  moreover have "copied h ?es ?b (ys @ [y]) (h1[?b := ?c])"
  proof -
    have "copied h ?es ?b ys (h1[?b := ?c])"
      using ys(2) by (simp add: h1 hk_def [symmetric] copied_append copied_update)
    moreover have out: "locs h1 y \<inter> {..?b} = {}" using y1(3) by (auto simp: hk_def)
    then have "?b \<notin> locs h1 y" by blast
    from frame_update [OF y1(1) this]
    have "valid (h1[?b := ?c]) y \<and> view (h1[?b := ?c]) y = view h (?es ! k)
        \<and> locs (h1[?b := ?c]) y \<inter> {..?b} = {}"
      using y1(2) ek(2) out by simp
    ultimately show ?thesis using ys(1) by (simp add: copied_snoc)
  qed
  ultimately show ?case
    using run ys(1) by (intro exI [of _ "ys @ [y]"] exI [of _ "zs @ zs'"]) (simp add: hk_def [symmetric])
qed

lemma copy_slice_copies:
  assumes x: "slice_valid mk un valid h s" and c: "copy_slice mk un zero into s h = (t, h')"
  shows "(\<exists>zs. h' = h @ zs) \<and> slice_valid mk un valid h' t
    \<and> slice_view un view h' t = slice_view un view h s \<and> slice_locs un locs h' t \<inter> {..<length h} = {}"
proof (cases s)
  case None
  with c show ?thesis by (auto simp: copy_slice_def slice_valid_def slice_view_def slice_locs_def)
next
  case (Some a)
  let ?es = "un (h ! a)"
  from copy_loop [OF x [unfolded Some] order_refl] obtain ys zs
    where run: "fold (copy_elem mk un into a (length h)) [0..<length ?es]
        (h @ [mk (replicate (length ?es) zero)]) = h @ mk ys # zs"
      and ys: "length ys = length ?es" "copied h ?es (length h) ys (h @ mk ys # zs)" by auto
  have t: "t = Some (length h)" and h': "h' = h @ mk ys # zs"
    using c by (auto simp: copy_slice_def Some run Let_def)
  have "map (view h') ys = map (view h) ?es"
    using ys by (auto simp: copied_def h' intro!: nth_equalityI)
  moreover have "\<forall>y \<in> set ys. valid h' y \<and> locs h' y \<inter> {..length h} = {}"
    using ys unfolding copied_def h' by (metis in_set_conv_nth)
  ultimately show ?thesis
    by (fastforce simp: t h' Some slice_valid_def slice_view_def slice_locs_def nth_append un_mk list_all_iff)
qed

end

lemma slice_locs_below:
  assumes "\<And>x. valid h x \<Longrightarrow> locs h x \<subseteq> {..<length h}" and "slice_valid mk un valid h s"
  shows "slice_locs un locs h s \<subseteq> {..<length h}"
proof (cases s)
  case (Some a)
  have "locs h x \<subseteq> {..<length h}" if "x \<in> set (un (h ! a))" for x
    using assms(1) [of x] assms(2) that by (simp add: Some slice_valid_def list_all_iff)
  then show ?thesis using assms(2) by (auto simp: Some slice_locs_def slice_valid_def)
qed (simp add: slice_locs_def)

lemma slice_frame:
  assumes "\<And>x. \<lbrakk>valid h x; \<forall>a \<in> locs h x. h' ! a = h ! a\<rbrakk> \<Longrightarrow>
      valid h' x \<and> locs h' x = locs h x \<and> view h' x = view h x"
    and "slice_valid mk un valid h s" and "length h \<le> length h'"
    and same: "\<forall>a \<in> slice_locs un locs h s. h' ! a = h ! a"
  shows "slice_valid mk un valid h' s \<and> slice_locs un locs h' s = slice_locs un locs h s
    \<and> slice_view un view h' s = slice_view un view h s"
proof (cases s)
  case (Some a)
  have "valid h' x \<and> locs h' x = locs h x \<and> view h' x = view h x" if "x \<in> set (un (h ! a))" for x
    using assms(1) [of x] assms(2) same that
    by (auto simp: Some slice_valid_def slice_locs_def list_all_iff)
  moreover have "h' ! a = h ! a" using same by (simp add: Some slice_locs_def)
  ultimately show ?thesis
    using assms(2,3) by (auto simp: Some slice_valid_def slice_locs_def slice_view_def list_all_iff)
qed (simp add: slice_valid_def slice_locs_def slice_view_def)

sublocale slice_copier \<subseteq> slice: copier "slice_valid mk un valid" "slice_locs un locs" "slice_view un view"
  "copy_slice mk un zero into"
proof unfold_locales
  fix h s
  show "slice_valid mk un valid h s \<Longrightarrow> slice_locs un locs h s \<subseteq> {..<length h}"
    by (rule slice_locs_below [of valid]) (rule locs_below)
next
  fix h h' :: heap and s
  assume s: "slice_valid mk un valid h s" and l: "length h \<le> length h'"
    and "\<forall>a \<in> slice_locs un locs h s. h' ! a = h ! a"
  then show "slice_valid mk un valid h' s \<and> slice_locs un locs h' s = slice_locs un locs h s
      \<and> slice_view un view h' s = slice_view un view h s"
    using frame [of h _ h', OF _ l] by (intro slice_frame [where valid = valid]) auto
qed (rule copy_slice_copies)

section \<open>Arrays of plain elements\<close>

locale plain_array =
  fixes mk :: "'e list \<Rightarrow> cell" and un :: "cell \<Rightarrow> 'e list"
  assumes un_mk: "un (mk xs) = xs"

sublocale plain_array \<subseteq> plain: copier "slice_valid mk un (\<lambda>_ _. True)" "slice_locs un (\<lambda>_ _. {})"
  "slice_view un (\<lambda>_ x. x)" "copy_plain mk un"
proof unfold_locales
  fix h s
  show "slice_valid mk un (\<lambda>_ _. True) h s \<Longrightarrow> slice_locs un (\<lambda>_ _. {}) h s \<subseteq> {..<length h}"
    by (rule slice_locs_below) auto
next
  fix h h' :: heap and s
  assume "slice_valid mk un (\<lambda>_ _. True) h s" "length h \<le> length h'"
    "\<forall>a \<in> slice_locs un (\<lambda>_ _. {}) h s. h' ! a = h ! a"
  then show "slice_valid mk un (\<lambda>_ _. True) h' s
      \<and> slice_locs un (\<lambda>_ _. {}) h' s = slice_locs un (\<lambda>_ _. {}) h s
      \<and> slice_view un (\<lambda>_ x. x) h' s = slice_view un (\<lambda>_ x. x) h s"
    by (intro slice_frame) auto
next
  fix h h' :: heap and s t
  assume "slice_valid mk un (\<lambda>_ _. True) h s" "copy_plain mk un s h = (t, h')"
  then show "(\<exists>zs. h' = h @ zs) \<and> slice_valid mk un (\<lambda>_ _. True) h' t
      \<and> slice_view un (\<lambda>_ x. x) h' t = slice_view un (\<lambda>_ x. x) h s
      \<and> slice_locs un (\<lambda>_ _. {}) h' t \<inter> {..<length h} = {}"
    by (auto simp: copy_plain_def slice_valid_def slice_view_def slice_locs_def un_mk list_all_iff
        split: option.split_asm)
qed

section \<open>Structs with a field that is copied\<close>

text \<open>
  \<^verbatim>\<open>*out = *in\<close>, then one field is replaced by its copy; \<open>rest\<close> is what the other fields show.
\<close>

definition copy_field ::
    "('s \<Rightarrow> 'e) \<Rightarrow> ('e \<Rightarrow> 's \<Rightarrow> 's) \<Rightarrow> ('e \<Rightarrow> heap \<Rightarrow> 'e \<times> heap) \<Rightarrow> 's \<Rightarrow> heap \<Rightarrow> 's \<times> heap" where
  "copy_field get put into x h = (let (e, h1) = into (get x) h in (put e x, h1))"

locale struct_copier = copier valid locs view into
  for valid :: "heap \<Rightarrow> 'e \<Rightarrow> bool" and locs :: "heap \<Rightarrow> 'e \<Rightarrow> nat set"
    and view :: "heap \<Rightarrow> 'e \<Rightarrow> 'v" and into :: "'e \<Rightarrow> heap \<Rightarrow> 'e \<times> heap" +
  fixes get :: "'s \<Rightarrow> 'e" and put :: "'e \<Rightarrow> 's \<Rightarrow> 's" and rest :: "'s \<Rightarrow> 'r"
  assumes get_put: "get (put e x) = e" and rest_put: "rest (put e x) = rest x"

sublocale struct_copier \<subseteq> struct: copier "\<lambda>h x. valid h (get x)" "\<lambda>h x. locs h (get x)"
  "\<lambda>h x. (rest x, view h (get x))" "copy_field get put into"
proof unfold_locales
  fix h h' :: heap and x y
  assume "valid h (get x)" "copy_field get put into x h = (y, h')"
  then show "(\<exists>zs. h' = h @ zs) \<and> valid h' (get y) \<and> (rest y, view h' (get y)) = (rest x, view h (get x))
      \<and> locs h' (get y) \<inter> {..<length h} = {}"
    using copies [of h "get x"] by (auto simp: copy_field_def get_put rest_put split: prod.split_asm)
next
  fix h x
  show "valid h (get x) \<Longrightarrow> locs h (get x) \<subseteq> {..<length h}" by (rule locs_below)
next
  fix h h' :: heap and x
  assume "valid h (get x)" "length h \<le> length h'" "\<forall>a \<in> locs h (get x). h' ! a = h ! a"
  from frame [OF this]
  show "valid h' (get x) \<and> locs h' (get x) = locs h (get x)
      \<and> (rest x, view h' (get x)) = (rest x, view h (get x))" by simp
qed

end
