(* ===== verification/DeepCopies.thy ===== *)
theory DeepCopies
  imports CopyHeap
begin

text \<open>
  \<open>pkg/apis/resaware/v1alpha1/zz_generated.deepcopy.go\<close>: the generated copies of the custom
  resources, one \<^verbatim>\<open>DeepCopyInto\<close> and one \<^verbatim>\<open>DeepCopy\<close> per struct. A struct is the value that a
  pointer of the code leads to. Of the object metadata, which a library copies, name and namespace
  are kept, of the list metadata the resource version; type metadata and status carry nothing.
\<close>

section \<open>Oenuma\<close>

definition Container_DeepCopyInto :: "container \<Rightarrow> heap \<Rightarrow> container \<times> heap" where
  "Container_DeepCopyInto x h = (x, h)"

definition Container_DeepCopy :: "container option \<Rightarrow> heap \<Rightarrow> container option \<times> heap" where
  "Container_DeepCopy = new_copy Container_DeepCopyInto"

definition Numa_DeepCopyInto :: "numa \<Rightarrow> heap \<Rightarrow> numa \<times> heap" where
  "Numa_DeepCopyInto x h = (x, h)"

definition Numa_DeepCopy :: "numa option \<Rightarrow> heap \<Rightarrow> numa option \<times> heap" where
  "Numa_DeepCopy = new_copy Numa_DeepCopyInto"

definition PodAffinity_DeepCopyInto :: "h_affinity \<Rightarrow> heap \<Rightarrow> h_affinity \<times> heap" where
  "PodAffinity_DeepCopyInto =
     copy_field ha_containers (\<lambda>s x. x\<lparr>ha_containers := s\<rparr>) (copy_plain Containers un_containers)"

definition PodAffinity_DeepCopy :: "h_affinity option \<Rightarrow> heap \<Rightarrow> h_affinity option \<times> heap" where
  "PodAffinity_DeepCopy = new_copy PodAffinity_DeepCopyInto"

definition zero_affinity :: h_affinity where
  "zero_affinity = \<lparr>ha_numa = 0, ha_pod = '''', ha_ns = '''', ha_containers = None\<rparr>"

definition Node_DeepCopyInto :: "h_node \<Rightarrow> heap \<Rightarrow> h_node \<times> heap" where
  "Node_DeepCopyInto x h =
     (let (numas, h1) = copy_plain Numas un_numas (hn_numa x) h;
          (affinities, h2) =
            copy_slice Affinities un_affinities zero_affinity PodAffinity_DeepCopyInto (hn_affinity x) h1
      in (x\<lparr>hn_numa := numas, hn_affinity := affinities\<rparr>, h2))"

definition Node_DeepCopy :: "h_node option \<Rightarrow> heap \<Rightarrow> h_node option \<times> heap" where
  "Node_DeepCopy = new_copy Node_DeepCopyInto"

definition zero_node :: h_node where
  "zero_node = \<lparr>hn_name = '''', hn_numa = None, hn_affinity = None\<rparr>"

definition OenumaSpec_DeepCopyInto :: "h_oenuma_spec \<Rightarrow> heap \<Rightarrow> h_oenuma_spec \<times> heap" where
  "OenumaSpec_DeepCopyInto =
     copy_field hs_node (\<lambda>s x. x\<lparr>hs_node := s\<rparr>) (copy_slice Nodes un_nodes zero_node Node_DeepCopyInto)"

definition OenumaSpec_DeepCopy :: "h_oenuma_spec option \<Rightarrow> heap \<Rightarrow> h_oenuma_spec option \<times> heap" where
  "OenumaSpec_DeepCopy = new_copy OenumaSpec_DeepCopyInto"

definition Oenuma_DeepCopyInto :: "h_oenuma \<Rightarrow> heap \<Rightarrow> h_oenuma \<times> heap" where
  "Oenuma_DeepCopyInto = copy_field ho_spec (\<lambda>s x. x\<lparr>ho_spec := s\<rparr>) OenumaSpec_DeepCopyInto"

definition Oenuma_DeepCopy :: "h_oenuma option \<Rightarrow> heap \<Rightarrow> h_oenuma option \<times> heap" where
  "Oenuma_DeepCopy = new_copy Oenuma_DeepCopyInto"

definition zero_oenuma :: h_oenuma where
  "zero_oenuma = \<lparr>ho_meta = \<lparr>om_name = '''', om_namespace = ''''\<rparr>,
     ho_spec = \<lparr>hs_name = '''', hs_replicas = 0, hs_node = None, hs_update = ''''\<rparr>\<rparr>"

record h_list =
  hi_version :: string
  hi_items :: slice

definition OenumaList_DeepCopyInto :: "h_list \<Rightarrow> heap \<Rightarrow> h_list \<times> heap" where
  "OenumaList_DeepCopyInto =
     copy_field hi_items (\<lambda>s x. x\<lparr>hi_items := s\<rparr>) (copy_slice Oenumas un_oenumas zero_oenuma Oenuma_DeepCopyInto)"

definition OenumaList_DeepCopy :: "h_list option \<Rightarrow> heap \<Rightarrow> h_list option \<times> heap" where
  "OenumaList_DeepCopy = new_copy OenumaList_DeepCopyInto"

section \<open>Whitelist\<close>

definition TargetPod_DeepCopyInto :: "h_target \<Rightarrow> heap \<Rightarrow> h_target \<times> heap" where
  "TargetPod_DeepCopyInto = copy_field ht_names (\<lambda>s x. x\<lparr>ht_names := s\<rparr>) (copy_plain Names un_names)"

definition TargetPod_DeepCopy :: "h_target option \<Rightarrow> heap \<Rightarrow> h_target option \<times> heap" where
  "TargetPod_DeepCopy = new_copy TargetPod_DeepCopyInto"

definition zero_target :: h_target where
  "zero_target = \<lparr>ht_ns = '''', ht_names = None\<rparr>"

definition WhitelistSpec_DeepCopyInto :: "h_whitelist_spec \<Rightarrow> heap \<Rightarrow> h_whitelist_spec \<times> heap" where
  "WhitelistSpec_DeepCopyInto =
     copy_field hw_targets (\<lambda>s x. x\<lparr>hw_targets := s\<rparr>)
       (copy_slice Targets un_targets zero_target TargetPod_DeepCopyInto)"

definition WhitelistSpec_DeepCopy ::
    "h_whitelist_spec option \<Rightarrow> heap \<Rightarrow> h_whitelist_spec option \<times> heap" where
  "WhitelistSpec_DeepCopy = new_copy WhitelistSpec_DeepCopyInto"

definition Whitelist_DeepCopyInto :: "h_whitelist \<Rightarrow> heap \<Rightarrow> h_whitelist \<times> heap" where
  "Whitelist_DeepCopyInto = copy_field hl_spec (\<lambda>s x. x\<lparr>hl_spec := s\<rparr>) WhitelistSpec_DeepCopyInto"

definition Whitelist_DeepCopy :: "h_whitelist option \<Rightarrow> heap \<Rightarrow> h_whitelist option \<times> heap" where
  "Whitelist_DeepCopy = new_copy Whitelist_DeepCopyInto"

definition zero_whitelist :: h_whitelist where
  "zero_whitelist = \<lparr>hl_meta = \<lparr>om_name = '''', om_namespace = ''''\<rparr>,
     hl_spec = \<lparr>hw_name = '''', hw_effective = False, hw_targets = None\<rparr>\<rparr>"

definition WhitelistList_DeepCopyInto :: "h_list \<Rightarrow> heap \<Rightarrow> h_list \<times> heap" where
  "WhitelistList_DeepCopyInto =
     copy_field hi_items (\<lambda>s x. x\<lparr>hi_items := s\<rparr>)
       (copy_slice Whitelists un_whitelists zero_whitelist Whitelist_DeepCopyInto)"

definition WhitelistList_DeepCopy :: "h_list option \<Rightarrow> heap \<Rightarrow> h_list option \<times> heap" where
  "WhitelistList_DeepCopy = new_copy WhitelistList_DeepCopyInto"

text \<open>\<^verbatim>\<open>DeepCopyObject\<close>: an interface holding the copy, the nil interface for nil.\<close>

datatype runtime_object =
  OenumaObject h_oenuma | OenumaListObject h_list | WhitelistObject h_whitelist | WhitelistListObject h_list

definition as_object :: "('e \<Rightarrow> runtime_object) \<Rightarrow> 'e option \<times> heap \<Rightarrow> runtime_object option \<times> heap" where
  "as_object mk = (\<lambda>(c, h). (map_option mk c, h))"

definition Oenuma_DeepCopyObject :: "h_oenuma option \<Rightarrow> heap \<Rightarrow> runtime_object option \<times> heap" where
  "Oenuma_DeepCopyObject x h = as_object OenumaObject (Oenuma_DeepCopy x h)"

definition OenumaList_DeepCopyObject :: "h_list option \<Rightarrow> heap \<Rightarrow> runtime_object option \<times> heap" where
  "OenumaList_DeepCopyObject x h = as_object OenumaListObject (OenumaList_DeepCopy x h)"

definition Whitelist_DeepCopyObject :: "h_whitelist option \<Rightarrow> heap \<Rightarrow> runtime_object option \<times> heap" where
  "Whitelist_DeepCopyObject x h = as_object WhitelistObject (Whitelist_DeepCopy x h)"

definition WhitelistList_DeepCopyObject :: "h_list option \<Rightarrow> heap \<Rightarrow> runtime_object option \<times> heap" where
  "WhitelistList_DeepCopyObject x h = as_object WhitelistListObject (WhitelistList_DeepCopy x h)"

section \<open>Every one is a copier\<close>

text \<open>
  What a value of each struct reaches and shows, from the inside out; each interpretation
  discharges the contract for one generated function.
\<close>

interpretation containers: plain_array Containers un_containers by unfold_locales simp

interpretation numas: plain_array Numas un_numas by unfold_locales simp

interpretation names: plain_array Names un_names by unfold_locales simp

definition affinity_valid :: "heap \<Rightarrow> h_affinity \<Rightarrow> bool" where
  "affinity_valid = (\<lambda>h x. slice_valid Containers un_containers (\<lambda>_ _. True) h (ha_containers x))"

definition affinity_locs :: "heap \<Rightarrow> h_affinity \<Rightarrow> nat set" where
  "affinity_locs = (\<lambda>h x. slice_locs un_containers (\<lambda>_ _. {}) h (ha_containers x))"

definition affinity_view ::
    "heap \<Rightarrow> h_affinity \<Rightarrow> (int32 \<times> string \<times> string) \<times> container list option" where
  "affinity_view =
     (\<lambda>h x. ((ha_numa x, ha_pod x, ha_ns x), slice_view un_containers (\<lambda>_ x. x) h (ha_containers x)))"

interpretation affinity_struct: struct_copier
  "slice_valid Containers un_containers (\<lambda>_ _. True)" "slice_locs un_containers (\<lambda>_ _. {})"
  "slice_view un_containers (\<lambda>_ x. x)" "copy_plain Containers un_containers"
  ha_containers "\<lambda>s x. x\<lparr>ha_containers := s\<rparr>" "\<lambda>x. (ha_numa x, ha_pod x, ha_ns x)"
  by unfold_locales simp_all

interpretation affinities: slice_copier affinity_valid affinity_locs affinity_view
  PodAffinity_DeepCopyInto Affinities un_affinities zero_affinity
  unfolding affinity_valid_def affinity_locs_def affinity_view_def PodAffinity_DeepCopyInto_def
  by unfold_locales simp

definition node_valid :: "heap \<Rightarrow> h_node \<Rightarrow> bool" where
  "node_valid = (\<lambda>h x. slice_valid Numas un_numas (\<lambda>_ _. True) h (hn_numa x)
     \<and> slice_valid Affinities un_affinities affinity_valid h (hn_affinity x))"

definition node_locs :: "heap \<Rightarrow> h_node \<Rightarrow> nat set" where
  "node_locs = (\<lambda>h x. slice_locs un_numas (\<lambda>_ _. {}) h (hn_numa x)
     \<union> slice_locs un_affinities affinity_locs h (hn_affinity x))"

definition node_view :: "heap \<Rightarrow> h_node \<Rightarrow>
    string \<times> numa list option \<times> ((int32 \<times> string \<times> string) \<times> container list option) list option" where
  "node_view = (\<lambda>h x. (hn_name x, slice_view un_numas (\<lambda>_ x. x) h (hn_numa x),
     slice_view un_affinities affinity_view h (hn_affinity x)))"

lemma node_copies:
  assumes "node_valid h x" and "Node_DeepCopyInto x h = (y, h')"
  shows "(\<exists>zs. h' = h @ zs) \<and> node_valid h' y \<and> node_view h' y = node_view h x
    \<and> node_locs h' y \<inter> {..<length h} = {}"
proof -
  have v: "slice_valid Numas un_numas (\<lambda>_ _. True) h (hn_numa x)"
      "slice_valid Affinities un_affinities affinity_valid h (hn_affinity x)"
    using assms(1) by (simp_all add: node_valid_def)
  obtain n h1 where n: "copy_plain Numas un_numas (hn_numa x) h = (n, h1)" by fastforce
  obtain f h2 where f: "copy_slice Affinities un_affinities zero_affinity PodAffinity_DeepCopyInto
      (hn_affinity x) h1 = (f, h2)" by fastforce
  have y: "y = x\<lparr>hn_numa := n, hn_affinity := f\<rparr>" "h' = h2"
    using assms(2) by (simp_all add: Node_DeepCopyInto_def n f)
  from numas.plain.copies [OF v(1) n] obtain zs where h1: "h1 = h @ zs"
    and n1: "slice_valid Numas un_numas (\<lambda>_ _. True) h1 n"
      "slice_view un_numas (\<lambda>_ x. x) h1 n = slice_view un_numas (\<lambda>_ x. x) h (hn_numa x)"
      "slice_locs un_numas (\<lambda>_ _. {}) h1 n \<inter> {..<length h} = {}" by blast
  have v1: "slice_valid Affinities un_affinities affinity_valid h1 (hn_affinity x)"
    "slice_view un_affinities affinity_view h1 (hn_affinity x) = slice_view un_affinities affinity_view h (hn_affinity x)"
    unfolding h1 by (rule affinities.slice.frame_append [OF v(2)])+
  from affinities.slice.copies [OF v1(1) f] obtain zs' where h2: "h2 = h1 @ zs'"
    and f1: "slice_valid Affinities un_affinities affinity_valid h2 f"
      "slice_view un_affinities affinity_view h2 f = slice_view un_affinities affinity_view h1 (hn_affinity x)"
      "slice_locs un_affinities affinity_locs h2 f \<inter> {..<length h1} = {}" by blast
  have n2: "slice_valid Numas un_numas (\<lambda>_ _. True) h2 n"
      "slice_locs un_numas (\<lambda>_ _. {}) h2 n = slice_locs un_numas (\<lambda>_ _. {}) h1 n"
      "slice_view un_numas (\<lambda>_ x. x) h2 n = slice_view un_numas (\<lambda>_ x. x) h1 n"
    unfolding h2 by (rule numas.plain.frame_append [OF n1(1)])+
  have "slice_locs un_affinities affinity_locs h2 f \<inter> {..<length h} = {}"
    using f1(3) by (auto simp: h1)
  then show ?thesis
    using n1 n2 f1 v1 by (simp add: y h1 h2 node_valid_def node_view_def node_locs_def Int_Un_distrib2)
qed

interpretation nodes: slice_copier node_valid node_locs node_view Node_DeepCopyInto Nodes un_nodes zero_node
proof unfold_locales
  fix h x
  show "node_valid h x \<Longrightarrow> node_locs h x \<subseteq> {..<length h}"
    unfolding node_valid_def node_locs_def
    using numas.plain.locs_below affinities.slice.locs_below by blast
next
  fix h h' :: heap and x
  assume "node_valid h x" "length h \<le> length h'" "\<forall>a \<in> node_locs h x. h' ! a = h ! a"
  then show "node_valid h' x \<and> node_locs h' x = node_locs h x \<and> node_view h' x = node_view h x"
    unfolding node_valid_def node_locs_def node_view_def
    using numas.plain.frame [of h "hn_numa x" h'] affinities.slice.frame [of h "hn_affinity x" h'] by auto
qed (rule node_copies, simp_all)

definition spec_valid :: "heap \<Rightarrow> h_oenuma_spec \<Rightarrow> bool" where
  "spec_valid = (\<lambda>h x. slice_valid Nodes un_nodes node_valid h (hs_node x))"

definition spec_locs :: "heap \<Rightarrow> h_oenuma_spec \<Rightarrow> nat set" where
  "spec_locs = (\<lambda>h x. slice_locs un_nodes node_locs h (hs_node x))"

definition "spec_view =
  (\<lambda>h x. ((hs_name x, hs_replicas x, hs_update x), slice_view un_nodes node_view h (hs_node x)))"

interpretation spec_struct: struct_copier
  "slice_valid Nodes un_nodes node_valid" "slice_locs un_nodes node_locs" "slice_view un_nodes node_view"
  "copy_slice Nodes un_nodes zero_node Node_DeepCopyInto"
  hs_node "\<lambda>s x. x\<lparr>hs_node := s\<rparr>" "\<lambda>x. (hs_name x, hs_replicas x, hs_update x)"
  by unfold_locales simp_all

interpretation oenuma_struct: struct_copier spec_valid spec_locs spec_view OenumaSpec_DeepCopyInto
  ho_spec "\<lambda>s x. x\<lparr>ho_spec := s\<rparr>" ho_meta
  unfolding spec_valid_def spec_locs_def spec_view_def OenumaSpec_DeepCopyInto_def
  by unfold_locales simp_all

definition oenuma_valid :: "heap \<Rightarrow> h_oenuma \<Rightarrow> bool" where
  "oenuma_valid = (\<lambda>h x. spec_valid h (ho_spec x))"

definition oenuma_locs :: "heap \<Rightarrow> h_oenuma \<Rightarrow> nat set" where
  "oenuma_locs = (\<lambda>h x. spec_locs h (ho_spec x))"

definition "oenuma_view = (\<lambda>h x. (ho_meta x, spec_view h (ho_spec x)))"

interpretation oenumas: slice_copier oenuma_valid oenuma_locs oenuma_view Oenuma_DeepCopyInto
  Oenumas un_oenumas zero_oenuma
  unfolding oenuma_valid_def oenuma_locs_def oenuma_view_def Oenuma_DeepCopyInto_def
  by unfold_locales simp

interpretation oenuma_list: struct_copier
  "slice_valid Oenumas un_oenumas oenuma_valid" "slice_locs un_oenumas oenuma_locs"
  "slice_view un_oenumas oenuma_view" "copy_slice Oenumas un_oenumas zero_oenuma Oenuma_DeepCopyInto"
  hi_items "\<lambda>s x. x\<lparr>hi_items := s\<rparr>" hi_version
  by unfold_locales simp_all

definition target_valid :: "heap \<Rightarrow> h_target \<Rightarrow> bool" where
  "target_valid = (\<lambda>h x. slice_valid Names un_names (\<lambda>_ _. True) h (ht_names x))"

definition target_locs :: "heap \<Rightarrow> h_target \<Rightarrow> nat set" where
  "target_locs = (\<lambda>h x. slice_locs un_names (\<lambda>_ _. {}) h (ht_names x))"

definition "target_view = (\<lambda>h x. (ht_ns x, slice_view un_names (\<lambda>_ x. x) h (ht_names x)))"

interpretation target_struct: struct_copier
  "slice_valid Names un_names (\<lambda>_ _. True)" "slice_locs un_names (\<lambda>_ _. {})"
  "slice_view un_names (\<lambda>_ x. x)" "copy_plain Names un_names"
  ht_names "\<lambda>s x. x\<lparr>ht_names := s\<rparr>" ht_ns
  by unfold_locales simp_all

interpretation targets: slice_copier target_valid target_locs target_view TargetPod_DeepCopyInto
  Targets un_targets zero_target
  unfolding target_valid_def target_locs_def target_view_def TargetPod_DeepCopyInto_def
  by unfold_locales simp

interpretation whitelist_spec_struct: struct_copier
  "slice_valid Targets un_targets target_valid" "slice_locs un_targets target_locs"
  "slice_view un_targets target_view" "copy_slice Targets un_targets zero_target TargetPod_DeepCopyInto"
  hw_targets "\<lambda>s x. x\<lparr>hw_targets := s\<rparr>" "\<lambda>x. (hw_name x, hw_effective x)"
  by unfold_locales simp_all

definition whitelist_valid :: "heap \<Rightarrow> h_whitelist \<Rightarrow> bool" where
  "whitelist_valid = (\<lambda>h x. slice_valid Targets un_targets target_valid h (hw_targets (hl_spec x)))"

definition whitelist_locs :: "heap \<Rightarrow> h_whitelist \<Rightarrow> nat set" where
  "whitelist_locs = (\<lambda>h x. slice_locs un_targets target_locs h (hw_targets (hl_spec x)))"

definition "whitelist_view = (\<lambda>h x. (hl_meta x, (hw_name (hl_spec x), hw_effective (hl_spec x)),
  slice_view un_targets target_view h (hw_targets (hl_spec x))))"

interpretation whitelist_struct: struct_copier
  "\<lambda>h x. slice_valid Targets un_targets target_valid h (hw_targets x)"
  "\<lambda>h x. slice_locs un_targets target_locs h (hw_targets x)"
  "\<lambda>h x. ((hw_name x, hw_effective x), slice_view un_targets target_view h (hw_targets x))"
  WhitelistSpec_DeepCopyInto
  hl_spec "\<lambda>s x. x\<lparr>hl_spec := s\<rparr>" hl_meta
  unfolding WhitelistSpec_DeepCopyInto_def by unfold_locales simp_all

interpretation whitelists: slice_copier whitelist_valid whitelist_locs whitelist_view Whitelist_DeepCopyInto
  Whitelists un_whitelists zero_whitelist
  unfolding whitelist_valid_def whitelist_locs_def whitelist_view_def Whitelist_DeepCopyInto_def
  by unfold_locales simp

interpretation whitelist_list: struct_copier
  "slice_valid Whitelists un_whitelists whitelist_valid" "slice_locs un_whitelists whitelist_locs"
  "slice_view un_whitelists whitelist_view"
  "copy_slice Whitelists un_whitelists zero_whitelist Whitelist_DeepCopyInto"
  hi_items "\<lambda>s x. x\<lparr>hi_items := s\<rparr>" hi_version
  by unfold_locales simp_all

section \<open>Isolation\<close>

text \<open>A list of either kind of resource: its validity, the arrays it reaches, its content.\<close>

definition oenumas_valid :: "heap \<Rightarrow> h_list \<Rightarrow> bool" where
  "oenumas_valid h x = slice_valid Oenumas un_oenumas oenuma_valid h (hi_items x)"

definition oenumas_locs :: "heap \<Rightarrow> h_list \<Rightarrow> nat set" where
  "oenumas_locs h x = slice_locs un_oenumas oenuma_locs h (hi_items x)"

definition "oenumas_view h x = (hi_version x, slice_view un_oenumas oenuma_view h (hi_items x))"

definition whitelists_valid :: "heap \<Rightarrow> h_list \<Rightarrow> bool" where
  "whitelists_valid h x = slice_valid Whitelists un_whitelists whitelist_valid h (hi_items x)"

definition whitelists_locs :: "heap \<Rightarrow> h_list \<Rightarrow> nat set" where
  "whitelists_locs h x = slice_locs un_whitelists whitelist_locs h (hi_items x)"

definition "whitelists_view h x = (hi_version x, slice_view un_whitelists whitelist_view h (hi_items x))"

lemma whitelist_copy_isolated:
  assumes "whitelists_valid h x" and "WhitelistList_DeepCopyInto x h = (y, h')"
  shows "whitelists_view h' y = whitelists_view h x
    \<and> (\<forall>a c. a \<in> whitelists_locs h' y \<longrightarrow> whitelists_view (h'[a := c]) x = whitelists_view h x)
    \<and> (\<forall>a c. a < length h \<longrightarrow> whitelists_view (h'[a := c]) y = whitelists_view h x)"
  using whitelist_list.struct.isolated [OF assms [unfolded whitelists_valid_def WhitelistList_DeepCopyInto_def]]
  unfolding whitelists_view_def whitelists_locs_def by blast

text \<open>
  C32: the copy of a list of Oenuma resources shows the same content, nil slices included, and
  shares nothing with it: no write to an array that the copy reaches shows in the original, no
  write to an array there was before shows in the copy.
\<close>

theorem oenuma_copy_isolated:
  assumes "oenumas_valid h x" and "OenumaList_DeepCopyInto x h = (y, h')"
  shows "oenumas_view h' y = oenumas_view h x
    \<and> (\<forall>a c. a \<in> oenumas_locs h' y \<longrightarrow> oenumas_view (h'[a := c]) x = oenumas_view h x)
    \<and> (\<forall>a c. a < length h \<longrightarrow> oenumas_view (h'[a := c]) y = oenumas_view h x)"
  using oenuma_list.struct.isolated [OF assms [unfolded oenumas_valid_def OenumaList_DeepCopyInto_def]]
  unfolding oenumas_view_def oenumas_locs_def by blast

text \<open>
  C33: copying a list of Oenuma resources keeps the heap typed: it only adds arrays, none of the
  old ones changes, and every reference of the copy leads to an array of its kind.
\<close>

theorem oenuma_copy_typed:
  assumes "oenumas_valid h x" and "OenumaList_DeepCopyInto x h = (y, h')"
  shows "oenumas_valid h' y \<and> take (length h) h' = h \<and> oenumas_locs h' y \<subseteq> {length h..<length h'}
    \<and> oenumas_valid h' x \<and> oenumas_view h' x = oenumas_view h x"
proof -
  note v = assms [unfolded oenumas_valid_def OenumaList_DeepCopyInto_def]
  obtain zs where h': "h' = h @ zs" and y: "slice_valid Oenumas un_oenumas oenuma_valid h' (hi_items y)"
    "slice_locs un_oenumas oenuma_locs h' (hi_items y) \<inter> {..<length h} = {}"
    using oenuma_list.struct.copies [OF v] by blast
  have "slice_locs un_oenumas oenuma_locs h' (hi_items y) \<subseteq> {..<length h'}"
    by (rule oenumas.slice.locs_below [OF y(1)])
  with y(2) have "oenumas_locs h' y \<subseteq> {length h..<length h'}"
    by (force simp: oenumas_locs_def)
  with h' y(1) show ?thesis
    using oenumas.slice.frame_append [OF v(1), of zs] by (simp add: oenumas_valid_def oenumas_view_def)
qed

definition sample_heap :: heap where
  "sample_heap =
     [Containers [\<lparr>ctr_id = ''c'', ctr_name = ''n'', ctr_cpuset = ''0'', ctr_memset = ''0''\<rparr>],
      Affinities [\<lparr>ha_numa = 0, ha_pod = ''p'', ha_ns = ''d'', ha_containers = Some 0\<rparr>],
      Nodes [\<lparr>hn_name = ''n1'', hn_numa = None, hn_affinity = Some 1\<rparr>],
      Oenumas [\<lparr>ho_meta = \<lparr>om_name = ''o'', om_namespace = ''tcs''\<rparr>,
        ho_spec = \<lparr>hs_name = ''a'', hs_replicas = 1, hs_node = Some 2, hs_update = ''enable''\<rparr>\<rparr>]]"

definition sample_list :: h_list where
  "sample_list = \<lparr>hi_version = ''1'', hi_items = Some 3\<rparr>"

theorem oenuma_copy_isolated_witness:
  "\<forall>c. oenumas_view ((snd (OenumaList_DeepCopyInto sample_list sample_heap))[0 := c])
     (fst (OenumaList_DeepCopyInto sample_list sample_heap)) = oenumas_view sample_heap sample_list"
proof -
  have v: "oenumas_valid sample_heap sample_list" by code_simp
  have "OenumaList_DeepCopyInto sample_list sample_heap =
      (fst (OenumaList_DeepCopyInto sample_list sample_heap), snd (OenumaList_DeepCopyInto sample_list sample_heap))"
    by simp
  from oenuma_copy_isolated [OF v this] show ?thesis by (simp add: sample_heap_def)
qed

theorem oenuma_copy_typed_witness:
  "oenumas_valid (snd (OenumaList_DeepCopyInto sample_list sample_heap))
     (fst (OenumaList_DeepCopyInto sample_list sample_heap))"
proof -
  have v: "oenumas_valid sample_heap sample_list" by code_simp
  have "OenumaList_DeepCopyInto sample_list sample_heap =
      (fst (OenumaList_DeepCopyInto sample_list sample_heap), snd (OenumaList_DeepCopyInto sample_list sample_heap))"
    by simp
  from oenuma_copy_typed [OF v this] show ?thesis by blast
qed

end
