(* ===== verification/UnionFindProps.thy ===== *)
theory UnionFindProps
  imports UnionFind
begin

text \<open>
  The union-find array refines a partition: its abstraction is the equivalence on the indices,
  the operations of the code are the operations of the partition, and all of them return.
\<close>

section \<open>The abstract partition\<close>

text \<open>The classes of an array, and what it means to merge two of them.\<close>

definition uf_classes :: "nat list \<Rightarrow> (nat \<times> nat) set" where
  "uf_classes fa = {(x, y). x < length fa \<and> y < length fa \<and> uf_rep fa x = uf_rep fa y}"

definition merge_classes :: "nat \<Rightarrow> nat \<Rightarrow> (nat \<times> nat) set \<Rightarrow> (nat \<times> nat) set" where
  "merge_classes x y R =
     R \<union> {(a, b). (a, x) \<in> R \<and> (y, b) \<in> R} \<union> {(a, b). (a, y) \<in> R \<and> (x, b) \<in> R}"

lemma uf_classes_equiv: "equiv {..<length fa} (uf_classes fa)"
  by (auto simp: equiv_def refl_on_def sym_def trans_def uf_classes_def)

lemma uf_classes_cong:
  "length fa' = length fa \<Longrightarrow> \<forall>y < length fa. uf_rep fa' y = uf_rep fa y \<Longrightarrow> uf_classes fa' = uf_classes fa"
  by (auto simp: uf_classes_def)

lemma uf_classes_join:
  assumes "length fa' = length fa" and "x < length fa" and "y < length fa"
    and "\<forall>z < length fa. uf_rep fa' z =
      (if uf_rep fa z = uf_rep fa x then uf_rep fa y else uf_rep fa z)"
  shows "uf_classes fa' = merge_classes x y (uf_classes fa)"
proof -
  let ?r = "uf_rep fa" and ?x = "uf_rep fa x" and ?y = "uf_rep fa y"
  have "(a, b) \<in> uf_classes fa' \<longleftrightarrow> (a, b) \<in> merge_classes x y (uf_classes fa)" for a b
  proof (cases "a < length fa \<and> b < length fa")
    case True
    then have "(a, b) \<in> uf_classes fa' \<longleftrightarrow>
        (if ?r a = ?x then ?y else ?r a) = (if ?r b = ?x then ?y else ?r b)"
      using assms(1,4) by (simp add: uf_classes_def)
    also have "\<dots> \<longleftrightarrow> ?r a = ?r b \<or> ?r a = ?x \<and> ?y = ?r b \<or> ?r a = ?y \<and> ?x = ?r b" by auto
    finally show ?thesis using True assms(2,3) by (simp add: uf_classes_def merge_classes_def)
  qed (use assms(1) in \<open>auto simp: uf_classes_def merge_classes_def\<close>)
  then show ?thesis by auto
qed

text \<open>
  C5: initialising makes the first indices classes of their own; finding returns a member of the
  class and changes no class, although it rewrites the array; joining merges exactly two classes.
  Each returns on every array without cycles and leaves one.
\<close>

theorem union_find_refines:
  assumes "uf_inv fa"
  shows "(\<forall>n < length fa. \<exists>fa'. init_unionFindSet fa n = Ok fa' \<and> uf_inv fa'
            \<and> (\<forall>i \<le> n. \<forall>j \<le> n. (i, j) \<in> uf_classes fa' \<longleftrightarrow> i = j))
    \<and> (\<forall>x < length fa. \<exists>r fa'. uf_find fa x = Ok (r, fa') \<and> uf_inv fa'
            \<and> (x, r) \<in> uf_classes fa \<and> uf_classes fa' = uf_classes fa)
    \<and> (\<forall>x < length fa. \<forall>y < length fa. \<exists>fa'. uf_join fa x y = Ok fa' \<and> uf_inv fa'
            \<and> uf_classes fa' = merge_classes x y (uf_classes fa))"
proof (intro conjI allI impI)
  fix n
  assume "n < length fa"
  from init_ok [OF assms this] obtain fa' where fa': "init_unionFindSet fa n = Ok fa'" "uf_inv fa'"
    "length fa' = length fa" "\<forall>i \<le> n. uf_rep fa' i = i" by blast
  with \<open>n < length fa\<close> show "\<exists>fa'. init_unionFindSet fa n = Ok fa' \<and> uf_inv fa'
      \<and> (\<forall>i \<le> n. \<forall>j \<le> n. (i, j) \<in> uf_classes fa' \<longleftrightarrow> i = j)"
    by (auto simp: uf_classes_def)
next
  fix x
  assume x: "x < length fa"
  from uf_find_ok [OF assms x] obtain fa' where fa': "uf_find fa x = Ok (uf_rep fa x, fa')" "uf_inv fa'"
    "length fa' = length fa" "\<forall>y < length fa. uf_rep fa' y = uf_rep fa y" by blast
  have r: "uf_rep fa x < length fa" "fa ! uf_rep fa x = uf_rep fa x"
    using uf_rep_root [OF assms x] by auto
  then have "(x, uf_rep fa x) \<in> uf_classes fa"
    using x by (simp add: uf_classes_def uf_rep_fixpoint)
  with fa' show "\<exists>r fa'. uf_find fa x = Ok (r, fa') \<and> uf_inv fa'
      \<and> (x, r) \<in> uf_classes fa \<and> uf_classes fa' = uf_classes fa"
    using uf_classes_cong [OF fa'(3,4)] by blast
next
  fix x y
  assume xy: "x < length fa" "y < length fa"
  from uf_join_ok [OF assms xy] obtain fa' where "uf_join fa x y = Ok fa'" "uf_inv fa'"
    "length fa' = length fa" "\<forall>z < length fa. uf_rep fa' z =
      (if uf_rep fa z = uf_rep fa x then uf_rep fa y else uf_rep fa z)" by blast
  then show "\<exists>fa'. uf_join fa x y = Ok fa' \<and> uf_inv fa'
      \<and> uf_classes fa' = merge_classes x y (uf_classes fa)"
    using uf_classes_join [OF _ xy] by blast
qed

theorem union_find_refines_witness:
  "\<exists>fa'. uf_join [0, 1, 1] 0 2 = Ok fa' \<and> uf_inv fa'
     \<and> uf_classes fa' = merge_classes 0 2 (uf_classes [0, 1, 1])"
proof -
  have r: "rooted [0, 1, 1] 0 0 0" "rooted [0, 1, 1] 0 1 1" by (auto intro: rooted.root)
  moreover have "rooted [0, 1, 1] (Suc 0) 2 1"
    by (rule rooted.step) (use r in simp_all)
  ultimately have "uf_inv [0, 1, 1]"
    unfolding uf_inv_def by (auto simp: less_Suc_eq numeral_3_eq_3 numeral_2_eq_2)
  from union_find_refines [OF this] show ?thesis by simp
qed

end
