(* ===== verification/TypedClients.thy ===== *)
theory TypedClients
  imports ApiTypes Durations
begin

text \<open>
  The generated clients of the custom resources, \<open>clientset/versioned\<close> below \<open>pkg/generated\<close>: a
  clientset made from a configuration, the client of the resource group, and the clients of
  \<^verbatim>\<open>oenumas\<close> and \<^verbatim>\<open>whitelists\<close> in a namespace. The request builder of the REST library
  is its interface here: a request is the verb with the builder calls in the order the code makes
  them, and what the library does with a finished request is a parameter, as are the constructors
  of REST and discovery clients.
\<close>

section \<open>Requests\<close>

text \<open>The list options the code looks at or writes; others are passed on and left out.\<close>

record list_options =
  lo_labelSelector :: string
  lo_fieldSelector :: string
  lo_resourceVersion :: string
  lo_watch :: bool
  lo_timeoutSeconds :: "64 word option"

record oenuma_list =
  ol_resourceVersion :: string
  ol_items :: "oenuma list"

record whitelist_list =
  wll_resourceVersion :: string
  wll_items :: "whitelist list"

datatype 'o rest_params = ListParams list_options | OtherParams 'o

datatype 'o rest_body =
  OenumaBody "oenuma option" | WhitelistBody "whitelist option" | OptionsBody 'o | DataBody string

datatype 'o rest_call =
    Namespace string | Resource string | Name string | SubResource "string list"
  | VersionedParams "'o rest_params" | Timeout "64 word" | Body "'o rest_body"

datatype rest_verb = GetVerb | PostVerb | PutVerb | DeleteVerb | PatchVerb string

type_synonym 'o rest_request = "rest_verb \<times> 'o rest_call list"

text \<open>
  \<^verbatim>\<open>Do(ctx).Into(result)\<close> decodes the answer into the object it is given and may fail after
  having changed it; \<^verbatim>\<open>Do(ctx).Error()\<close> and \<^verbatim>\<open>Watch(ctx)\<close> are the other ways to send a
  request. \<open>'w\<close> is the world, \<open>'o\<close> the options no one looks into, \<open>'i\<close> the watches.
\<close>

record ('w, 'o, 'i) rest_client =
  rc_oenuma :: "'o rest_request \<Rightarrow> oenuma \<Rightarrow> 'w \<Rightarrow> 'w \<times> oenuma \<times> string option"
  rc_oenuma_list :: "'o rest_request \<Rightarrow> oenuma_list \<Rightarrow> 'w \<Rightarrow> 'w \<times> oenuma_list \<times> string option"
  rc_whitelist :: "'o rest_request \<Rightarrow> whitelist \<Rightarrow> 'w \<Rightarrow> 'w \<times> whitelist \<times> string option"
  rc_whitelist_list :: "'o rest_request \<Rightarrow> whitelist_list \<Rightarrow> 'w \<Rightarrow> 'w \<times> whitelist_list \<times> string option"
  rc_error :: "'o rest_request \<Rightarrow> 'w \<Rightarrow> 'w \<times> string option"
  rc_watch :: "'o rest_request \<Rightarrow> 'w \<Rightarrow> 'w \<times> 'i option \<times> string option"

definition zero_meta :: object_meta where
  "zero_meta = \<lparr>om_name = [], om_namespace = []\<rparr>"

definition empty_oenuma :: oenuma where
  "empty_oenuma = \<lparr>oe_meta = zero_meta,
     oe_spec = \<lparr>spec_name = [], spec_replicas = 0, spec_node = [], spec_update = []\<rparr>\<rparr>"

definition empty_whitelist :: whitelist where
  "empty_whitelist = \<lparr>wl_meta = zero_meta,
     wl_spec = \<lparr>wl_name = [], wl_effective = False, wl_targets = []\<rparr>\<rparr>"

definition empty_oenuma_list :: oenuma_list where
  "empty_oenuma_list = \<lparr>ol_resourceVersion = [], ol_items = []\<rparr>"

definition empty_whitelist_list :: whitelist_list where
  "empty_whitelist_list = \<lparr>wll_resourceVersion = [], wll_items = []\<rparr>"

text \<open>
  A call of a method of a nil client panics. Durations are 64-bit counts of nanoseconds, whose
  multiplication wraps around.
\<close>

definition through :: "'c option \<Rightarrow> ('c \<Rightarrow> 'r) \<Rightarrow> 'r go" where
  "through c send = (case c of None \<Rightarrow> Panic NilDereference | Some c \<Rightarrow> Ok (send c))"

definition time_Second :: "64 word" where "time_Second = 1000000000"

definition list_timeout :: "list_options \<Rightarrow> 64 word" where
  "list_timeout opts = (case lo_timeoutSeconds opts of None \<Rightarrow> 0 | Some s \<Rightarrow> s * time_Second)"

section \<open>The client of oenumas (typed/.../oenuma.go)\<close>

record ('w, 'o, 'i) oenumas =
  os_client :: "('w, 'o, 'i) rest_client option"
  os_ns :: string

definition oenumas_Get ::
    "('w, 'o, 'i) oenumas \<Rightarrow> string \<Rightarrow> 'o \<Rightarrow> 'w \<Rightarrow> ('w \<times> oenuma \<times> string option) go" where
  "oenumas_Get c name options w =
     through (os_client c) (\<lambda>rc. rc_oenuma rc (GetVerb,
       [Namespace (os_ns c), Resource ''oenumas'', Name name,
        VersionedParams (OtherParams options)]) empty_oenuma w)"

definition oenumas_List ::
    "('w, 'o, 'i) oenumas \<Rightarrow> list_options \<Rightarrow> 'w \<Rightarrow> ('w \<times> oenuma_list \<times> string option) go" where
  "oenumas_List c opts w =
     through (os_client c) (\<lambda>rc. rc_oenuma_list rc (GetVerb,
       [Namespace (os_ns c), Resource ''oenumas'', VersionedParams (ListParams opts),
        Timeout (list_timeout opts)]) empty_oenuma_list w)"

definition oenumas_Watch ::
    "('w, 'o, 'i) oenumas \<Rightarrow> list_options \<Rightarrow> 'w \<Rightarrow> ('w \<times> 'i option \<times> string option) go" where
  "oenumas_Watch c opts w =
     through (os_client c) (\<lambda>rc. rc_watch rc (GetVerb,
       [Namespace (os_ns c), Resource ''oenumas'',
        VersionedParams (ListParams (opts\<lparr>lo_watch := True\<rparr>)), Timeout (list_timeout opts)]) w)"

definition oenumas_Create ::
    "('w, 'o, 'i) oenumas \<Rightarrow> oenuma option \<Rightarrow> 'o \<Rightarrow> 'w \<Rightarrow> ('w \<times> oenuma \<times> string option) go" where
  "oenumas_Create c obj opts w =
     through (os_client c) (\<lambda>rc. rc_oenuma rc (PostVerb,
       [Namespace (os_ns c), Resource ''oenumas'', VersionedParams (OtherParams opts),
        Body (OenumaBody obj)]) empty_oenuma w)"

text \<open>The name is read from the object, which must not be nil.\<close>

definition oenumas_Update ::
    "('w, 'o, 'i) oenumas \<Rightarrow> oenuma option \<Rightarrow> 'o \<Rightarrow> 'w \<Rightarrow> ('w \<times> oenuma \<times> string option) go" where
  "oenumas_Update c obj opts w =
     (case obj of None \<Rightarrow> Panic NilDereference
      | Some x \<Rightarrow> through (os_client c) (\<lambda>rc. rc_oenuma rc (PutVerb,
          [Namespace (os_ns c), Resource ''oenumas'', Name (om_name (oe_meta x)),
           VersionedParams (OtherParams opts), Body (OenumaBody obj)]) empty_oenuma w))"

definition oenumas_UpdateStatus ::
    "('w, 'o, 'i) oenumas \<Rightarrow> oenuma option \<Rightarrow> 'o \<Rightarrow> 'w \<Rightarrow> ('w \<times> oenuma \<times> string option) go" where
  "oenumas_UpdateStatus c obj opts w =
     (case obj of None \<Rightarrow> Panic NilDereference
      | Some x \<Rightarrow> through (os_client c) (\<lambda>rc. rc_oenuma rc (PutVerb,
          [Namespace (os_ns c), Resource ''oenumas'', Name (om_name (oe_meta x)),
           SubResource [''status''], VersionedParams (OtherParams opts),
           Body (OenumaBody obj)]) empty_oenuma w))"

definition oenumas_Delete ::
    "('w, 'o, 'i) oenumas \<Rightarrow> string \<Rightarrow> 'o \<Rightarrow> 'w \<Rightarrow> ('w \<times> string option) go" where
  "oenumas_Delete c name opts w =
     through (os_client c) (\<lambda>rc. rc_error rc (DeleteVerb,
       [Namespace (os_ns c), Resource ''oenumas'', Name name, Body (OptionsBody opts)]) w)"

definition oenumas_DeleteCollection ::
    "('w, 'o, 'i) oenumas \<Rightarrow> 'o \<Rightarrow> list_options \<Rightarrow> 'w \<Rightarrow> ('w \<times> string option) go" where
  "oenumas_DeleteCollection c opts listOpts w =
     through (os_client c) (\<lambda>rc. rc_error rc (DeleteVerb,
       [Namespace (os_ns c), Resource ''oenumas'', VersionedParams (ListParams listOpts),
        Timeout (list_timeout listOpts), Body (OptionsBody opts)]) w)"

definition oenumas_Patch ::
    "('w, 'o, 'i) oenumas \<Rightarrow> string \<Rightarrow> string \<Rightarrow> string \<Rightarrow> 'o \<Rightarrow> string list \<Rightarrow> 'w \<Rightarrow>
     ('w \<times> oenuma \<times> string option) go" where
  "oenumas_Patch c name pt data opts subresources w =
     through (os_client c) (\<lambda>rc. rc_oenuma rc (PatchVerb pt,
       [Namespace (os_ns c), Resource ''oenumas'', Name name, SubResource subresources,
        VersionedParams (OtherParams opts), Body (DataBody data)]) empty_oenuma w)"

section \<open>The client of whitelists (typed/.../whitelist.go)\<close>

record ('w, 'o, 'i) whitelists =
  ws_client :: "('w, 'o, 'i) rest_client option"
  ws_ns :: string

definition whitelists_Get ::
    "('w, 'o, 'i) whitelists \<Rightarrow> string \<Rightarrow> 'o \<Rightarrow> 'w \<Rightarrow> ('w \<times> whitelist \<times> string option) go" where
  "whitelists_Get c name options w =
     through (ws_client c) (\<lambda>rc. rc_whitelist rc (GetVerb,
       [Namespace (ws_ns c), Resource ''whitelists'', Name name,
        VersionedParams (OtherParams options)]) empty_whitelist w)"

definition whitelists_List ::
    "('w, 'o, 'i) whitelists \<Rightarrow> list_options \<Rightarrow> 'w \<Rightarrow> ('w \<times> whitelist_list \<times> string option) go" where
  "whitelists_List c opts w =
     through (ws_client c) (\<lambda>rc. rc_whitelist_list rc (GetVerb,
       [Namespace (ws_ns c), Resource ''whitelists'', VersionedParams (ListParams opts),
        Timeout (list_timeout opts)]) empty_whitelist_list w)"

definition whitelists_Watch ::
    "('w, 'o, 'i) whitelists \<Rightarrow> list_options \<Rightarrow> 'w \<Rightarrow> ('w \<times> 'i option \<times> string option) go" where
  "whitelists_Watch c opts w =
     through (ws_client c) (\<lambda>rc. rc_watch rc (GetVerb,
       [Namespace (ws_ns c), Resource ''whitelists'',
        VersionedParams (ListParams (opts\<lparr>lo_watch := True\<rparr>)), Timeout (list_timeout opts)]) w)"

definition whitelists_Create ::
    "('w, 'o, 'i) whitelists \<Rightarrow> whitelist option \<Rightarrow> 'o \<Rightarrow> 'w \<Rightarrow> ('w \<times> whitelist \<times> string option) go" where
  "whitelists_Create c obj opts w =
     through (ws_client c) (\<lambda>rc. rc_whitelist rc (PostVerb,
       [Namespace (ws_ns c), Resource ''whitelists'', VersionedParams (OtherParams opts),
        Body (WhitelistBody obj)]) empty_whitelist w)"

text \<open>The name is read from the object, which must not be nil.\<close>

definition whitelists_Update ::
    "('w, 'o, 'i) whitelists \<Rightarrow> whitelist option \<Rightarrow> 'o \<Rightarrow> 'w \<Rightarrow> ('w \<times> whitelist \<times> string option) go" where
  "whitelists_Update c obj opts w =
     (case obj of None \<Rightarrow> Panic NilDereference
      | Some x \<Rightarrow> through (ws_client c) (\<lambda>rc. rc_whitelist rc (PutVerb,
          [Namespace (ws_ns c), Resource ''whitelists'', Name (om_name (wl_meta x)),
           VersionedParams (OtherParams opts), Body (WhitelistBody obj)]) empty_whitelist w))"

definition whitelists_UpdateStatus ::
    "('w, 'o, 'i) whitelists \<Rightarrow> whitelist option \<Rightarrow> 'o \<Rightarrow> 'w \<Rightarrow> ('w \<times> whitelist \<times> string option) go" where
  "whitelists_UpdateStatus c obj opts w =
     (case obj of None \<Rightarrow> Panic NilDereference
      | Some x \<Rightarrow> through (ws_client c) (\<lambda>rc. rc_whitelist rc (PutVerb,
          [Namespace (ws_ns c), Resource ''whitelists'', Name (om_name (wl_meta x)),
           SubResource [''status''], VersionedParams (OtherParams opts),
           Body (WhitelistBody obj)]) empty_whitelist w))"

definition whitelists_Delete ::
    "('w, 'o, 'i) whitelists \<Rightarrow> string \<Rightarrow> 'o \<Rightarrow> 'w \<Rightarrow> ('w \<times> string option) go" where
  "whitelists_Delete c name opts w =
     through (ws_client c) (\<lambda>rc. rc_error rc (DeleteVerb,
       [Namespace (ws_ns c), Resource ''whitelists'', Name name, Body (OptionsBody opts)]) w)"

definition whitelists_DeleteCollection ::
    "('w, 'o, 'i) whitelists \<Rightarrow> 'o \<Rightarrow> list_options \<Rightarrow> 'w \<Rightarrow> ('w \<times> string option) go" where
  "whitelists_DeleteCollection c opts listOpts w =
     through (ws_client c) (\<lambda>rc. rc_error rc (DeleteVerb,
       [Namespace (ws_ns c), Resource ''whitelists'', VersionedParams (ListParams listOpts),
        Timeout (list_timeout listOpts), Body (OptionsBody opts)]) w)"

definition whitelists_Patch ::
    "('w, 'o, 'i) whitelists \<Rightarrow> string \<Rightarrow> string \<Rightarrow> string \<Rightarrow> 'o \<Rightarrow> string list \<Rightarrow> 'w \<Rightarrow>
     ('w \<times> whitelist \<times> string option) go" where
  "whitelists_Patch c name pt data opts subresources w =
     through (ws_client c) (\<lambda>rc. rc_whitelist rc (PatchVerb pt,
       [Namespace (ws_ns c), Resource ''whitelists'', Name name, SubResource subresources,
        VersionedParams (OtherParams opts), Body (DataBody data)]) empty_whitelist w)"

section \<open>The client of the group, and the clientset\<close>

record ('w, 'o, 'i) group_client =
  gc_restClient :: "('w, 'o, 'i) rest_client option"

definition RESTClient :: "('w, 'o, 'i) group_client option \<Rightarrow> ('w, 'o, 'i) rest_client option" where
  "RESTClient c = (case c of None \<Rightarrow> None | Some c \<Rightarrow> gc_restClient c)"

definition newOenumas :: "('w, 'o, 'i) group_client option \<Rightarrow> string \<Rightarrow> ('w, 'o, 'i) oenumas" where
  "newOenumas c namespace = \<lparr>os_client = RESTClient c, os_ns = namespace\<rparr>"

definition newWhitelists :: "('w, 'o, 'i) group_client option \<Rightarrow> string \<Rightarrow> ('w, 'o, 'i) whitelists" where
  "newWhitelists c namespace = \<lparr>ws_client = RESTClient c, ws_ns = namespace\<rparr>"

definition client_Oenumas :: "('w, 'o, 'i) group_client option \<Rightarrow> string \<Rightarrow> ('w, 'o, 'i) oenumas" where
  "client_Oenumas c namespace = newOenumas c namespace"

definition client_Whitelists ::
    "('w, 'o, 'i) group_client option \<Rightarrow> string \<Rightarrow> ('w, 'o, 'i) whitelists" where
  "client_Whitelists c namespace = newWhitelists c namespace"

text \<open>
  The fields of \<^verbatim>\<open>rest.Config\<close> that the code reads or writes; \<open>'l\<close> are rate limiters, \<open>'q\<close> the
  floating point numbers, \<open>'k\<close> what else there is, as the address and the credentials.
\<close>

record ('l, 'q, 'k) rest_config =
  cf_RateLimiter :: "'l option"
  cf_QPS :: 'q
  cf_Burst :: int
  cf_GroupVersion :: "(string \<times> string) option"
  cf_APIPath :: string
  cf_NegotiatedSerializer :: "string option"
  cf_UserAgent :: string
  cf_other :: 'k

record ('l, 'q, 'k, 'c, 'd) client_calls =
  cc_positive :: "'q \<Rightarrow> bool"
  cc_NewTokenBucketRateLimiter :: "'q \<Rightarrow> int \<Rightarrow> 'l"
  cc_DefaultKubernetesUserAgent :: string
  cc_WithoutConversion :: string
  cc_RESTClientFor :: "('l, 'q, 'k) rest_config \<Rightarrow> 'c go"
  cc_NewDiscoveryClientForConfig :: "('l, 'q, 'k) rest_config \<Rightarrow> 'd go"
  cc_NewDiscoveryClient :: "'c option \<Rightarrow> 'd"

definition SchemeGroupVersion :: "string \<times> string" where
  "SchemeGroupVersion = (''resource.sop.huawei.com'', ''v1alpha1'')"

definition setConfigDefaults ::
    "('l, 'q, 'k, 'c, 'd) client_calls \<Rightarrow> ('l, 'q, 'k) rest_config \<Rightarrow> ('l, 'q, 'k) rest_config go" where
  "setConfigDefaults cc config =
     (let c1 = config\<lparr>cf_GroupVersion := Some SchemeGroupVersion, cf_APIPath := ''/apis'',
                cf_NegotiatedSerializer := Some (cc_WithoutConversion cc)\<rparr>
      in Ok (if cf_UserAgent c1 = []
             then c1\<lparr>cf_UserAgent := cc_DefaultKubernetesUserAgent cc\<rparr> else c1))"

definition group_NewForConfig ::
    "('l, 'q, 'k, ('w, 'o, 'i) rest_client, 'd) client_calls \<Rightarrow> ('l, 'q, 'k) rest_config option \<Rightarrow>
     ('w, 'o, 'i) group_client go" where
  "group_NewForConfig cc c =
     (case c of None \<Rightarrow> Panic NilDereference
      | Some config \<Rightarrow> go_bind (setConfigDefaults cc config) (\<lambda>config1.
          go_map (\<lambda>client. \<lparr>gc_restClient = Some client\<rparr>) (cc_RESTClientFor cc config1)))"

text \<open>\<^verbatim>\<open>panic(err)\<close> in place of a returned error.\<close>

definition or_die :: "'a go \<Rightarrow> 'a go" where
  "or_die r = (case r of Err e \<Rightarrow> Panic (PanicError e) | _ \<Rightarrow> r)"

definition group_NewForConfigOrDie ::
    "('l, 'q, 'k, ('w, 'o, 'i) rest_client, 'd) client_calls \<Rightarrow> ('l, 'q, 'k) rest_config option \<Rightarrow>
     ('w, 'o, 'i) group_client go" where
  "group_NewForConfigOrDie cc c = or_die (group_NewForConfig cc c)"

definition group_New :: "('w, 'o, 'i) rest_client option \<Rightarrow> ('w, 'o, 'i) group_client" where
  "group_New c = \<lparr>gc_restClient = c\<rparr>"

record ('w, 'o, 'i, 'd) clientset =
  cs_discovery :: 'd
  cs_resourceV1alpha1 :: "('w, 'o, 'i) group_client option"

definition ResourceV1alpha1 ::
    "('w, 'o, 'i, 'd) clientset option \<Rightarrow> ('w, 'o, 'i) group_client option go" where
  "ResourceV1alpha1 c =
     (case c of None \<Rightarrow> Panic NilDereference | Some cs \<Rightarrow> Ok (cs_resourceV1alpha1 cs))"

definition Discovery :: "('w, 'o, 'i, 'd) clientset option \<Rightarrow> 'd option" where
  "Discovery c = map_option cs_discovery c"

definition burst_required :: string where
  "burst_required = ''burst is required to be greater than 0 when RateLimiter is not set and QPS is set to greater than 0''"

definition limited_config ::
    "('l, 'q, 'k, 'c, 'd) client_calls \<Rightarrow> ('l, 'q, 'k) rest_config \<Rightarrow> ('l, 'q, 'k) rest_config go" where
  "limited_config cc config =
     (if cf_RateLimiter config = None \<and> cc_positive cc (cf_QPS config)
      then if cf_Burst config \<le> 0 then Err burst_required
           else Ok (config\<lparr>cf_RateLimiter :=
                  Some (cc_NewTokenBucketRateLimiter cc (cf_QPS config) (cf_Burst config))\<rparr>)
      else Ok config)"

definition NewForConfig ::
    "('l, 'q, 'k, ('w, 'o, 'i) rest_client, 'd) client_calls \<Rightarrow> ('l, 'q, 'k) rest_config option \<Rightarrow>
     ('w, 'o, 'i, 'd) clientset go" where
  "NewForConfig cc c =
     (case c of None \<Rightarrow> Panic NilDereference
      | Some config \<Rightarrow> go_bind (limited_config cc config) (\<lambda>config1.
          go_bind (group_NewForConfig cc (Some config1)) (\<lambda>group.
            go_map (\<lambda>d. \<lparr>cs_discovery = d, cs_resourceV1alpha1 = Some group\<rparr>)
              (cc_NewDiscoveryClientForConfig cc config1))))"

text \<open>
  The library's \<^verbatim>\<open>NewDiscoveryClientForConfigOrDie\<close> panics where
  \<^verbatim>\<open>NewDiscoveryClientForConfig\<close> returns an error.
\<close>

definition NewForConfigOrDie ::
    "('l, 'q, 'k, ('w, 'o, 'i) rest_client, 'd) client_calls \<Rightarrow> ('l, 'q, 'k) rest_config option \<Rightarrow>
     ('w, 'o, 'i, 'd) clientset go" where
  "NewForConfigOrDie cc c =
     go_bind (group_NewForConfigOrDie cc c) (\<lambda>group.
       case c of None \<Rightarrow> Panic NilDereference
       | Some config \<Rightarrow> go_map (\<lambda>d. \<lparr>cs_discovery = d, cs_resourceV1alpha1 = Some group\<rparr>)
           (or_die (cc_NewDiscoveryClientForConfig cc config)))"

definition clientset_New ::
    "('l, 'q, 'k, ('w, 'o, 'i) rest_client, 'd) client_calls \<Rightarrow> ('w, 'o, 'i) rest_client option \<Rightarrow>
     ('w, 'o, 'i, 'd) clientset" where
  "clientset_New cc c =
     \<lparr>cs_discovery = cc_NewDiscoveryClient cc c, cs_resourceV1alpha1 = Some (group_New c)\<rparr>"

end
