(* ===== verification/Informers.thy ===== *)
theory Informers
  imports TypedClients
begin

text \<open>
  The generated informers and listers (\<open>pkg/generated/informers\<close>, \<open>pkg/generated/listers\<close>): a
  factory makes one shared informer per resource type, on the first request for it, and starts
  the ones that it has not started yet. An informer lists and watches its resource through the
  generated client. The shared informer itself is made by a library; what it is made of is kept
  in a record with a number that tells informers apart. The methods of the factory hold its lock.
\<close>

section \<open>Informers of the library\<close>

datatype go_type = OenumaType | WhitelistType | OtherType string

datatype list_object = OenumaItems oenuma_list | WhitelistItems whitelist_list

text \<open>
  A list watch is a pair of functions of the list options; \<^verbatim>\<open>tweakListOptions\<close> may be nil.
\<close>

type_synonym tweak = "(list_options \<Rightarrow> list_options) option"

record ('w, 'i) list_watch =
  lw_ListFunc :: "list_options \<Rightarrow> 'w \<Rightarrow> ('w \<times> list_object \<times> string option) go"
  lw_WatchFunc :: "list_options \<Rightarrow> 'w \<Rightarrow> ('w \<times> 'i option \<times> string option) go"

record ('w, 'i) shared_informer =
  si_id :: nat
  si_listWatch :: "('w, 'i) list_watch"
  si_object :: go_type
  si_resync :: int
  si_indexers :: "string list"

text \<open>
  What the factories of a process share: the numbers given to informers so far, and the
  goroutines that run an informer until a channel is closed.
\<close>

record 'ch informer_world =
  iw_next :: nat
  iw_running :: "(nat \<times> 'ch) list"

definition NewSharedIndexInformer ::
    "('w, 'i) list_watch \<Rightarrow> go_type \<Rightarrow> int \<Rightarrow> string list \<Rightarrow> 'ch informer_world \<Rightarrow>
     ('w, 'i) shared_informer \<times> 'ch informer_world" where
  "NewSharedIndexInformer lw obj resync indexers iw =
     (\<lparr>si_id = iw_next iw, si_listWatch = lw, si_object = obj, si_resync = resync,
       si_indexers = indexers\<rparr>, iw\<lparr>iw_next := iw_next iw + 1\<rparr>)"

section \<open>Informers of the two resources\<close>

definition tweaked :: "tweak \<Rightarrow> list_options \<Rightarrow> list_options" where
  "tweaked tw options = (case tw of None \<Rightarrow> options | Some f \<Rightarrow> f options)"

text \<open>The interface \<^verbatim>\<open>versioned.Interface\<close>: the clientset, which may be nil.\<close>

definition NewFilteredOenumaInformer ::
    "('w, 'o, 'i, 'd) clientset option \<Rightarrow> string \<Rightarrow> int \<Rightarrow> string list \<Rightarrow> tweak \<Rightarrow>
     'ch informer_world \<Rightarrow> ('w, 'i) shared_informer \<times> 'ch informer_world" where
  "NewFilteredOenumaInformer client namespace resync indexers tw =
     NewSharedIndexInformer
       \<lparr>lw_ListFunc = (\<lambda>options w. go_bind (ResourceV1alpha1 client) (\<lambda>c.
          go_map (\<lambda>(w', l, e). (w', OenumaItems l, e))
            (oenumas_List (client_Oenumas c namespace) (tweaked tw options) w))),
        lw_WatchFunc = (\<lambda>options w. go_bind (ResourceV1alpha1 client) (\<lambda>c.
          oenumas_Watch (client_Oenumas c namespace) (tweaked tw options) w))\<rparr>
       OenumaType resync indexers"

definition NewOenumaInformer ::
    "('w, 'o, 'i, 'd) clientset option \<Rightarrow> string \<Rightarrow> int \<Rightarrow> string list \<Rightarrow>
     'ch informer_world \<Rightarrow> ('w, 'i) shared_informer \<times> 'ch informer_world" where
  "NewOenumaInformer client namespace resync indexers =
     NewFilteredOenumaInformer client namespace resync indexers None"

definition NewFilteredWhitelistInformer ::
    "('w, 'o, 'i, 'd) clientset option \<Rightarrow> string \<Rightarrow> int \<Rightarrow> string list \<Rightarrow> tweak \<Rightarrow>
     'ch informer_world \<Rightarrow> ('w, 'i) shared_informer \<times> 'ch informer_world" where
  "NewFilteredWhitelistInformer client namespace resync indexers tw =
     NewSharedIndexInformer
       \<lparr>lw_ListFunc = (\<lambda>options w. go_bind (ResourceV1alpha1 client) (\<lambda>c.
          go_map (\<lambda>(w', l, e). (w', WhitelistItems l, e))
            (whitelists_List (client_Whitelists c namespace) (tweaked tw options) w))),
        lw_WatchFunc = (\<lambda>options w. go_bind (ResourceV1alpha1 client) (\<lambda>c.
          whitelists_Watch (client_Whitelists c namespace) (tweaked tw options) w))\<rparr>
       WhitelistType resync indexers"

definition NewWhitelistInformer ::
    "('w, 'o, 'i, 'd) clientset option \<Rightarrow> string \<Rightarrow> int \<Rightarrow> string list \<Rightarrow>
     'ch informer_world \<Rightarrow> ('w, 'i) shared_informer \<times> 'ch informer_world" where
  "NewWhitelistInformer client namespace resync indexers =
     NewFilteredWhitelistInformer client namespace resync indexers None"

section \<open>The factory\<close>

record ('w, 'o, 'i, 'd) factory =
  fc_client :: "('w, 'o, 'i, 'd) clientset option"
  fc_namespace :: string
  fc_tweak :: tweak
  fc_defaultResync :: int
  fc_customResync :: "(go_type, int) go_map"
  fc_informers :: "(go_type, ('w, 'i) shared_informer) go_map"
  fc_started :: "(go_type, bool) go_map"

text \<open>
  The options. The type of a factory is not exported, so there are no others than these three;
  the entries of a resync configuration come in the order of the range over it.
\<close>

datatype factory_option =
    CustomResync "(go_type \<times> int) list" | TweakListOptions tweak | NamespaceOption string

definition WithCustomResyncConfig ::
    "(go_type \<times> int) list \<Rightarrow> ('w, 'o, 'i, 'd) factory \<Rightarrow> ('w, 'o, 'i, 'd) factory" where
  "WithCustomResyncConfig cfg fc =
     fc\<lparr>fc_customResync := fold (\<lambda>(k, v). AList.update k v) cfg (fc_customResync fc)\<rparr>"

definition WithTweakListOptions ::
    "tweak \<Rightarrow> ('w, 'o, 'i, 'd) factory \<Rightarrow> ('w, 'o, 'i, 'd) factory" where
  "WithTweakListOptions tw fc = fc\<lparr>fc_tweak := tw\<rparr>"

definition WithNamespace ::
    "string \<Rightarrow> ('w, 'o, 'i, 'd) factory \<Rightarrow> ('w, 'o, 'i, 'd) factory" where
  "WithNamespace ns fc = fc\<lparr>fc_namespace := ns\<rparr>"

fun apply_option :: "factory_option \<Rightarrow> ('w, 'o, 'i, 'd) factory \<Rightarrow> ('w, 'o, 'i, 'd) factory" where
  "apply_option (CustomResync cfg) = WithCustomResyncConfig cfg"
| "apply_option (TweakListOptions tw) = WithTweakListOptions tw"
| "apply_option (NamespaceOption ns) = WithNamespace ns"

definition NewSharedInformerFactoryWithOptions ::
    "('w, 'o, 'i, 'd) clientset option \<Rightarrow> int \<Rightarrow> factory_option list \<Rightarrow> ('w, 'o, 'i, 'd) factory" where
  "NewSharedInformerFactoryWithOptions client defaultResync options =
     fold apply_option options
       \<lparr>fc_client = client, fc_namespace = [], fc_tweak = None, fc_defaultResync = defaultResync,
        fc_customResync = [], fc_informers = [], fc_started = []\<rparr>"

definition NewSharedInformerFactory ::
    "('w, 'o, 'i, 'd) clientset option \<Rightarrow> int \<Rightarrow> ('w, 'o, 'i, 'd) factory" where
  "NewSharedInformerFactory client defaultResync =
     NewSharedInformerFactoryWithOptions client defaultResync []"

definition NewFilteredSharedInformerFactory ::
    "('w, 'o, 'i, 'd) clientset option \<Rightarrow> int \<Rightarrow> string \<Rightarrow> tweak \<Rightarrow> ('w, 'o, 'i, 'd) factory" where
  "NewFilteredSharedInformerFactory client defaultResync namespace tw =
     NewSharedInformerFactoryWithOptions client defaultResync
       [NamespaceOption namespace, TweakListOptions tw]"

text \<open>
  \<^verbatim>\<open>Start\<close> ranges over the informers in the given order and runs those not started yet in a
  goroutine of their own.
\<close>

definition is_started :: "('w, 'o, 'i, 'd) factory \<Rightarrow> go_type \<Rightarrow> bool" where
  "is_started fc t \<longleftrightarrow> map_of (fc_started fc) t = Some True"

definition start_one ::
    "'ch \<Rightarrow> go_type \<times> ('w, 'i) shared_informer \<Rightarrow>
     ('w, 'o, 'i, 'd) factory \<times> 'ch informer_world \<Rightarrow> ('w, 'o, 'i, 'd) factory \<times> 'ch informer_world" where
  "start_one stopCh = (\<lambda>(t, informer) (fc, iw).
     if is_started fc t then (fc, iw)
     else (fc\<lparr>fc_started := AList.update t True (fc_started fc)\<rparr>,
           iw\<lparr>iw_running := iw_running iw @ [(si_id informer, stopCh)]\<rparr>))"

definition factory_Start ::
    "((go_type \<times> ('w, 'i) shared_informer) list \<Rightarrow> (go_type \<times> ('w, 'i) shared_informer) list) \<Rightarrow>
     'ch \<Rightarrow> ('w, 'o, 'i, 'd) factory \<times> 'ch informer_world \<Rightarrow>
     ('w, 'o, 'i, 'd) factory \<times> 'ch informer_world" where
  "factory_Start order stopCh = (\<lambda>(fc, iw).
     fold (start_one stopCh) (order (fc_informers fc)) (fc, iw))"

text \<open>
  \<^verbatim>\<open>WaitForCacheSync\<close> waits for the informers that are started when it is called;
  \<open>sync\<close> is what \<^verbatim>\<open>cache.WaitForCacheSync\<close> answers in the end.
\<close>

definition WaitForCacheSync ::
    "('ch \<Rightarrow> ('w, 'i) shared_informer \<Rightarrow> bool) \<Rightarrow> 'ch \<Rightarrow> ('w, 'o, 'i, 'd) factory \<Rightarrow> (go_type, bool) go_map" where
  "WaitForCacheSync sync stopCh fc =
     map (\<lambda>(t, informer). (t, sync stopCh informer))
       (filter (\<lambda>(t, _). is_started fc t) (fc_informers fc))"

definition InformerFor ::
    "go_type \<Rightarrow>
     (('w, 'o, 'i, 'd) clientset option \<Rightarrow> int \<Rightarrow> 'ch informer_world \<Rightarrow>
        ('w, 'i) shared_informer \<times> 'ch informer_world) \<Rightarrow>
     ('w, 'o, 'i, 'd) factory \<times> 'ch informer_world \<Rightarrow>
     ('w, 'i) shared_informer \<times> ('w, 'o, 'i, 'd) factory \<times> 'ch informer_world" where
  "InformerFor t newFunc = (\<lambda>(fc, iw).
     case map_of (fc_informers fc) t of
       Some informer \<Rightarrow> (informer, fc, iw)
     | None \<Rightarrow>
         let resync = (case map_of (fc_customResync fc) t of
               None \<Rightarrow> fc_defaultResync fc | Some period \<Rightarrow> period);
             (informer, iw1) = newFunc (fc_client fc) resync iw
         in (informer, fc\<lparr>fc_informers := AList.update t informer (fc_informers fc)\<rparr>, iw1))"

section \<open>Access by resource\<close>

text \<open>
  \<^verbatim>\<open>Resource().V1alpha1().Oenumas()\<close>: three structs that carry namespace and tweak of the
  factory to the informer of the resource.
\<close>

record resource_informer =
  ri_namespace :: string
  ri_tweak :: tweak

definition factory_Resource :: "('w, 'o, 'i, 'd) factory \<Rightarrow> resource_informer" where
  "factory_Resource fc = \<lparr>ri_namespace = fc_namespace fc, ri_tweak = fc_tweak fc\<rparr>"

definition group_V1alpha1 :: "resource_informer \<Rightarrow> resource_informer" where
  "group_V1alpha1 g = \<lparr>ri_namespace = ri_namespace g, ri_tweak = ri_tweak g\<rparr>"

definition version_Oenumas :: "resource_informer \<Rightarrow> resource_informer" where
  "version_Oenumas v = \<lparr>ri_namespace = ri_namespace v, ri_tweak = ri_tweak v\<rparr>"

definition version_Whitelists :: "resource_informer \<Rightarrow> resource_informer" where
  "version_Whitelists v = \<lparr>ri_namespace = ri_namespace v, ri_tweak = ri_tweak v\<rparr>"

definition oenuma_defaultInformer ::
    "resource_informer \<Rightarrow> ('w, 'o, 'i, 'd) clientset option \<Rightarrow> int \<Rightarrow> 'ch informer_world \<Rightarrow>
     ('w, 'i) shared_informer \<times> 'ch informer_world" where
  "oenuma_defaultInformer f client resync =
     NewFilteredOenumaInformer client (ri_namespace f) resync [''namespace''] (ri_tweak f)"

definition oenuma_Informer ::
    "resource_informer \<Rightarrow> ('w, 'o, 'i, 'd) factory \<times> 'ch informer_world \<Rightarrow>
     ('w, 'i) shared_informer \<times> ('w, 'o, 'i, 'd) factory \<times> 'ch informer_world" where
  "oenuma_Informer f = InformerFor OenumaType (oenuma_defaultInformer f)"

definition whitelist_defaultInformer ::
    "resource_informer \<Rightarrow> ('w, 'o, 'i, 'd) clientset option \<Rightarrow> int \<Rightarrow> 'ch informer_world \<Rightarrow>
     ('w, 'i) shared_informer \<times> 'ch informer_world" where
  "whitelist_defaultInformer f client resync =
     NewFilteredWhitelistInformer client (ri_namespace f) resync [''namespace''] (ri_tweak f)"

definition whitelist_Informer ::
    "resource_informer \<Rightarrow> ('w, 'o, 'i, 'd) factory \<times> 'ch informer_world \<Rightarrow>
     ('w, 'i) shared_informer \<times> ('w, 'o, 'i, 'd) factory \<times> 'ch informer_world" where
  "whitelist_Informer f = InformerFor WhitelistType (whitelist_defaultInformer f)"

text \<open>\<^verbatim>\<open>ForResource\<close> finds an informer by group, version and resource.\<close>

type_synonym gvr = "string \<times> string \<times> string"

definition WithResource :: "string \<Rightarrow> gvr" where
  "WithResource resource = (fst SchemeGroupVersion, snd SchemeGroupVersion, resource)"

definition gvr_text :: "gvr \<Rightarrow> string" where
  "gvr_text = (\<lambda>(g, v, r). g @ ''/'' @ v @ '', Resource='' @ r)"

record ('w, 'i) generic_informer =
  gi_informer :: "('w, 'i) shared_informer"
  gi_resource :: "string \<times> string"

definition generic :: "gvr \<Rightarrow> ('w, 'i) shared_informer \<times> 's \<Rightarrow> ('w, 'i) generic_informer go \<times> 's" where
  "generic resource = (\<lambda>(informer, s).
     (Ok \<lparr>gi_informer = informer, gi_resource = (fst resource, snd (snd resource))\<rparr>, s))"

definition ForResource ::
    "gvr \<Rightarrow> ('w, 'o, 'i, 'd) factory \<times> 'ch informer_world \<Rightarrow>
     ('w, 'i) generic_informer go \<times> ('w, 'o, 'i, 'd) factory \<times> 'ch informer_world" where
  "ForResource resource s =
     (if resource = WithResource ''oenumas''
      then generic resource (oenuma_Informer (version_Oenumas (group_V1alpha1 (factory_Resource (fst s)))) s)
      else if resource = WithResource ''whitelists''
      then generic resource (whitelist_Informer (version_Whitelists (group_V1alpha1 (factory_Resource (fst s)))) s)
      else (Err (''no informer found for '' @ gvr_text resource), s))"

end
