(* ===== verification/InformerProps.thy ===== *)
theory InformerProps
  imports Informers
begin

text \<open>
  What the informer factory promises: one informer per type, shared by all who ask, run at most
  once, and confined to the namespace and the options of the factory.
\<close>

section \<open>Runs of a factory\<close>

text \<open>
  Any calls of the methods, in any order, and what other factories of the process do in between:
  they make informers and run informers of their own.
\<close>

definition starts :: "'ch informer_world \<Rightarrow> nat \<Rightarrow> 'ch list" where
  "starts iw n = map snd (filter (\<lambda>(m, _). m = n) (iw_running iw))"

definition own_ids :: "('w, 'o, 'i, 'd) factory \<Rightarrow> nat set" where
  "own_ids fc = si_id ` snd ` set (fc_informers fc)"

inductive factory_step ::
    "('w, 'o, 'i, 'd) factory \<times> 'ch informer_world \<Rightarrow> ('w, 'o, 'i, 'd) factory \<times> 'ch informer_world \<Rightarrow> bool"
where
  oenumas: "oenuma_Informer (version_Oenumas (group_V1alpha1 (factory_Resource (fst s)))) s = (i, s') \<Longrightarrow>
    factory_step s s'"
| whitelists: "whitelist_Informer (version_Whitelists (group_V1alpha1 (factory_Resource (fst s)))) s = (i, s') \<Longrightarrow>
    factory_step s s'"
| resource: "ForResource g s = (r, s') \<Longrightarrow> factory_step s s'"
| start: "range_order order \<Longrightarrow> factory_step s (factory_Start order ch s)"
| others: "iw_next iw \<le> iw_next iw' \<Longrightarrow> iw_running iw' = iw_running iw @ extra \<Longrightarrow>
    \<forall>(n, ch) \<in> set extra. n \<notin> own_ids fc \<and> n < iw_next iw' \<Longrightarrow> factory_step (fc, iw) (fc, iw')"

inductive factory_runs ::
    "('w, 'o, 'i, 'd) factory \<times> 'ch informer_world \<Rightarrow> ('w, 'o, 'i, 'd) factory \<times> 'ch informer_world \<Rightarrow> bool"
where
  refl: "factory_runs s s"
| step: "factory_runs s t \<Longrightarrow> factory_step t u \<Longrightarrow> factory_runs s u"

lemma factory_runs_trans: "factory_runs t u \<Longrightarrow> factory_runs s t \<Longrightarrow> factory_runs s u"
  by (induction rule: factory_runs.induct) (auto intro: factory_runs.step)

section \<open>The invariant\<close>

definition resync_for :: "('w, 'o, 'i, 'd) factory \<Rightarrow> go_type \<Rightarrow> int" where
  "resync_for fc t = (case map_of (fc_customResync fc) t of None \<Rightarrow> fc_defaultResync fc | Some p \<Rightarrow> p)"

text \<open>The informer a factory makes for a type when the next number is \<open>n\<close>.\<close>

definition makes :: "('w, 'o, 'i, 'd) factory \<Rightarrow> go_type \<Rightarrow> ('w, 'i) shared_informer \<Rightarrow> bool" where
  "makes fc t i \<longleftrightarrow>
     (let n = \<lparr>iw_next = si_id i, iw_running = ([] :: (nat \<times> unit) list)\<rparr>
      in t = OenumaType \<and> i = fst (oenuma_defaultInformer (factory_Resource fc) (fc_client fc) (resync_for fc t) n)
       \<or> t = WhitelistType \<and> i = fst (whitelist_defaultInformer (factory_Resource fc) (fc_client fc) (resync_for fc t) n))"

definition same_settings :: "('w, 'o, 'i, 'd) factory \<Rightarrow> ('w, 'o, 'i, 'd) factory \<Rightarrow> bool" where
  "same_settings fc0 fc \<longleftrightarrow> fc_client fc = fc_client fc0 \<and> fc_namespace fc = fc_namespace fc0
     \<and> fc_tweak fc = fc_tweak fc0 \<and> fc_defaultResync fc = fc_defaultResync fc0
     \<and> fc_customResync fc = fc_customResync fc0"

definition informer_inv :: "('w, 'o, 'i, 'd) factory \<Rightarrow> 'ch informer_world \<Rightarrow> go_type \<Rightarrow> ('w, 'i) shared_informer \<Rightarrow> bool" where
  "informer_inv fc iw t i \<longleftrightarrow> si_id i < iw_next iw \<and> makes fc t i
     \<and> length (starts iw (si_id i)) = (if is_started fc t then 1 else 0)"

definition factory_inv :: "('w, 'o, 'i, 'd) factory \<times> 'ch informer_world \<Rightarrow> bool" where
  "factory_inv s \<longleftrightarrow>
     distinct (map fst (fc_informers (fst s)))
   \<and> (\<forall>t i. map_of (fc_informers (fst s)) t = Some i \<longrightarrow> informer_inv (fst s) (snd s) t i)
   \<and> (\<forall>t. is_started (fst s) t \<longrightarrow> map_of (fc_informers (fst s)) t \<noteq> None)
   \<and> (\<forall>t t' i i'. map_of (fc_informers (fst s)) t = Some i \<longrightarrow> map_of (fc_informers (fst s)) t' = Some i' \<longrightarrow>
        si_id i = si_id i' \<longrightarrow> t = t')
   \<and> (\<forall>(n, ch) \<in> set (iw_running (snd s)). n < iw_next (snd s))"

text \<open>What a step keeps: the settings, and every informer that is there.\<close>

definition factory_grows ::
    "('w, 'o, 'i, 'd) factory \<times> 'ch informer_world \<Rightarrow> ('w, 'o, 'i, 'd) factory \<times> 'ch informer_world \<Rightarrow> bool" where
  "factory_grows s s' \<longleftrightarrow> same_settings (fst s) (fst s')
     \<and> (\<forall>t i. map_of (fc_informers (fst s)) t = Some i \<longrightarrow> map_of (fc_informers (fst s')) t = Some i)"

lemma factory_grows_refl: "factory_grows s s"
  by (simp add: factory_grows_def same_settings_def)

lemma factory_grows_trans: "factory_grows s t \<Longrightarrow> factory_grows t u \<Longrightarrow> factory_grows s u"
  by (auto simp: factory_grows_def same_settings_def)

lemma resync_for_settings: "same_settings fc0 fc \<Longrightarrow> resync_for fc t = resync_for fc0 t"
  by (simp add: same_settings_def resync_for_def split: option.split)

lemma makes_settings: "same_settings fc0 fc \<Longrightarrow> makes fc = makes fc0"
  by (rule ext)+ (simp add: makes_def resync_for_settings, simp add: same_settings_def factory_Resource_def)

lemma starts_none:
  assumes "\<forall>(n, ch) \<in> set (iw_running iw). n < k"
  shows "starts iw k = []"
  using assms by (auto simp: starts_def filter_empty_conv)

lemma inv_informer:
  "factory_inv s \<Longrightarrow> map_of (fc_informers (fst s)) t = Some i \<Longrightarrow> informer_inv (fst s) (snd s) t i"
  by (simp only: factory_inv_def)

lemma inv_ids:
  "factory_inv s \<Longrightarrow> map_of (fc_informers (fst s)) t = Some i \<Longrightarrow>
   map_of (fc_informers (fst s)) t' = Some i' \<Longrightarrow> si_id i = si_id i' \<Longrightarrow> t = t'"
  unfolding factory_inv_def by blast

text \<open>A new informer in the map.\<close>

lemma inv_new_informer:
  assumes inv: "factory_inv (fc, iw)" and new: "map_of (fc_informers fc) t = None"
    and i: "si_id i = iw_next iw" "makes fc t i"
  shows "factory_inv (fc\<lparr>fc_informers := AList.update t i (fc_informers fc)\<rparr>, iw\<lparr>iw_next := iw_next iw + 1\<rparr>)"
    and "factory_grows (fc, iw) (fc\<lparr>fc_informers := AList.update t i (fc_informers fc)\<rparr>, iw\<lparr>iw_next := iw_next iw + 1\<rparr>)"
proof -
  let ?fc = "fc\<lparr>fc_informers := AList.update t i (fc_informers fc)\<rparr>"
  let ?iw = "iw\<lparr>iw_next := iw_next iw + 1\<rparr>"
  have m: "map_of (fc_informers ?fc) = (map_of (fc_informers fc))(t \<mapsto> i)"
    by (simp add: update_conv')
  have settings: "same_settings fc ?fc" by (simp add: same_settings_def)
  have ns: "\<not> is_started fc t" using inv new by (auto simp: factory_inv_def)
  have old: "informer_inv ?fc ?iw u j" if "map_of (fc_informers fc) u = Some j" for u j
  proof -
    have "informer_inv fc iw u j" using inv that by (simp add: factory_inv_def)
    then show ?thesis
      by (simp add: informer_inv_def is_started_def starts_def makes_settings [OF settings] less_SucI)
  qed
  have "starts ?iw (si_id i) = []"
    using starts_none [of iw "iw_next iw"] inv i(1) by (auto simp: factory_inv_def starts_def)
  then have this_one: "informer_inv ?fc ?iw t i"
    using i ns by (simp add: informer_inv_def makes_settings [OF settings] is_started_def)
  have less: "si_id j < iw_next iw" if "map_of (fc_informers fc) u = Some j" for u j
    using inv that by (auto simp: factory_inv_def informer_inv_def)
  show "factory_inv (?fc, ?iw)"
    unfolding factory_inv_def fst_conv snd_conv m
  proof (intro conjI allI impI)
    show "distinct (map fst (fc_informers ?fc))"
      using inv by (simp add: factory_inv_def distinct_update)
    show "informer_inv ?fc ?iw u j" if "((map_of (fc_informers fc))(t \<mapsto> i)) u = Some j" for u j
      using that old this_one by (auto split: if_splits)
    show "((map_of (fc_informers fc))(t \<mapsto> i)) u \<noteq> None" if "is_started ?fc u" for u
      using that inv by (auto simp: factory_inv_def is_started_def)
    show "u = v" if "((map_of (fc_informers fc))(t \<mapsto> i)) u = Some j"
      "((map_of (fc_informers fc))(t \<mapsto> i)) v = Some j'" "si_id j = si_id j'" for u v j j'
    proof -
      have "u = v" if "map_of (fc_informers fc) u = Some j" "map_of (fc_informers fc) v = Some j'"
        using that inv \<open>si_id j = si_id j'\<close> unfolding factory_inv_def fst_conv by blast
      then show ?thesis
        using that less [of u j] less [of v j'] i(1) by (simp split: if_split_asm)
    qed
    show "\<forall>(n, ch) \<in> set (iw_running ?iw). n < iw_next ?iw"
      using inv by (auto simp: factory_inv_def)
  qed
  show "factory_grows (fc, iw) (?fc, ?iw)"
    using settings new unfolding factory_grows_def fst_conv m by auto
qed

text \<open>Asking for an informer, by a constructor of the library.\<close>

lemma InformerFor_inv:
  assumes inv: "factory_inv s" and r: "InformerFor t newFunc s = (i, s')"
    and new: "\<And>iw'. newFunc (fc_client (fst s)) (resync_for (fst s) t) iw'
        = (\<lparr>si_id = iw_next iw', si_listWatch = lw, si_object = obj, si_resync = period, si_indexers = ix\<rparr>,
           iw'\<lparr>iw_next := iw_next iw' + 1\<rparr>)"
    and made: "makes (fst s) t \<lparr>si_id = iw_next (snd s), si_listWatch = lw, si_object = obj,
        si_resync = period, si_indexers = ix\<rparr>"
  shows "factory_inv s'" and "factory_grows s s'" and "map_of (fc_informers (fst s')) t = Some i"
proof -
  obtain fc iw where s: "s = (fc, iw)" by fastforce
  have "factory_inv s' \<and> factory_grows s s' \<and> map_of (fc_informers (fst s')) t = Some i"
  proof (cases "map_of (fc_informers fc) t")
    case None
    have i: "i = \<lparr>si_id = iw_next iw, si_listWatch = lw, si_object = obj, si_resync = period, si_indexers = ix\<rparr>"
      and s': "s' = (fc\<lparr>fc_informers := AList.update t i (fc_informers fc)\<rparr>, iw\<lparr>iw_next := iw_next iw + 1\<rparr>)"
      using r new None by (auto simp: InformerFor_def s resync_for_def)
    then show ?thesis
      using inv_new_informer [of fc iw t i] inv None made by (simp add: s update_conv')
  next
    case (Some j)
    then show ?thesis using r inv by (auto simp: InformerFor_def s factory_grows_refl)
  qed
  then show "factory_inv s'" "factory_grows s s'" "map_of (fc_informers (fst s')) t = Some i" by blast+
qed

lemmas informer_structs = version_Oenumas_def version_Whitelists_def group_V1alpha1_def
  factory_Resource_def

lemma oenuma_Informer_inv:
  assumes "factory_inv s"
    and "oenuma_Informer (version_Oenumas (group_V1alpha1 (factory_Resource (fst s)))) s = (i, s')"
  shows "factory_inv s'" and "factory_grows s s'" and "map_of (fc_informers (fst s')) OenumaType = Some i"
  using InformerFor_inv [OF assms(1) assms(2) [unfolded oenuma_Informer_def]]
  by (simp_all add: oenuma_defaultInformer_def NewFilteredOenumaInformer_def NewSharedIndexInformer_def
      makes_def informer_structs)

lemma whitelist_Informer_inv:
  assumes "factory_inv s"
    and "whitelist_Informer (version_Whitelists (group_V1alpha1 (factory_Resource (fst s)))) s = (i, s')"
  shows "factory_inv s'" and "factory_grows s s'" and "map_of (fc_informers (fst s')) WhitelistType = Some i"
  using InformerFor_inv [OF assms(1) assms(2) [unfolded whitelist_Informer_def]]
  by (simp_all add: whitelist_defaultInformer_def NewFilteredWhitelistInformer_def NewSharedIndexInformer_def
      makes_def informer_structs)

lemma ForResource_inv:
  assumes "factory_inv s" and "ForResource g s = (r, s')"
  shows "factory_inv s'" and "factory_grows s s'"
  using assms oenuma_Informer_inv [OF assms(1)] whitelist_Informer_inv [OF assms(1)]
  by (auto simp: ForResource_def generic_def factory_grows_refl split: if_splits prod.splits)

lemma starts_append:
  "starts (iw\<lparr>iw_running := iw_running iw @ [(n, c)]\<rparr>) m = starts iw m @ (if n = m then [c] else [])"
  by (simp add: starts_def)

text \<open>Starting one informer of the map, and then all.\<close>

lemma start_one_inv:
  assumes inv: "factory_inv s" and t: "map_of (fc_informers (fst s)) t = Some i"
  shows "factory_inv (start_one ch (t, i) s)"
    and "same_settings (fst s) (fst (start_one ch (t, i) s))"
    and "fc_informers (fst (start_one ch (t, i) s)) = fc_informers (fst s)"
    and "is_started (fst (start_one ch (t, i) s)) u \<longleftrightarrow> is_started (fst s) u \<or> u = t"
    and "map_of (fc_informers (fst s)) u = Some j \<Longrightarrow>
      starts (snd (start_one ch (t, i) s)) (si_id j) =
        (if u = t \<and> \<not> is_started (fst s) u then [ch] else starts (snd s) (si_id j))"
proof -
  obtain fc iw where s: "s = (fc, iw)" by fastforce
  have id: "si_id j = si_id i \<longleftrightarrow> u = t" if "map_of (fc_informers fc) u = Some j" for u j
    using inv_ids [OF inv, of u j t i] that t by (auto simp: s)
  have none: "starts iw (si_id i) = []" if "\<not> is_started fc t"
    using that inv_informer [OF inv t] by (simp add: s informer_inv_def)
  show settings: "same_settings (fst s) (fst (start_one ch (t, i) s))"
    and informers: "fc_informers (fst (start_one ch (t, i) s)) = fc_informers (fst s)"
    and st: "is_started (fst (start_one ch (t, i) s)) u \<longleftrightarrow> is_started (fst s) u \<or> u = t" for u
    by (auto simp: start_one_def s same_settings_def is_started_def update_conv')
  show "starts (snd (start_one ch (t, i) s)) (si_id j) =
      (if u = t \<and> \<not> is_started (fst s) u then [ch] else starts (snd s) (si_id j))"
    if "map_of (fc_informers (fst s)) u = Some j" for u j
  proof (cases "is_started fc t")
    case True
    then show ?thesis by (auto simp: start_one_def s)
  next
    case False
    then have "starts (snd (start_one ch (t, i) s)) (si_id j) =
        starts iw (si_id j) @ (if si_id i = si_id j then [ch] else [])"
      by (simp add: start_one_def s starts_append)
    moreover have eq: "si_id i = si_id j \<longleftrightarrow> u = t"
      unfolding eq_commute [of "si_id i"] by (rule id) (use that in \<open>simp add: s\<close>)
    moreover have "starts iw (si_id j) = []" if "u = t"
      using none [OF False] eq that by simp
    ultimately show ?thesis using False by (simp add: s)
  qed
  note starts = this
  have next_id: "iw_next (snd (start_one ch (t, i) s)) = iw_next iw"
    by (simp add: start_one_def s)
  have "\<forall>(n, c) \<in> set (iw_running (snd (start_one ch (t, i) s))). n < iw_next iw"
  proof -
    have "si_id i < iw_next iw" using inv_informer [OF inv t] by (simp add: s informer_inv_def)
    moreover have "\<forall>(n, c) \<in> set (iw_running iw). n < iw_next iw"
      using inv unfolding s factory_inv_def snd_conv by blast
    ultimately show ?thesis by (auto simp: start_one_def s)
  qed
  moreover have "informer_inv (fst (start_one ch (t, i) s)) (snd (start_one ch (t, i) s)) u j"
    if "map_of (fc_informers fc) u = Some j" for u j
    using that inv_informer [OF inv, of u j] starts [of u j] st [of u] makes_settings [OF settings]
    by (auto simp: informer_inv_def s next_id [unfolded s])
  ultimately show "factory_inv (start_one ch (t, i) s)"
    using inv t unfolding factory_inv_def informers st next_id unfolding s fst_conv snd_conv by blast
qed

lemma start_all_inv:
  assumes "factory_inv s" and "\<forall>(t, i) \<in> set ps. map_of (fc_informers (fst s)) t = Some i"
  shows "factory_inv (fold (start_one ch) ps s)
    \<and> factory_grows s (fold (start_one ch) ps s)
    \<and> fc_informers (fst (fold (start_one ch) ps s)) = fc_informers (fst s)
    \<and> (\<forall>u. is_started (fst (fold (start_one ch) ps s)) u \<longleftrightarrow> is_started (fst s) u \<or> u \<in> fst ` set ps)
    \<and> (\<forall>u j. map_of (fc_informers (fst s)) u = Some j \<longrightarrow>
        starts (snd (fold (start_one ch) ps s)) (si_id j) =
          (if u \<in> fst ` set ps \<and> \<not> is_started (fst s) u then [ch] else starts (snd s) (si_id j)))"
  using assms
proof (induction ps arbitrary: s)
  case Nil
  then show ?case by (simp add: factory_grows_refl)
next
  case (Cons p ps)
  obtain t i where p: "p = (t, i)" by fastforce
  let ?s = "start_one ch (t, i) s"
  have t: "map_of (fc_informers (fst s)) t = Some i" using Cons.prems(2) p by auto
  note one = start_one_inv [OF Cons.prems(1) t]
  have grows: "factory_grows s ?s" using one(2,3) by (simp add: factory_grows_def)
  have "\<forall>(t, i) \<in> set ps. map_of (fc_informers (fst ?s)) t = Some i" using Cons.prems(2) one(3) by auto
  note rest = Cons.IH [OF one(1) this]
  show ?case
    unfolding p fold_simps comp_apply
  proof (intro conjI allI impI)
    show "factory_inv (fold (start_one ch) ps ?s)"
      and "fc_informers (fst (fold (start_one ch) ps ?s)) = fc_informers (fst s)"
      using rest one(3) by simp_all
    show "factory_grows s (fold (start_one ch) ps ?s)"
      using rest factory_grows_trans [OF grows] by blast
    show "is_started (fst (fold (start_one ch) ps ?s)) u \<longleftrightarrow> is_started (fst s) u \<or> u \<in> fst ` set ((t, i) # ps)" for u
      using rest one(4) [of ch u] by auto
    show "starts (snd (fold (start_one ch) ps ?s)) (si_id j) =
          (if u \<in> fst ` set ((t, i) # ps) \<and> \<not> is_started (fst s) u then [ch] else starts (snd s) (si_id j))"
      if "map_of (fc_informers (fst s)) u = Some j" for u j
      using rest that one(3) one(4) [of ch u] one(5) [OF that, of ch] by simp
  qed
qed

lemma Start_inv:
  assumes "factory_inv s" and "range_order order"
  shows "factory_inv (factory_Start order ch s)" and "factory_grows s (factory_Start order ch s)"
    and "is_started (fst (factory_Start order ch s)) t \<longleftrightarrow>
      is_started (fst s) t \<or> map_of (fc_informers (fst s)) t \<noteq> None"
    and "map_of (fc_informers (fst s)) t = Some i \<Longrightarrow>
      starts (snd (factory_Start order ch s)) (si_id i) =
        (if is_started (fst s) t then starts (snd s) (si_id i) else [ch])"
proof -
  have Start: "factory_Start order ch s = fold (start_one ch) (order (fc_informers (fst s))) s"
    by (simp add: factory_Start_def split: prod.split)
  have mem: "set (order (fc_informers (fst s))) = set (fc_informers (fst s))"
    by (rule range_order_set [OF assms(2)])
  have dom: "t \<in> fst ` set (fc_informers (fst s)) \<longleftrightarrow> map_of (fc_informers (fst s)) t \<noteq> None" for t
    by (simp add: map_of_eq_None_iff)
  have "\<forall>(t, i) \<in> set (order (fc_informers (fst s))). map_of (fc_informers (fst s)) t = Some i"
    using assms(1) by (auto simp: mem factory_inv_def)
  note all = start_all_inv [OF assms(1) this, of ch, folded Start, unfolded mem dom]
  show "factory_inv (factory_Start order ch s)" and "factory_grows s (factory_Start order ch s)"
    and "is_started (fst (factory_Start order ch s)) t \<longleftrightarrow>
      is_started (fst s) t \<or> map_of (fc_informers (fst s)) t \<noteq> None"
    using all by blast+
  show "starts (snd (factory_Start order ch s)) (si_id i) =
        (if is_started (fst s) t then starts (snd s) (si_id i) else [ch])"
    if "map_of (fc_informers (fst s)) t = Some i" for t i
    using all that by auto
qed

lemma others_inv:
  assumes inv: "factory_inv (fc, iw)" and "iw_next iw \<le> iw_next iw'"
    and "iw_running iw' = iw_running iw @ extra"
    and "\<forall>(n, ch) \<in> set extra. n \<notin> own_ids fc \<and> n < iw_next iw'"
  shows "factory_inv (fc, iw')" and "map_of (fc_informers fc) t = Some i \<Longrightarrow> starts iw' (si_id i) = starts iw (si_id i)"
proof -
  have own: "si_id i \<in> own_ids fc" if "map_of (fc_informers fc) t = Some i" for t i
    using map_of_SomeD [OF that] by (force simp: own_ids_def)
  show same: "starts iw' (si_id i) = starts iw (si_id i)" if "map_of (fc_informers fc) t = Some i" for t i
    using own [OF that] assms(3,4) by (auto simp: starts_def filter_empty_conv)
  have "informer_inv fc iw' t i" if "map_of (fc_informers fc) t = Some i" for t i
    using inv_informer [OF inv, of t i] that same [OF that] assms(2) by (simp add: informer_inv_def)
  moreover have "\<forall>(n, ch) \<in> set (iw_running iw'). n < iw_next iw'"
    using inv assms(2-4) by (fastforce simp: factory_inv_def)
  ultimately show "factory_inv (fc, iw')" using inv unfolding factory_inv_def fst_conv snd_conv by blast
qed

lemma factory_step_inv:
  "factory_step s s' \<Longrightarrow> factory_inv s \<Longrightarrow> factory_inv s' \<and> factory_grows s s'"
proof (induction rule: factory_step.induct)
  case (others iw iw' extra fc)
  then show ?case
    using others_inv(1) by (simp add: factory_grows_def same_settings_def)
next
  case (oenumas s i s')
  then show ?case using oenuma_Informer_inv(1,2) by blast
next
  case (whitelists s i s')
  then show ?case using whitelist_Informer_inv(1,2) by blast
next
  case (resource g s r s')
  then show ?case using ForResource_inv by blast
next
  case (start order s ch)
  show ?case using Start_inv(1,2) [OF start(2,1)] by (rule conjI)
qed

lemma factory_runs_inv:
  "factory_runs s s' \<Longrightarrow> factory_inv s \<Longrightarrow> factory_inv s' \<and> factory_grows s s'"
proof (induction rule: factory_runs.induct)
  case (refl s)
  then show ?case by (simp only: factory_grows_refl)
next
  case (step s t u)
  then show ?case using factory_step_inv [of t u] factory_grows_trans [of s t u] by blast
qed

section \<open>A new factory\<close>

text \<open>What the options of a factory amount to: the last of a kind wins.\<close>

definition option_namespace :: "factory_option list \<Rightarrow> string" where
  "option_namespace options =
     last ([] # List.map_filter (\<lambda>opt. case opt of NamespaceOption ns \<Rightarrow> Some ns | _ \<Rightarrow> None) options)"

definition option_tweak :: "factory_option list \<Rightarrow> tweak" where
  "option_tweak options =
     last (None # List.map_filter (\<lambda>opt. case opt of TweakListOptions tw \<Rightarrow> Some tw | _ \<Rightarrow> None) options)"

definition option_resync :: "factory_option list \<Rightarrow> int \<Rightarrow> go_type \<Rightarrow> int" where
  "option_resync options period t =
     (case map_of (rev (concat (List.map_filter
        (\<lambda>opt. case opt of CustomResync cfg \<Rightarrow> Some cfg | _ \<Rightarrow> None) options))) t of
        None \<Rightarrow> period | Some p \<Rightarrow> p)"

lemma fold_update_map_of:
  "map_of (fold (\<lambda>(k, v). AList.update k v) cfg m) = map_of m ++ map_of (rev cfg)"
proof (induction cfg arbitrary: m)
  case (Cons p cfg)
  then show ?case by (cases p) (simp add: update_conv' map_add_def fun_eq_iff split: option.splits)
qed simp

lemma apply_options:
  "fc_client (fold apply_option options fc) = fc_client fc
   \<and> fc_informers (fold apply_option options fc) = fc_informers fc
   \<and> fc_started (fold apply_option options fc) = fc_started fc
   \<and> fc_defaultResync (fold apply_option options fc) = fc_defaultResync fc
   \<and> fc_namespace (fold apply_option options fc) = last (fc_namespace fc #
        List.map_filter (\<lambda>opt. case opt of NamespaceOption ns \<Rightarrow> Some ns | _ \<Rightarrow> None) options)
   \<and> fc_tweak (fold apply_option options fc) = last (fc_tweak fc #
        List.map_filter (\<lambda>opt. case opt of TweakListOptions tw \<Rightarrow> Some tw | _ \<Rightarrow> None) options)
   \<and> map_of (fc_customResync (fold apply_option options fc)) = map_of (fc_customResync fc) ++
        map_of (rev (concat (List.map_filter
          (\<lambda>opt. case opt of CustomResync cfg \<Rightarrow> Some cfg | _ \<Rightarrow> None) options)))"
proof (induction options arbitrary: fc)
  case (Cons opt options)
  show ?case
    using Cons.IH [of "apply_option opt fc"]
    by (cases opt)
      (simp_all add: WithCustomResyncConfig_def WithTweakListOptions_def WithNamespace_def
        fold_update_map_of List.map_filter_simps del: last.simps, simp_all add: List.map_filter_simps)
qed (simp add: List.map_filter_simps)

definition fresh_world :: "'ch informer_world \<Rightarrow> bool" where
  "fresh_world iw \<longleftrightarrow> (\<forall>(n, ch) \<in> set (iw_running iw). n < iw_next iw)"

lemma new_factory:
  fixes fc :: "('w, 'o, 'i, 'd) factory"
  assumes "fc = NewSharedInformerFactoryWithOptions client resync options"
  shows "fc_client fc = client" and "fc_informers fc = []" and "fc_started fc = []"
    and "fc_namespace fc = option_namespace options" and "fc_tweak fc = option_tweak options"
    and "resync_for fc t = option_resync options resync t"
    and "fresh_world iw \<Longrightarrow> factory_inv (fc, iw)"
proof -
  note all = apply_options [of options "\<lparr>fc_client = client, fc_namespace = [], fc_tweak = None,
      fc_defaultResync = resync, fc_customResync = [], fc_informers = [], fc_started = []\<rparr>
      :: ('w, 'o, 'i, 'd) factory", folded NewSharedInformerFactoryWithOptions_def, folded assms]
  show "fc_client fc = client" "fc_namespace fc = option_namespace options"
    "fc_tweak fc = option_tweak options" and empty: "fc_informers fc = []" "fc_started fc = []"
    using all by (auto simp: option_namespace_def option_tweak_def)
  show "resync_for fc t = option_resync options resync t"
    using all by (auto simp: resync_for_def option_resync_def split: option.splits)
  show "fresh_world iw \<Longrightarrow> factory_inv (fc, iw)"
    by (simp add: factory_inv_def empty is_started_def fresh_world_def)
qed

section \<open>Properties of the factory\<close>

text \<open>
  An informer of a factory stays the informer of its type, whatever is called after; it runs
  in exactly one goroutine once it has been started, and in none before; and another start runs
  the informers that were not running, each once on its channel, and no others.
\<close>

theorem factory_runs_each_once:
  assumes "fresh_world iw"
    and "factory_runs (NewSharedInformerFactoryWithOptions client resync options, iw) s"
    and "factory_runs s s'" and "map_of (fc_informers (fst s)) t = Some i" and "range_order order"
  shows "map_of (fc_informers (fst s')) t = Some i
    \<and> length (starts (snd s') (si_id i)) = (if is_started (fst s') t then 1 else 0)
    \<and> starts (snd (factory_Start order ch s')) (si_id i) =
        (if is_started (fst s') t then starts (snd s') (si_id i) else [ch])"
proof -
  have "factory_inv s"
    using factory_runs_inv [OF assms(2) new_factory(7) [OF HOL.refl assms(1)]] by blast
  then have s': "factory_inv s'" "factory_grows s s'" using factory_runs_inv [OF assms(3)] by blast+
  then have i: "map_of (fc_informers (fst s')) t = Some i"
    using assms(4) unfolding factory_grows_def by blast
  then show ?thesis
    using inv_informer [OF s'(1) i] Start_inv(4) [OF s'(1) assms(5) i] unfolding informer_inv_def by blast
qed

text \<open>The requests of a list and of a watch of a resource.\<close>

definition list_request :: "string \<Rightarrow> string \<Rightarrow> list_options \<Rightarrow> 'o rest_request" where
  "list_request ns resource opts = (GetVerb,
     [Namespace ns, Resource resource, VersionedParams (ListParams opts), Timeout (list_timeout opts)])"

definition watch_request :: "string \<Rightarrow> string \<Rightarrow> list_options \<Rightarrow> 'o rest_request" where
  "watch_request ns resource opts = list_request ns resource (opts\<lparr>lo_watch := True\<rparr>)"

lemma oenuma_listWatch:
  assumes "RESTClient (cs_resourceV1alpha1 cs) = Some rc"
  shows "lw_ListFunc (si_listWatch (fst (oenuma_defaultInformer f (Some cs) period n))) opts w =
      Ok (case rc_oenuma_list rc (list_request (ri_namespace f) ''oenumas'' (tweaked (ri_tweak f) opts))
        empty_oenuma_list w of (w', l, e) \<Rightarrow> (w', OenumaItems l, e))"
    and "lw_WatchFunc (si_listWatch (fst (oenuma_defaultInformer f (Some cs) period n))) opts w =
      Ok (rc_watch rc (watch_request (ri_namespace f) ''oenumas'' (tweaked (ri_tweak f) opts)) w)"
    and "si_resync (fst (oenuma_defaultInformer f (Some cs) period n)) = period"
  by (simp_all add: oenuma_defaultInformer_def NewFilteredOenumaInformer_def NewSharedIndexInformer_def
      ResourceV1alpha1_def oenumas_List_def oenumas_Watch_def client_Oenumas_def newOenumas_def
      through_def assms list_request_def watch_request_def list_timeout_def)

lemma whitelist_listWatch:
  assumes "RESTClient (cs_resourceV1alpha1 cs) = Some rc"
  shows "lw_ListFunc (si_listWatch (fst (whitelist_defaultInformer f (Some cs) period n))) opts w =
      Ok (case rc_whitelist_list rc (list_request (ri_namespace f) ''whitelists'' (tweaked (ri_tweak f) opts))
        empty_whitelist_list w of (w', l, e) \<Rightarrow> (w', WhitelistItems l, e))"
    and "lw_WatchFunc (si_listWatch (fst (whitelist_defaultInformer f (Some cs) period n))) opts w =
      Ok (rc_watch rc (watch_request (ri_namespace f) ''whitelists'' (tweaked (ri_tweak f) opts)) w)"
    and "si_resync (fst (whitelist_defaultInformer f (Some cs) period n)) = period"
  by (simp_all add: whitelist_defaultInformer_def NewFilteredWhitelistInformer_def NewSharedIndexInformer_def
      ResourceV1alpha1_def whitelists_List_def whitelists_Watch_def client_Whitelists_def newWhitelists_def
      through_def assms list_request_def watch_request_def list_timeout_def)

text \<open>
  The informers that a factory hands out list and watch their own resource, in the namespace
  and with the tweak of the factory's options, the last of each kind, and have the resync period
  configured for their type, whatever was asked of the factory before; a watch asks for a watch.
\<close>

theorem informers_scoped:
  fixes rc :: "('w, 'o, 'i) rest_client" and cs :: "('w, 'o, 'i, 'd) clientset"
  assumes "fresh_world iw"
    and "factory_runs (NewSharedInformerFactoryWithOptions (Some cs) resync options, iw) s"
    and "RESTClient (cs_resourceV1alpha1 cs) = Some rc"
    and "oenuma_Informer (version_Oenumas (group_V1alpha1 (factory_Resource (fst s)))) s = (i, s1)"
    and "whitelist_Informer (version_Whitelists (group_V1alpha1 (factory_Resource (fst s)))) s = (j, s2)"
  shows "let ns = option_namespace options; lo = tweaked (option_tweak options) opts in
    lw_ListFunc (si_listWatch i) opts w = Ok (case rc_oenuma_list rc (list_request ns ''oenumas'' lo)
      empty_oenuma_list w of (w', l, e) \<Rightarrow> (w', OenumaItems l, e))
    \<and> lw_ListFunc (si_listWatch j) opts w = Ok (case rc_whitelist_list rc (list_request ns ''whitelists'' lo)
      empty_whitelist_list w of (w', l, e) \<Rightarrow> (w', WhitelistItems l, e))
    \<and> lw_WatchFunc (si_listWatch i) opts w = Ok (rc_watch rc (watch_request ns ''oenumas'' lo) w)
    \<and> lw_WatchFunc (si_listWatch j) opts w = Ok (rc_watch rc (watch_request ns ''whitelists'' lo) w)
    \<and> si_resync i = option_resync options resync OenumaType
    \<and> si_resync j = option_resync options resync WhitelistType"
proof -
  let ?fc = "NewSharedInformerFactoryWithOptions (Some cs) resync options :: ('w, 'o, 'i, 'd) factory"
  note new = new_factory [OF HOL.refl, where client = "Some cs" and resync = resync and options = options]
  have s: "factory_inv s" "factory_grows (?fc, iw) s"
    using factory_runs_inv [OF assms(2) new(7) [OF assms(1)]] by blast+
  have makes: "makes (fst s1) OenumaType i" "makes (fst s2) WhitelistType j"
    and "factory_grows s s1" "factory_grows s s2"
    using oenuma_Informer_inv [OF s(1) assms(4)] whitelist_Informer_inv [OF s(1) assms(5)]
    by (auto dest: inv_informer simp: informer_inv_def)
  then have settings: "same_settings ?fc (fst s1)" "same_settings ?fc (fst s2)"
    using s(2) by (auto dest: factory_grows_trans simp: factory_grows_def same_settings_def)
  have "makes ?fc OenumaType i" "makes ?fc WhitelistType j"
    using makes makes_settings [OF settings(1)] makes_settings [OF settings(2)] by simp_all
  then have i: "i = fst (oenuma_defaultInformer (factory_Resource ?fc) (Some cs)
        (option_resync options resync OenumaType) \<lparr>iw_next = si_id i, iw_running = ([] :: (nat \<times> unit) list)\<rparr>)"
    and j: "j = fst (whitelist_defaultInformer (factory_Resource ?fc) (Some cs)
        (option_resync options resync WhitelistType) \<lparr>iw_next = si_id j, iw_running = ([] :: (nat \<times> unit) list)\<rparr>)"
    by (simp_all only: makes_def Let_def new(1,6) go_type.distinct simp_thms)
  note o = oenuma_listWatch [OF assms(3), where f = "factory_Resource ?fc"]
    and wl = whitelist_listWatch [OF assms(3), where f = "factory_Resource ?fc"]
  have f: "ri_namespace (factory_Resource ?fc) = option_namespace options"
    "ri_tweak (factory_Resource ?fc) = option_tweak options"
    by (simp_all add: factory_Resource_def new(4,5))
  show ?thesis
    unfolding Let_def by (subst (1 2 3) i, subst (1 2 3) j) (simp only: o wl f simp_thms)
qed

section \<open>A concrete factory\<close>

text \<open>An API server without resources, and a clientset that reaches it.\<close>

definition ex_rest :: "(nat, unit, unit) rest_client" where
  "ex_rest = \<lparr>rc_oenuma = (\<lambda>q x w. (w + 1, x, None)), rc_oenuma_list = (\<lambda>q x w. (w + 1, x, None)),
     rc_whitelist = (\<lambda>q x w. (w + 1, x, None)), rc_whitelist_list = (\<lambda>q x w. (w + 1, x, None)),
     rc_error = (\<lambda>q w. (w + 1, None)), rc_watch = (\<lambda>q w. (w + 1, Some (), None))\<rparr>"

definition ex_clientset :: "(nat, unit, unit, unit) clientset" where
  "ex_clientset = \<lparr>cs_discovery = (), cs_resourceV1alpha1 = Some \<lparr>gc_restClient = Some ex_rest\<rparr>\<rparr>"

definition ex_options :: "factory_option list" where
  "ex_options = [NamespaceOption ''default'', CustomResync [(WhitelistType, 60)], NamespaceOption ''kube-system'']"

definition ex_world :: "string informer_world" where
  "ex_world = \<lparr>iw_next = 5, iw_running = [(3, ''other'')]\<rparr>"

abbreviation ex_factory :: "(nat, unit, unit, unit) factory \<times> string informer_world" where
  "ex_factory \<equiv> (NewSharedInformerFactoryWithOptions (Some ex_clientset) 30 ex_options, ex_world)"

definition ex_asked :: "(nat, unit) shared_informer \<times> (nat, unit, unit, unit) factory \<times> string informer_world" where
  "ex_asked = oenuma_Informer (version_Oenumas (group_V1alpha1 (factory_Resource (fst ex_factory)))) ex_factory"

lemma ex_fresh: "fresh_world ex_world"
  by (simp add: fresh_world_def ex_world_def)

lemma ex_asked_runs: "factory_runs ex_factory (snd ex_asked)"
proof -
  have "factory_step ex_factory (snd ex_asked)"
    by (rule factory_step.oenumas [where i = "fst ex_asked"]) (simp add: ex_asked_def)
  then show ?thesis by (rule factory_runs.step [OF factory_runs.refl])
qed

lemma ex_asked_informer:
  "map_of (fc_informers (fst (snd ex_asked))) OenumaType = Some (fst ex_asked)"
proof -
  have "factory_inv ex_factory" by (rule new_factory(7) [OF HOL.refl ex_fresh])
  from oenuma_Informer_inv(3) [OF this, of "fst ex_asked" "snd ex_asked"] show ?thesis
    by (simp add: ex_asked_def)
qed

theorem factory_runs_each_once_witness:
  "starts (snd (factory_Start rev ''stop'' (factory_Start id ''go'' (snd ex_asked)))) (si_id (fst ex_asked))
     = [''go'']"
proof -
  let ?s = "factory_Start id ''go'' (snd ex_asked)"
  have "factory_runs (snd ex_asked) ?s"
    by (rule factory_runs.step [OF factory_runs.refl factory_step.start]) simp
  note once = factory_runs_each_once [OF ex_fresh ex_asked_runs _ ex_asked_informer]
  have "\<not> is_started (fst (snd ex_asked)) OenumaType" by code_simp
  then have "starts (snd ?s) (si_id (fst ex_asked)) = [''go'']"
    using once [OF factory_runs.refl, of id "''go''"] by simp
  moreover have "is_started (fst ?s) OenumaType" by code_simp
  ultimately show ?thesis
    using once [OF \<open>factory_runs (snd ex_asked) ?s\<close>, of rev "''stop''"] by simp
qed

theorem informers_scoped_witness:
  "lw_WatchFunc (si_listWatch (fst ex_asked)) \<lparr>lo_labelSelector = [], lo_fieldSelector = [],
     lo_resourceVersion = [], lo_watch = False, lo_timeoutSeconds = Some 10\<rparr> 0 = Ok (1, Some (), None)
   \<and> si_resync (fst ex_asked) = 30"
proof -
  have "RESTClient (cs_resourceV1alpha1 ex_clientset) = Some ex_rest"
    by (simp add: RESTClient_def ex_clientset_def)
  note scoped = informers_scoped [OF ex_fresh factory_runs.refl this, of _ _ "fst ex_asked" "snd ex_asked"]
  show ?thesis
    using scoped [where j = "fst (whitelist_Informer (version_Whitelists (group_V1alpha1 (factory_Resource
        (fst ex_factory)))) ex_factory)" and ?s2.0 = "snd (whitelist_Informer (version_Whitelists
        (group_V1alpha1 (factory_Resource (fst ex_factory)))) ex_factory)" and resync = 30 and options = ex_options]
    by (simp add: ex_asked_def Let_def ex_rest_def option_resync_def ex_options_def List.map_filter_simps)
qed

end
