(* ===== verification/ClientProps.thy ===== *)
theory ClientProps
  imports TypedClients
begin

text \<open>
  Properties of the generated clients: the timeout of a request, and the two ways to make a
  clientset from a configuration.
\<close>

section \<open>Timeouts\<close>

lemma sint_word_of_int64: "sint (word_of_int x :: 64 word) = x \<longleftrightarrow> - (2 ^ 63) \<le> x \<and> x < 2 ^ 63"
proof -
  have "sint (word_of_int x :: 64 word) = signed_take_bit 63 x"
    by (simp add: signed_of_int)
  then show ?thesis by (simp add: signed_take_bit_int_eq_self_iff)
qed

text \<open>
  A list, watch or delete request carries the timeout of its options in nanoseconds, exactly
  as long as that fits 63 bits, which is up to 9223372036 seconds; beyond, the product wraps
  around.
\<close>

theorem list_timeout_exact:
  "sint (list_timeout (opts\<lparr>lo_timeoutSeconds := Some s\<rparr>)) = sint s * 1000000000
   \<longleftrightarrow> - max_seconds \<le> sint s \<and> sint s \<le> max_seconds"
proof -
  have t: "list_timeout (opts\<lparr>lo_timeoutSeconds := Some s\<rparr>) = word_of_int (sint s * 1000000000)"
    by (simp add: list_timeout_def time_Second_def)
  show ?thesis unfolding t sint_word_of_int64 by (simp add: max_seconds_def) linarith
qed

section \<open>Clientsets\<close>

text \<open>What the client of the group is made from.\<close>

definition with_defaults ::
    "('l, 'q, 'k, 'c, 'd) client_calls \<Rightarrow> ('l, 'q, 'k) rest_config \<Rightarrow> ('l, 'q, 'k) rest_config" where
  "with_defaults cc config =
     config\<lparr>cf_GroupVersion := Some SchemeGroupVersion, cf_APIPath := ''/apis'',
            cf_NegotiatedSerializer := Some (cc_WithoutConversion cc),
            cf_UserAgent := (if cf_UserAgent config = [] then cc_DefaultKubernetesUserAgent cc
                             else cf_UserAgent config)\<rparr>"

lemma setConfigDefaults_ok: "setConfigDefaults cc config = Ok (with_defaults cc config)"
  by (simp add: setConfigDefaults_def with_defaults_def Let_def)

lemma or_die_Ok [go_simps]: "or_die r = Ok x \<longleftrightarrow> r = Ok x"
  by (cases r) (simp_all add: or_die_def)

lemma group_NewForConfig_Ok [go_simps]:
  "group_NewForConfig cc (Some config) = Ok g \<longleftrightarrow>
     (\<exists>rc. cc_RESTClientFor cc (with_defaults cc config) = Ok rc \<and> g = \<lparr>gc_restClient = Some rc\<rparr>)"
  by (auto simp: group_NewForConfig_def setConfigDefaults_ok go_simps)

text \<open>The rate limiter of a configuration, made from rate and burst when there is none.\<close>

definition limits ::
    "('l, 'q, 'k, 'c, 'd) client_calls \<Rightarrow> ('l, 'q, 'k) rest_config \<Rightarrow> 'l option \<Rightarrow> bool" where
  "limits cc config limiter \<longleftrightarrow>
     (if cf_RateLimiter config = None \<and> cc_positive cc (cf_QPS config)
      then 0 < cf_Burst config
        \<and> limiter = Some (cc_NewTokenBucketRateLimiter cc (cf_QPS config) (cf_Burst config))
      else limiter = cf_RateLimiter config)"

lemma limited_config_Ok [go_simps]:
  fixes config :: "('l, 'q, 'k) rest_config"
  shows "limited_config cc config = Ok c \<longleftrightarrow>
    (\<exists>limiter. limits cc config limiter \<and> c = config\<lparr>cf_RateLimiter := limiter\<rparr>)"
  by (cases config) (auto simp: limited_config_def limits_def)

lemma clientset_eq:
  fixes cs :: "('w, 'o, 'i, 'd) clientset"
  shows "\<lparr>cs_discovery = d, cs_resourceV1alpha1 = g\<rparr> = cs \<longleftrightarrow> cs_discovery cs = d \<and> cs_resourceV1alpha1 cs = g"
  by (cases cs) auto

text \<open>
  A clientset is made with one rate limiter for its clients, and refused when a rate is set
  without a burst; the variant that panics on errors leaves the configuration as it is, so that
  it makes a clientset where the other one refuses, and its clients share a limiter only if the
  configuration brings one.
\<close>

theorem NewForConfig_limits:
  fixes cc :: "('l, 'q, 'k, ('w, 'o, 'i) rest_client, 'd) client_calls"
  shows "(NewForConfig cc (Some config) = Ok cs \<longleftrightarrow>
     (\<exists>limiter rc. limits cc config limiter
        \<and> cc_RESTClientFor cc (with_defaults cc (config\<lparr>cf_RateLimiter := limiter\<rparr>)) = Ok rc
        \<and> cc_NewDiscoveryClientForConfig cc (config\<lparr>cf_RateLimiter := limiter\<rparr>) = Ok (cs_discovery cs)
        \<and> cs_resourceV1alpha1 cs = Some \<lparr>gc_restClient = Some rc\<rparr>))
   \<and> (NewForConfigOrDie cc (Some config) = Ok cs \<longleftrightarrow>
     (\<exists>rc. cc_RESTClientFor cc (with_defaults cc config) = Ok rc
        \<and> cc_NewDiscoveryClientForConfig cc config = Ok (cs_discovery cs)
        \<and> cs_resourceV1alpha1 cs = Some \<lparr>gc_restClient = Some rc\<rparr>))"
proof (rule conjI)
  show "NewForConfig cc (Some config) = Ok cs \<longleftrightarrow>
     (\<exists>limiter rc. limits cc config limiter
        \<and> cc_RESTClientFor cc (with_defaults cc (config\<lparr>cf_RateLimiter := limiter\<rparr>)) = Ok rc
        \<and> cc_NewDiscoveryClientForConfig cc (config\<lparr>cf_RateLimiter := limiter\<rparr>) = Ok (cs_discovery cs)
        \<and> cs_resourceV1alpha1 cs = Some \<lparr>gc_restClient = Some rc\<rparr>)"
    by (auto simp: NewForConfig_def go_simps clientset_eq eq_commute [of cs])
  show "NewForConfigOrDie cc (Some config) = Ok cs \<longleftrightarrow>
     (\<exists>rc. cc_RESTClientFor cc (with_defaults cc config) = Ok rc
        \<and> cc_NewDiscoveryClientForConfig cc config = Ok (cs_discovery cs)
        \<and> cs_resourceV1alpha1 cs = Some \<lparr>gc_restClient = Some rc\<rparr>)"
    by (auto simp: NewForConfigOrDie_def group_NewForConfigOrDie_def go_simps clientset_eq eq_commute [of cs])
qed

end
