(* ===== verification/Listers.thy ===== *)
theory Listers
  imports Informers
begin

text \<open>
  The generated listers (\<open>pkg/generated/listers\<close>): they read the objects of a resource from the
  index of an informer. The index is a library's; its three ways to be read are the parameters.
\<close>

datatype stored_object = StoredOenuma oenuma | StoredWhitelist whitelist | StoredOther string

text \<open>
  \<^verbatim>\<open>ListAll\<close> calls a function on objects and then answers an error or nil: the objects come
  as a list here. An object that is not there is whatever \<^verbatim>\<open>GetByKey\<close> answers with it.
\<close>

record 'sel indexer =
  ix_GetByKey :: "string \<Rightarrow> stored_object option \<times> bool \<times> string option"
  ix_ListAll :: "'sel \<Rightarrow> stored_object list \<times> string option"
  ix_ListAllByNamespace :: "string \<Rightarrow> 'sel \<Rightarrow> stored_object list \<times> string option"

fun as_oenuma :: "stored_object option \<Rightarrow> oenuma go" where
  "as_oenuma (Some (StoredOenuma x)) = Ok x"
| "as_oenuma _ = Panic TypeAssertion"

fun as_whitelist :: "stored_object option \<Rightarrow> whitelist go" where
  "as_whitelist (Some (StoredWhitelist x)) = Ok x"
| "as_whitelist _ = Panic TypeAssertion"

text \<open>\<^verbatim>\<open>errors.NewNotFound\<close> of a group resource and a name.\<close>

definition Resource_of :: "string \<Rightarrow> string \<times> string" where
  "Resource_of resource = (fst SchemeGroupVersion, resource)"

definition not_found :: "string \<times> string \<Rightarrow> string \<Rightarrow> string" where
  "not_found gr name = snd gr @ ''.'' @ fst gr @ '' '' @ quoted name @ '' not found''"

text \<open>The loop of a lister: every object must be of its type.\<close>

definition collect :: "(stored_object option \<Rightarrow> 'a go) \<Rightarrow> stored_object list \<times> string option \<Rightarrow>
    ('a list \<times> string option) go" where
  "collect as = (\<lambda>(objs, err).
     go_map (\<lambda>ret. (ret, err)) (go_for (\<lambda>m ret. go_map (\<lambda>x. ret @ [x]) (as (Some m))) objs []))"

section \<open>Listers of oenumas\<close>

definition NewOenumaLister :: "'sel indexer \<Rightarrow> 'sel indexer" where
  "NewOenumaLister indexer = indexer"

definition oenuma_Lister ::
    "(('w, 'i) shared_informer \<Rightarrow> 'sel indexer) \<Rightarrow> resource_informer \<Rightarrow>
     ('w, 'o, 'i, 'd) factory \<times> 'ch informer_world \<Rightarrow>
     'sel indexer \<times> ('w, 'o, 'i, 'd) factory \<times> 'ch informer_world" where
  "oenuma_Lister getIndexer f s =
     (let (informer, s') = oenuma_Informer f s in (NewOenumaLister (getIndexer informer), s'))"

definition oenumaLister_List :: "'sel indexer \<Rightarrow> 'sel \<Rightarrow> (oenuma list \<times> string option) go" where
  "oenumaLister_List s selector = collect as_oenuma (ix_ListAll s selector)"

record 'sel oenumaNamespaceLister =
  on_indexer :: "'sel indexer"
  on_namespace :: string

definition oenumaLister_Oenumas :: "'sel indexer \<Rightarrow> string \<Rightarrow> 'sel oenumaNamespaceLister" where
  "oenumaLister_Oenumas s namespace = \<lparr>on_indexer = s, on_namespace = namespace\<rparr>"

definition oenumaNamespaceLister_List ::
    "'sel oenumaNamespaceLister \<Rightarrow> 'sel \<Rightarrow> (oenuma list \<times> string option) go" where
  "oenumaNamespaceLister_List s selector =
     collect as_oenuma (ix_ListAllByNamespace (on_indexer s) (on_namespace s) selector)"

definition oenumaNamespaceLister_Get :: "'sel oenumaNamespaceLister \<Rightarrow> string \<Rightarrow> oenuma go" where
  "oenumaNamespaceLister_Get s name =
     (case ix_GetByKey (on_indexer s) (on_namespace s @ ''/'' @ name) of
        (obj, found, Some err) \<Rightarrow> Err err
      | (obj, found, None) \<Rightarrow>
          if \<not> found then Err (not_found (Resource_of ''oenuma'') name) else as_oenuma obj)"

section \<open>Listers of whitelists\<close>

definition NewWhitelistLister :: "'sel indexer \<Rightarrow> 'sel indexer" where
  "NewWhitelistLister indexer = indexer"

definition whitelist_Lister ::
    "(('w, 'i) shared_informer \<Rightarrow> 'sel indexer) \<Rightarrow> resource_informer \<Rightarrow>
     ('w, 'o, 'i, 'd) factory \<times> 'ch informer_world \<Rightarrow>
     'sel indexer \<times> ('w, 'o, 'i, 'd) factory \<times> 'ch informer_world" where
  "whitelist_Lister getIndexer f s =
     (let (informer, s') = whitelist_Informer f s in (NewWhitelistLister (getIndexer informer), s'))"

definition whitelistLister_List :: "'sel indexer \<Rightarrow> 'sel \<Rightarrow> (whitelist list \<times> string option) go" where
  "whitelistLister_List s selector = collect as_whitelist (ix_ListAll s selector)"

record 'sel whitelistNamespaceLister =
  wn_indexer :: "'sel indexer"
  wn_namespace :: string

definition whitelistLister_Whitelists :: "'sel indexer \<Rightarrow> string \<Rightarrow> 'sel whitelistNamespaceLister" where
  "whitelistLister_Whitelists s namespace = \<lparr>wn_indexer = s, wn_namespace = namespace\<rparr>"

definition whitelistNamespaceLister_List ::
    "'sel whitelistNamespaceLister \<Rightarrow> 'sel \<Rightarrow> (whitelist list \<times> string option) go" where
  "whitelistNamespaceLister_List s selector =
     collect as_whitelist (ix_ListAllByNamespace (wn_indexer s) (wn_namespace s) selector)"

definition whitelistNamespaceLister_Get :: "'sel whitelistNamespaceLister \<Rightarrow> string \<Rightarrow> whitelist go" where
  "whitelistNamespaceLister_Get s name =
     (case ix_GetByKey (wn_indexer s) (wn_namespace s @ ''/'' @ name) of
        (obj, found, Some err) \<Rightarrow> Err err
      | (obj, found, None) \<Rightarrow>
          if \<not> found then Err (not_found (Resource_of ''whitelist'') name) else as_whitelist obj)"

section \<open>What a lister finds\<close>

text \<open>
  The index of an informer keeps its objects under the key that client-go's key function gives
  them: namespace, slash and name, or the name alone for an object without a namespace.
\<close>

fun stored_meta :: "stored_object \<Rightarrow> object_meta option" where
  "stored_meta (StoredOenuma x) = Some (oe_meta x)"
| "stored_meta (StoredWhitelist x) = Some (wl_meta x)"
| "stored_meta (StoredOther s) = None"

definition meta_key :: "object_meta \<Rightarrow> string" where
  "meta_key m = (if om_namespace m = [] then om_name m else om_namespace m @ ''/'' @ om_name m)"

definition indexes :: "stored_object list \<Rightarrow> 'sel indexer \<Rightarrow> bool" where
  "indexes objs ix \<longleftrightarrow> (\<forall>k. ix_GetByKey ix k =
     (let found = find (\<lambda>x. map_option meta_key (stored_meta x) = Some k) objs in (found, found \<noteq> None, None)))"

lemma slash_split:
  "CHR ''/'' \<notin> set a \<Longrightarrow> CHR ''/'' \<notin> set a' \<Longrightarrow> a @ ''/'' @ b = a' @ ''/'' @ b' \<longleftrightarrow> a = a' \<and> b = b'"
proof (induction a arbitrary: a')
  case Nil
  then show ?case by (cases a') auto
next
  case (Cons c a)
  then show ?case by (cases a') auto
qed

text \<open>Keys tell objects apart when neither namespaces nor names have a slash in them.\<close>

lemma meta_key_inject:
  assumes "CHR ''/'' \<notin> set (om_namespace m)" and "CHR ''/'' \<notin> set (om_name m)"
    and "CHR ''/'' \<notin> set ns" and "ns \<noteq> []"
  shows "meta_key m = ns @ ''/'' @ name \<longleftrightarrow> om_namespace m = ns \<and> om_name m = name"
proof (cases "om_namespace m = []")
  case True
  then show ?thesis using assms by (auto simp: meta_key_def)
next
  case False
  then show ?thesis using slash_split [OF assms(1,3)] by (simp add: meta_key_def)
qed

definition plain_names :: "oenuma list \<Rightarrow> bool" where
  "plain_names xs \<longleftrightarrow> list_all (\<lambda>x. CHR ''/'' \<notin> set (om_namespace (oe_meta x))
     \<and> CHR ''/'' \<notin> set (om_name (oe_meta x))) xs"

lemma find_stored:
  assumes "plain_names xs" and "CHR ''/'' \<notin> set ns" and "ns \<noteq> []"
  shows "find (\<lambda>x. map_option meta_key (stored_meta x) = Some (ns @ ''/'' @ name)) (map StoredOenuma xs)
    = map_option StoredOenuma (find (\<lambda>x. om_namespace (oe_meta x) = ns \<and> om_name (oe_meta x) = name) xs)"
  using assms(1) by (induction xs) (auto simp: plain_names_def meta_key_inject assms(2,3) simp del: append_Cons)

text \<open>
  Over the index of an informer the lister of a namespace answers the resource of that
  namespace and name, or that there is none; of no namespace it finds nothing, since the objects
  without a namespace are kept under another key.
\<close>

theorem Lister_Get_finds:
  assumes "indexes (map StoredOenuma xs) ix" and "plain_names xs" and "CHR ''/'' \<notin> set ns"
  shows "oenumaNamespaceLister_Get (oenumaLister_Oenumas ix ns) name =
    (case if ns = [] then None else find (\<lambda>x. om_namespace (oe_meta x) = ns \<and> om_name (oe_meta x) = name) xs of
       None \<Rightarrow> Err (not_found (Resource_of ''oenuma'') name) | Some x \<Rightarrow> Ok x)"
proof (cases "ns = []")
  case True
  have "meta_key m \<noteq> ''/'' @ name" if "CHR ''/'' \<notin> set (om_namespace m)" "CHR ''/'' \<notin> set (om_name m)" for m
    using that by (cases "om_namespace m") (auto simp: meta_key_def)
  then have "find (\<lambda>x. map_option meta_key (stored_meta x) = Some (''/'' @ name)) (map StoredOenuma xs) = None"
    using assms(2) unfolding find_None_iff plain_names_def list_all_iff by fastforce
  then show ?thesis
    using True assms(1)
    by (simp add: oenumaNamespaceLister_Get_def oenumaLister_Oenumas_def indexes_def)
next
  case False
  then show ?thesis
    using assms(1) find_stored [OF assms(2,3) False, of name]
    by (simp add: oenumaNamespaceLister_Get_def oenumaLister_Oenumas_def indexes_def split: option.split)
qed

definition ex_stored :: "oenuma list" where
  "ex_stored = [\<lparr>oe_meta = \<lparr>om_name = ''podafi'', om_namespace = ''default''\<rparr>, oe_spec = oe_spec empty_oenuma\<rparr>,
     \<lparr>oe_meta = \<lparr>om_name = ''podafi'', om_namespace = ''kube-system''\<rparr>, oe_spec = oe_spec empty_oenuma\<rparr>]"

definition ex_indexer :: "unit indexer" where
  "ex_indexer = \<lparr>ix_GetByKey = (\<lambda>k. let found =
       find (\<lambda>x. map_option meta_key (stored_meta x) = Some k) (map StoredOenuma ex_stored) in (found, found \<noteq> None, None)),
     ix_ListAll = (\<lambda>_. (map StoredOenuma ex_stored, None)),
     ix_ListAllByNamespace = (\<lambda>ns _. (filter (\<lambda>x. map_option om_namespace (stored_meta x) = Some ns)
       (map StoredOenuma ex_stored), None))\<rparr>"

theorem Lister_Get_finds_witness:
  "oenumaNamespaceLister_Get (oenumaLister_Oenumas ex_indexer ''kube-system'') ''podafi'' = Ok (ex_stored ! 1)
   \<and> oenumaNamespaceLister_Get (oenumaLister_Oenumas ex_indexer []) ''podafi''
       = Err (not_found (Resource_of ''oenuma'') ''podafi'')"
proof -
  have "indexes (map StoredOenuma ex_stored) ex_indexer" by (simp add: indexes_def ex_indexer_def)
  moreover have "plain_names ex_stored" by code_simp
  ultimately show ?thesis
    using Lister_Get_finds [of ex_stored ex_indexer] by (simp add: ex_stored_def)
qed

end
