(* ===== verification/FakeClients.thy ===== *)
theory FakeClients
  imports TypedClients
begin

text \<open>
  The generated test doubles of the typed clients, \<open>fake\<close> below \<open>clientset/versioned\<close>: a
  clientset over an object tracker, and the fake clients of \<^verbatim>\<open>oenumas\<close> and
  \<^verbatim>\<open>whitelists\<close>, which turn every call into an action. What the testing library does with an
  action is a parameter. The property compares a fake client with the typed client of the same
  resource over a server that answers requests as the fake answers actions.
\<close>

section \<open>Actions\<close>

text \<open>
  Group, version and resource; group, version and kind. Objects are pointers, of which a nil one
  can be passed; the options that a fake client drops have no place in an action.
\<close>

datatype api_object =
    OenumaObject "oenuma option" | OenumaListObject "oenuma_list option"
  | WhitelistObject "whitelist option" | WhitelistListObject "whitelist_list option"

type_synonym gvr = "string \<times> string \<times> string"

datatype fake_action =
    GetAction gvr string string
  | ListAction gvr gvr string list_options
  | WatchAction gvr string list_options
  | CreateAction gvr string api_object
  | UpdateAction gvr string api_object
  | UpdateSubresourceAction gvr string string api_object
  | DeleteAction gvr string string
  | DeleteCollectionAction gvr string list_options
  | PatchSubresourceAction gvr string string string string "string list"

text \<open>
  \<^verbatim>\<open>testing.Fake\<close>: \<open>Invokes\<close> gets the object to return by default and may answer no object;
  \<^verbatim>\<open>ExtractFromListOptions\<close> gives the label selector, if there is one; a selector is matched
  with the labels of an item.
\<close>

record ('w, 'l, 'i) fake =
  fk_invokes :: "fake_action \<Rightarrow> api_object \<Rightarrow> 'w \<Rightarrow> 'w \<times> api_object option \<times> string option"
  fk_invokesWatch :: "fake_action \<Rightarrow> 'w \<Rightarrow> 'w \<times> 'i option \<times> string option"
  fk_label :: "list_options \<Rightarrow> 'l option"
  fk_everything :: 'l
  fk_matchesOenuma :: "'l \<Rightarrow> oenuma \<Rightarrow> bool"
  fk_matchesWhitelist :: "'l \<Rightarrow> whitelist \<Rightarrow> bool"

definition list_label :: "('w, 'l, 'i) fake \<Rightarrow> list_options \<Rightarrow> 'l" where
  "list_label f opts = (case fk_label f opts of None \<Rightarrow> fk_everything f | Some l \<Rightarrow> l)"

section \<open>The fake client of oenumas (fake/fake_oenuma.go)\<close>

definition oenumasResource :: gvr where
  "oenumasResource = (''resource.sop.huawei.com'', ''v1alpha1'', ''oenumas'')"

definition oenumasKind :: gvr where
  "oenumasKind = (''resource.sop.huawei.com'', ''v1alpha1'', ''Oenuma'')"

record ('w, 'l, 'i) FakeOenumas =
  foe_Fake :: "('w, 'l, 'i) fake option"
  foe_ns :: string

text \<open>\<^verbatim>\<open>if obj == nil { return nil, err }; return obj.(*v1alpha1.Oenuma), err\<close>\<close>

fun return_oenuma :: "'w \<times> api_object option \<times> string option \<Rightarrow> ('w \<times> oenuma option \<times> string option) go" where
  "return_oenuma (w, None, err) = Ok (w, None, err)"
| "return_oenuma (w, Some (OenumaObject x), err) = Ok (w, x, err)"
| "return_oenuma (w, Some obj, err) = Panic TypeAssertion"

definition FakeOenumas_Get ::
    "('w, 'l, 'i) FakeOenumas \<Rightarrow> string \<Rightarrow> 'w \<Rightarrow> ('w \<times> oenuma option \<times> string option) go" where
  "FakeOenumas_Get c name w =
     go_bind (through (foe_Fake c) (\<lambda>f. fk_invokes f
       (GetAction oenumasResource (foe_ns c) name) (OenumaObject (Some empty_oenuma)) w)) return_oenuma"

text \<open>The answer is filtered here; the metadata of the list is kept.\<close>

fun return_oenuma_list ::
    "(oenuma \<Rightarrow> bool) \<Rightarrow> 'w \<times> api_object option \<times> string option \<Rightarrow> ('w \<times> oenuma_list option \<times> string option) go" where
  "return_oenuma_list keep (w, None, err) = Ok (w, None, err)"
| "return_oenuma_list keep (w, Some (OenumaListObject None), err) = Panic NilDereference"
| "return_oenuma_list keep (w, Some (OenumaListObject (Some l)), err) =
     Ok (w, Some \<lparr>ol_resourceVersion = ol_resourceVersion l, ol_items = filter keep (ol_items l)\<rparr>, err)"
| "return_oenuma_list keep (w, Some obj, err) = Panic TypeAssertion"

definition FakeOenumas_List ::
    "('w, 'l, 'i) FakeOenumas \<Rightarrow> list_options \<Rightarrow> 'w \<Rightarrow> ('w \<times> oenuma_list option \<times> string option) go" where
  "FakeOenumas_List c opts w =
     (case foe_Fake c of None \<Rightarrow> Panic NilDereference
      | Some f \<Rightarrow> return_oenuma_list (fk_matchesOenuma f (list_label f opts)) (fk_invokes f
          (ListAction oenumasResource oenumasKind (foe_ns c) opts) (OenumaListObject (Some empty_oenuma_list)) w))"

definition FakeOenumas_Watch ::
    "('w, 'l, 'i) FakeOenumas \<Rightarrow> list_options \<Rightarrow> 'w \<Rightarrow> ('w \<times> 'i option \<times> string option) go" where
  "FakeOenumas_Watch c opts w =
     through (foe_Fake c) (\<lambda>f. fk_invokesWatch f (WatchAction oenumasResource (foe_ns c) opts) w)"

definition FakeOenumas_Create ::
    "('w, 'l, 'i) FakeOenumas \<Rightarrow> oenuma option \<Rightarrow> 'w \<Rightarrow> ('w \<times> oenuma option \<times> string option) go" where
  "FakeOenumas_Create c obj w =
     go_bind (through (foe_Fake c) (\<lambda>f. fk_invokes f
       (CreateAction oenumasResource (foe_ns c) (OenumaObject obj)) (OenumaObject (Some empty_oenuma)) w)) return_oenuma"

definition FakeOenumas_Update ::
    "('w, 'l, 'i) FakeOenumas \<Rightarrow> oenuma option \<Rightarrow> 'w \<Rightarrow> ('w \<times> oenuma option \<times> string option) go" where
  "FakeOenumas_Update c obj w =
     go_bind (through (foe_Fake c) (\<lambda>f. fk_invokes f
       (UpdateAction oenumasResource (foe_ns c) (OenumaObject obj)) (OenumaObject (Some empty_oenuma)) w)) return_oenuma"

definition FakeOenumas_UpdateStatus ::
    "('w, 'l, 'i) FakeOenumas \<Rightarrow> oenuma option \<Rightarrow> 'w \<Rightarrow> ('w \<times> oenuma option \<times> string option) go" where
  "FakeOenumas_UpdateStatus c obj w =
     go_bind (through (foe_Fake c) (\<lambda>f. fk_invokes f
       (UpdateSubresourceAction oenumasResource ''status'' (foe_ns c) (OenumaObject obj))
       (OenumaObject (Some empty_oenuma)) w)) return_oenuma"

definition FakeOenumas_Delete ::
    "('w, 'l, 'i) FakeOenumas \<Rightarrow> string \<Rightarrow> 'w \<Rightarrow> ('w \<times> string option) go" where
  "FakeOenumas_Delete c name w =
     go_map (\<lambda>(w1, _, err). (w1, err)) (through (foe_Fake c) (\<lambda>f. fk_invokes f
       (DeleteAction oenumasResource (foe_ns c) name) (OenumaObject (Some empty_oenuma)) w))"

definition FakeOenumas_DeleteCollection ::
    "('w, 'l, 'i) FakeOenumas \<Rightarrow> list_options \<Rightarrow> 'w \<Rightarrow> ('w \<times> string option) go" where
  "FakeOenumas_DeleteCollection c listOpts w =
     go_map (\<lambda>(w1, _, err). (w1, err)) (through (foe_Fake c) (\<lambda>f. fk_invokes f
       (DeleteCollectionAction oenumasResource (foe_ns c) listOpts) (OenumaListObject (Some empty_oenuma_list)) w))"

definition FakeOenumas_Patch ::
    "('w, 'l, 'i) FakeOenumas \<Rightarrow> string \<Rightarrow> string \<Rightarrow> string \<Rightarrow> string list \<Rightarrow> 'w \<Rightarrow>
     ('w \<times> oenuma option \<times> string option) go" where
  "FakeOenumas_Patch c name pt data subresources w =
     go_bind (through (foe_Fake c) (\<lambda>f. fk_invokes f
       (PatchSubresourceAction oenumasResource (foe_ns c) name pt data subresources)
       (OenumaObject (Some empty_oenuma)) w)) return_oenuma"

section \<open>The fake client of whitelists (fake/fake_whitelist.go)\<close>

definition whitelistsResource :: gvr where
  "whitelistsResource = (''resource.sop.huawei.com'', ''v1alpha1'', ''whitelists'')"

definition whitelistsKind :: gvr where
  "whitelistsKind = (''resource.sop.huawei.com'', ''v1alpha1'', ''Whitelist'')"

record ('w, 'l, 'i) FakeWhitelists =
  fwl_Fake :: "('w, 'l, 'i) fake option"
  fwl_ns :: string

text \<open>\<^verbatim>\<open>if obj == nil { return nil, err }; return obj.(*v1alpha1.Whitelist), err\<close>\<close>

fun return_whitelist :: "'w \<times> api_object option \<times> string option \<Rightarrow> ('w \<times> whitelist option \<times> string option) go" where
  "return_whitelist (w, None, err) = Ok (w, None, err)"
| "return_whitelist (w, Some (WhitelistObject x), err) = Ok (w, x, err)"
| "return_whitelist (w, Some obj, err) = Panic TypeAssertion"

definition FakeWhitelists_Get ::
    "('w, 'l, 'i) FakeWhitelists \<Rightarrow> string \<Rightarrow> 'w \<Rightarrow> ('w \<times> whitelist option \<times> string option) go" where
  "FakeWhitelists_Get c name w =
     go_bind (through (fwl_Fake c) (\<lambda>f. fk_invokes f
       (GetAction whitelistsResource (fwl_ns c) name) (WhitelistObject (Some empty_whitelist)) w)) return_whitelist"

text \<open>The answer is filtered here; the metadata of the list is kept.\<close>

fun return_whitelist_list ::
    "(whitelist \<Rightarrow> bool) \<Rightarrow> 'w \<times> api_object option \<times> string option \<Rightarrow> ('w \<times> whitelist_list option \<times> string option) go" where
  "return_whitelist_list keep (w, None, err) = Ok (w, None, err)"
| "return_whitelist_list keep (w, Some (WhitelistListObject None), err) = Panic NilDereference"
| "return_whitelist_list keep (w, Some (WhitelistListObject (Some l)), err) =
     Ok (w, Some \<lparr>wll_resourceVersion = wll_resourceVersion l, wll_items = filter keep (wll_items l)\<rparr>, err)"
| "return_whitelist_list keep (w, Some obj, err) = Panic TypeAssertion"

definition FakeWhitelists_List ::
    "('w, 'l, 'i) FakeWhitelists \<Rightarrow> list_options \<Rightarrow> 'w \<Rightarrow> ('w \<times> whitelist_list option \<times> string option) go" where
  "FakeWhitelists_List c opts w =
     (case fwl_Fake c of None \<Rightarrow> Panic NilDereference
      | Some f \<Rightarrow> return_whitelist_list (fk_matchesWhitelist f (list_label f opts)) (fk_invokes f
          (ListAction whitelistsResource whitelistsKind (fwl_ns c) opts) (WhitelistListObject (Some empty_whitelist_list)) w))"

definition FakeWhitelists_Watch ::
    "('w, 'l, 'i) FakeWhitelists \<Rightarrow> list_options \<Rightarrow> 'w \<Rightarrow> ('w \<times> 'i option \<times> string option) go" where
  "FakeWhitelists_Watch c opts w =
     through (fwl_Fake c) (\<lambda>f. fk_invokesWatch f (WatchAction whitelistsResource (fwl_ns c) opts) w)"

definition FakeWhitelists_Create ::
    "('w, 'l, 'i) FakeWhitelists \<Rightarrow> whitelist option \<Rightarrow> 'w \<Rightarrow> ('w \<times> whitelist option \<times> string option) go" where
  "FakeWhitelists_Create c obj w =
     go_bind (through (fwl_Fake c) (\<lambda>f. fk_invokes f
       (CreateAction whitelistsResource (fwl_ns c) (WhitelistObject obj)) (WhitelistObject (Some empty_whitelist)) w)) return_whitelist"

definition FakeWhitelists_Update ::
    "('w, 'l, 'i) FakeWhitelists \<Rightarrow> whitelist option \<Rightarrow> 'w \<Rightarrow> ('w \<times> whitelist option \<times> string option) go" where
  "FakeWhitelists_Update c obj w =
     go_bind (through (fwl_Fake c) (\<lambda>f. fk_invokes f
       (UpdateAction whitelistsResource (fwl_ns c) (WhitelistObject obj)) (WhitelistObject (Some empty_whitelist)) w)) return_whitelist"

definition FakeWhitelists_UpdateStatus ::
    "('w, 'l, 'i) FakeWhitelists \<Rightarrow> whitelist option \<Rightarrow> 'w \<Rightarrow> ('w \<times> whitelist option \<times> string option) go" where
  "FakeWhitelists_UpdateStatus c obj w =
     go_bind (through (fwl_Fake c) (\<lambda>f. fk_invokes f
       (UpdateSubresourceAction whitelistsResource ''status'' (fwl_ns c) (WhitelistObject obj))
       (WhitelistObject (Some empty_whitelist)) w)) return_whitelist"

definition FakeWhitelists_Delete ::
    "('w, 'l, 'i) FakeWhitelists \<Rightarrow> string \<Rightarrow> 'w \<Rightarrow> ('w \<times> string option) go" where
  "FakeWhitelists_Delete c name w =
     go_map (\<lambda>(w1, _, err). (w1, err)) (through (fwl_Fake c) (\<lambda>f. fk_invokes f
       (DeleteAction whitelistsResource (fwl_ns c) name) (WhitelistObject (Some empty_whitelist)) w))"

definition FakeWhitelists_DeleteCollection ::
    "('w, 'l, 'i) FakeWhitelists \<Rightarrow> list_options \<Rightarrow> 'w \<Rightarrow> ('w \<times> string option) go" where
  "FakeWhitelists_DeleteCollection c listOpts w =
     go_map (\<lambda>(w1, _, err). (w1, err)) (through (fwl_Fake c) (\<lambda>f. fk_invokes f
       (DeleteCollectionAction whitelistsResource (fwl_ns c) listOpts) (WhitelistListObject (Some empty_whitelist_list)) w))"

definition FakeWhitelists_Patch ::
    "('w, 'l, 'i) FakeWhitelists \<Rightarrow> string \<Rightarrow> string \<Rightarrow> string \<Rightarrow> string list \<Rightarrow> 'w \<Rightarrow>
     ('w \<times> whitelist option \<times> string option) go" where
  "FakeWhitelists_Patch c name pt data subresources w =
     go_bind (through (fwl_Fake c) (\<lambda>f. fk_invokes f
       (PatchSubresourceAction whitelistsResource (fwl_ns c) name pt data subresources)
       (WhitelistObject (Some empty_whitelist)) w)) return_whitelist"

section \<open>The fake clientset (fake/clientset_generated.go)\<close>

text \<open>
  Reactors and watch reactors are asked in the order they were added; both look at every resource
  here. The tracker is the library's: \<open>'t\<close> is its state, shared by all who hold it.
\<close>

datatype reactor = ObjectReaction | TrackerWatch

record 't fake_clientset =
  fcs_tracker :: 't
  fcs_reactors :: "(string \<times> string \<times> reactor) list"
  fcs_watchReactors :: "(string \<times> reactor) list"

text \<open>An object that cannot be added makes the constructor panic.\<close>

definition NewSimpleClientset ::
    "('t \<Rightarrow> api_object \<Rightarrow> 't \<times> string option) \<Rightarrow> 't \<Rightarrow> api_object list \<Rightarrow> 't fake_clientset go" where
  "NewSimpleClientset add tracker objects =
     go_map (\<lambda>o1. \<lparr>fcs_tracker = o1, fcs_reactors = [(''*'', ''*'', ObjectReaction)],
                   fcs_watchReactors = [(''*'', TrackerWatch)]\<rparr>)
       (go_for (\<lambda>obj o1. case add o1 obj of (o2, None) \<Rightarrow> Ok o2 | (o2, Some e) \<Rightarrow> Panic (PanicError e))
         objects tracker)"

text \<open>The watch reactor: handled, the watch, the error.\<close>

definition watch_reaction ::
    "('t \<Rightarrow> gvr \<Rightarrow> string \<Rightarrow> 'i option \<times> string option) \<Rightarrow> 't \<Rightarrow> gvr \<Rightarrow> string \<Rightarrow>
     bool \<times> 'i option \<times> string option" where
  "watch_reaction watch tracker resource ns =
     (case watch tracker resource ns of (_, Some e) \<Rightarrow> (False, None, Some e) | (i, None) \<Rightarrow> (True, i, None))"

definition Tracker :: "'t fake_clientset option \<Rightarrow> 't go" where
  "Tracker c = (case c of None \<Rightarrow> Panic NilDereference | Some cs \<Rightarrow> Ok (fcs_tracker cs))"

definition fake_Oenumas :: "('w, 'l, 'i) fake option \<Rightarrow> string \<Rightarrow> ('w, 'l, 'i) FakeOenumas" where
  "fake_Oenumas c namespace = \<lparr>foe_Fake = c, foe_ns = namespace\<rparr>"

definition fake_Whitelists :: "('w, 'l, 'i) fake option \<Rightarrow> string \<Rightarrow> ('w, 'l, 'i) FakeWhitelists" where
  "fake_Whitelists c namespace = \<lparr>fwl_Fake = c, fwl_ns = namespace\<rparr>"

section \<open>The action of a request\<close>

text \<open>
  The action that stands for a request of a typed client. The verb and the builder calls tell which;
  a list and a watch differ in the \<^verbatim>\<open>watch\<close> option only, which is no part of an action.
\<close>

definition gvr_of :: "string \<Rightarrow> gvr" where
  "gvr_of resource = (''resource.sop.huawei.com'', ''v1alpha1'', resource)"

definition gvk_of :: "string \<Rightarrow> gvr" where
  "gvk_of resource = (''resource.sop.huawei.com'', ''v1alpha1'',
     if resource = ''oenumas'' then ''Oenuma'' else ''Whitelist'')"

fun object_of :: "'o rest_body \<Rightarrow> api_object option" where
  "object_of (OenumaBody x) = Some (OenumaObject x)"
| "object_of (WhitelistBody x) = Some (WhitelistObject x)"
| "object_of b = None"

fun get_action :: "string \<Rightarrow> string \<Rightarrow> 'o rest_call list \<Rightarrow> fake_action option" where
  "get_action ns r [Name n, VersionedParams p] = Some (GetAction (gvr_of r) ns n)"
| "get_action ns r [VersionedParams (ListParams opts), Timeout t] =
     Some (if lo_watch opts then WatchAction (gvr_of r) ns (opts\<lparr>lo_watch := False\<rparr>)
           else ListAction (gvr_of r) (gvk_of r) ns opts)"
| "get_action ns r _ = None"

fun with_body :: "(api_object \<Rightarrow> fake_action) \<Rightarrow> 'o rest_call list \<Rightarrow> fake_action option" where
  "with_body action [VersionedParams p, Body b] = map_option action (object_of b)"
| "with_body action _ = None"

fun with_data :: "(string \<Rightarrow> fake_action) \<Rightarrow> 'o rest_call list \<Rightarrow> fake_action option" where
  "with_data action [VersionedParams p, Body (DataBody d)] = Some (action d)"
| "with_data action _ = None"

definition post_action :: "string \<Rightarrow> string \<Rightarrow> 'o rest_call list \<Rightarrow> fake_action option" where
  "post_action ns r calls = with_body (CreateAction (gvr_of r) ns) calls"

fun put_action :: "string \<Rightarrow> string \<Rightarrow> 'o rest_call list \<Rightarrow> fake_action option" where
  "put_action ns r (Name n # SubResource subs # calls) =
     with_body (UpdateSubresourceAction (gvr_of r) (strings_Join subs ''/'') ns) calls"
| "put_action ns r (Name n # calls) = with_body (UpdateAction (gvr_of r) ns) calls"
| "put_action ns r _ = None"

fun delete_action :: "string \<Rightarrow> string \<Rightarrow> 'o rest_call list \<Rightarrow> fake_action option" where
  "delete_action ns r [Name n, Body b] = Some (DeleteAction (gvr_of r) ns n)"
| "delete_action ns r [VersionedParams (ListParams opts), Timeout t, Body b] =
     Some (DeleteCollectionAction (gvr_of r) ns opts)"
| "delete_action ns r _ = None"

fun patch_action :: "string \<Rightarrow> string \<Rightarrow> string \<Rightarrow> 'o rest_call list \<Rightarrow> fake_action option" where
  "patch_action pt ns r (Name n # SubResource subs # calls) =
     with_data (\<lambda>d. PatchSubresourceAction (gvr_of r) ns n pt d subs) calls"
| "patch_action pt ns r _ = None"

fun verb_action :: "rest_verb \<Rightarrow> string \<Rightarrow> string \<Rightarrow> 'o rest_call list \<Rightarrow> fake_action option" where
  "verb_action GetVerb = get_action"
| "verb_action PostVerb = post_action"
| "verb_action PutVerb = put_action"
| "verb_action DeleteVerb = delete_action"
| "verb_action (PatchVerb pt) = patch_action pt"

fun action_of :: "'o rest_request \<Rightarrow> fake_action option" where
  "action_of (verb, Namespace ns # Resource r # calls) = verb_action verb ns r calls"
| "action_of _ = None"

text \<open>
  A server that answers a request as the fake answers its action: an error leaves the object as it
  was, and a list is filtered by the label selector on the server.
\<close>

definition into :: "(api_object \<Rightarrow> 'a option) \<Rightarrow> 'a \<Rightarrow> 'w \<times> api_object option \<times> string option \<Rightarrow>
    'w \<times> 'a \<times> string option" where
  "into dec result = (\<lambda>(w, obj, err).
     (w, if err \<noteq> None then result else (case Option.bind obj dec of None \<Rightarrow> result | Some x \<Rightarrow> x), err))"

definition ask :: "('w, 'l, 'i) fake \<Rightarrow> 'o rest_request \<Rightarrow> api_object \<Rightarrow> 'w \<Rightarrow> 'w \<times> api_object option \<times> string option" where
  "ask f req d w = (case action_of req of None \<Rightarrow> (w, None, Some ''no action'') | Some a \<Rightarrow> fk_invokes f a d w)"

fun selected :: "('w, 'l, 'i) fake \<Rightarrow> 'o rest_request \<Rightarrow> 'l" where
  "selected f (verb, [Namespace ns, Resource r, VersionedParams (ListParams opts), Timeout t]) = list_label f opts"
| "selected f _ = fk_everything f"

fun oenuma_in :: "api_object \<Rightarrow> oenuma option" where
  "oenuma_in (OenumaObject x) = x" | "oenuma_in _ = None"

fun whitelist_in :: "api_object \<Rightarrow> whitelist option" where
  "whitelist_in (WhitelistObject x) = x" | "whitelist_in _ = None"

fun oenumas_in :: "(oenuma \<Rightarrow> bool) \<Rightarrow> api_object \<Rightarrow> oenuma_list option" where
  "oenumas_in keep (OenumaListObject (Some l)) = Some (l\<lparr>ol_items := filter keep (ol_items l)\<rparr>)"
| "oenumas_in keep _ = None"

fun whitelists_in :: "(whitelist \<Rightarrow> bool) \<Rightarrow> api_object \<Rightarrow> whitelist_list option" where
  "whitelists_in keep (WhitelistListObject (Some l)) = Some (l\<lparr>wll_items := filter keep (wll_items l)\<rparr>)"
| "whitelists_in keep _ = None"

definition server_of :: "('w, 'l, 'i) fake \<Rightarrow> ('w, 'o, 'i) rest_client" where
  "server_of f =
     \<lparr>rc_oenuma = (\<lambda>req x w. into oenuma_in x (ask f req (OenumaObject (Some x)) w)),
      rc_oenuma_list = (\<lambda>req x w. into (oenumas_in (fk_matchesOenuma f (selected f req))) x
        (ask f req (OenumaListObject (Some x)) w)),
      rc_whitelist = (\<lambda>req x w. into whitelist_in x (ask f req (WhitelistObject (Some x)) w)),
      rc_whitelist_list = (\<lambda>req x w. into (whitelists_in (fk_matchesWhitelist f (selected f req))) x
        (ask f req (WhitelistListObject (Some x)) w)),
      rc_error = (\<lambda>req w. case action_of req of None \<Rightarrow> (w, Some ''no action'')
        | Some a \<Rightarrow> (let (w1, obj, err) = fk_invokes f a
            (case a of DeleteCollectionAction r ns opts \<Rightarrow>
                (if r = oenumasResource then OenumaListObject (Some empty_oenuma_list)
                 else WhitelistListObject (Some empty_whitelist_list))
              | DeleteAction r ns n \<Rightarrow>
                (if r = oenumasResource then OenumaObject (Some empty_oenuma) else WhitelistObject (Some empty_whitelist))
              | _ \<Rightarrow> OenumaObject None) w in (w1, err))),
      rc_watch = (\<lambda>req w. case action_of req of None \<Rightarrow> (w, None, Some ''no action'')
        | Some a \<Rightarrow> fk_invokesWatch f a w)\<rparr>"

text \<open>
  What the testing library promises: without an error the answer is an object of the kind that was
  given as default, with an error there is none.
\<close>

definition same_kind :: "api_object \<Rightarrow> api_object \<Rightarrow> bool" where
  "same_kind d x \<longleftrightarrow>
     (case d of
        OenumaObject _ \<Rightarrow> (case x of OenumaObject y \<Rightarrow> y \<noteq> None | _ \<Rightarrow> False)
      | OenumaListObject _ \<Rightarrow> (case x of OenumaListObject y \<Rightarrow> y \<noteq> None | _ \<Rightarrow> False)
      | WhitelistObject _ \<Rightarrow> (case x of WhitelistObject y \<Rightarrow> y \<noteq> None | _ \<Rightarrow> False)
      | WhitelistListObject _ \<Rightarrow> (case x of WhitelistListObject y \<Rightarrow> y \<noteq> None | _ \<Rightarrow> False))"

definition keeps_kinds :: "('w, 'l, 'i) fake \<Rightarrow> bool" where
  "keeps_kinds f \<longleftrightarrow> (\<forall>a d w. case fk_invokes f a d w of
     (w1, obj, None) \<Rightarrow> (\<exists>x. obj = Some x \<and> same_kind d x) | (w1, obj, Some e) \<Rightarrow> obj = None)"

text \<open>
  The two clients agree: the same world and error, and without an error the same object. With an
  error the typed client returns an empty object and the fake client none.
\<close>

definition agree :: "('w \<times> 'a option \<times> string option) go \<Rightarrow> ('w \<times> 'a \<times> string option) go \<Rightarrow> bool" where
  "agree fr tr \<longleftrightarrow> (\<exists>w x y err. fr = Ok (w, x, err) \<and> tr = Ok (w, y, err)
     \<and> (if err = None then x = Some y else x = None))"

lemma agree_into:
  assumes "keeps_kinds f" and "action_of req = Some a"
    and "\<And>x. same_kind d x \<Longrightarrow> \<exists>y. dec x = Some y \<and> (\<forall>w. ret (w, Some x, None) = Ok (w, Some y, None))"
    and "\<And>w e. ret (w, None, Some e) = Ok (w, None, Some e)"
  shows "agree (ret (fk_invokes f a d w)) (Ok (into dec z (ask f req d w)))"
proof -
  obtain w1 obj err where I: "fk_invokes f a d w = (w1, obj, err)" by (cases "fk_invokes f a d w")
  have K: "case err of None \<Rightarrow> \<exists>x. obj = Some x \<and> same_kind d x | Some e \<Rightarrow> obj = None"
  proof -
    have "case fk_invokes f a d w of (w1, obj, None) \<Rightarrow> (\<exists>x. obj = Some x \<and> same_kind d x) | (w1, obj, Some e) \<Rightarrow> obj = None"
      by (rule spec [OF spec [OF spec [OF assms(1) [unfolded keeps_kinds_def], of a], of d], of w])
    then show ?thesis by (simp add: I split: option.splits)
  qed
  show ?thesis
  proof (cases err)
    case None
    with K obtain x where x: "obj = Some x" "same_kind d x" by auto
    with assms(3) [OF x(2)] None show ?thesis by (auto simp: I agree_def into_def ask_def assms(2))
  next
    case (Some e)
    with K show ?thesis by (auto simp: I agree_def into_def ask_def assms(2,4))
  qed
qed

lemmas typed_defs = through_def server_of_def gvr_of_def gvk_of_def post_action_def

lemma same_kind_object:
  "same_kind (OenumaObject (Some z)) x \<longleftrightarrow> (\<exists>y. x = OenumaObject (Some y))"
  "same_kind (OenumaListObject (Some zs)) x \<longleftrightarrow> (\<exists>ys. x = OenumaListObject (Some ys))"
  "same_kind (WhitelistObject (Some v)) x \<longleftrightarrow> (\<exists>y. x = WhitelistObject (Some y))"
  "same_kind (WhitelistListObject (Some vs)) x \<longleftrightarrow> (\<exists>ys. x = WhitelistListObject (Some ys))"
  by (auto simp: same_kind_def split: api_object.splits)

lemma unwatched: "\<not> lo_watch opts \<Longrightarrow> opts\<lparr>lo_watch := False\<rparr> = opts"
  by (cases opts) simp

lemma agree_oenuma:
  "keeps_kinds f \<Longrightarrow> action_of req = Some a \<Longrightarrow>
     agree (return_oenuma (fk_invokes f a (OenumaObject (Some z)) w))
       (Ok (into oenuma_in z (ask f req (OenumaObject (Some z)) w)))"
  by (rule agree_into) (auto simp: same_kind_object)

lemma agree_oenuma_list:
  "keeps_kinds f \<Longrightarrow> action_of req = Some a \<Longrightarrow>
     agree (return_oenuma_list keep (fk_invokes f a (OenumaListObject (Some z)) w))
       (Ok (into (oenumas_in keep) z (ask f req (OenumaListObject (Some z)) w)))"
  by (rule agree_into) (auto simp: same_kind_object)

lemma agree_whitelist:
  "keeps_kinds f \<Longrightarrow> action_of req = Some a \<Longrightarrow>
     agree (return_whitelist (fk_invokes f a (WhitelistObject (Some z)) w))
       (Ok (into whitelist_in z (ask f req (WhitelistObject (Some z)) w)))"
  by (rule agree_into) (auto simp: same_kind_object)

lemma agree_whitelist_list:
  "keeps_kinds f \<Longrightarrow> action_of req = Some a \<Longrightarrow>
     agree (return_whitelist_list keep (fk_invokes f a (WhitelistListObject (Some z)) w))
       (Ok (into (whitelists_in keep) z (ask f req (WhitelistListObject (Some z)) w)))"
  by (rule agree_into) (auto simp: same_kind_object)

text \<open>
  A fake client of oenumas answers as the typed client on the corresponding server: the same errors
  and effects, and without an error the same objects, lists filtered by labels.
\<close>

theorem fake_oenumas_agree:
  fixes f :: "('w, 'l, 'i) fake" and opts :: 'o
  assumes "keeps_kinds f" and "\<not> lo_watch lopts"
  shows "let c = fake_Oenumas (Some f) ns;
      t = \<lparr>os_client = Some (server_of f :: ('w, 'o, 'i) rest_client), os_ns = ns\<rparr>
    in agree (FakeOenumas_Get c name w) (oenumas_Get t name opts w)
     \<and> agree (FakeOenumas_List c lopts w) (oenumas_List t lopts w)
     \<and> FakeOenumas_Watch c lopts w = oenumas_Watch t lopts w
     \<and> agree (FakeOenumas_Create c obj w) (oenumas_Create t obj opts w)
     \<and> agree (FakeOenumas_Update c (Some x) w) (oenumas_Update t (Some x) opts w)
     \<and> agree (FakeOenumas_UpdateStatus c (Some x) w) (oenumas_UpdateStatus t (Some x) opts w)
     \<and> FakeOenumas_Delete c name w = oenumas_Delete t name opts w
     \<and> FakeOenumas_DeleteCollection c lopts w = oenumas_DeleteCollection t opts lopts w
     \<and> agree (FakeOenumas_Patch c name pt data subs w) (oenumas_Patch t name pt data opts subs w)"
proof -
  note D = fake_Oenumas_def typed_defs oenumasResource_def oenumasKind_def
  let ?c = "fake_Oenumas (Some f) ns"
  let ?t = "\<lparr>os_client = Some (server_of f :: ('w, 'o, 'i) rest_client), os_ns = ns\<rparr>"
  have get: "agree (FakeOenumas_Get ?c name w) (oenumas_Get ?t name opts w)"
    by (simp add: FakeOenumas_Get_def oenumas_Get_def D agree_oenuma assms(1))
  have list: "agree (FakeOenumas_List ?c lopts w) (oenumas_List ?t lopts w)"
    by (simp add: FakeOenumas_List_def oenumas_List_def D agree_oenuma_list assms)
  have watch: "FakeOenumas_Watch ?c lopts w = oenumas_Watch ?t lopts w"
    using assms(2) by (simp add: FakeOenumas_Watch_def oenumas_Watch_def D unwatched)
  have create: "agree (FakeOenumas_Create ?c obj w) (oenumas_Create ?t obj opts w)"
    by (simp add: FakeOenumas_Create_def oenumas_Create_def D agree_oenuma assms(1))
  have update: "agree (FakeOenumas_Update ?c (Some x) w) (oenumas_Update ?t (Some x) opts w)"
    by (simp add: FakeOenumas_Update_def oenumas_Update_def D agree_oenuma assms(1))
  have status: "agree (FakeOenumas_UpdateStatus ?c (Some x) w) (oenumas_UpdateStatus ?t (Some x) opts w)"
    by (simp add: FakeOenumas_UpdateStatus_def oenumas_UpdateStatus_def D agree_oenuma assms(1))
  have delete: "FakeOenumas_Delete ?c name w = oenumas_Delete ?t name opts w"
    by (simp add: FakeOenumas_Delete_def oenumas_Delete_def D)
  have collection: "FakeOenumas_DeleteCollection ?c lopts w = oenumas_DeleteCollection ?t opts lopts w"
    by (simp add: FakeOenumas_DeleteCollection_def oenumas_DeleteCollection_def D)
  have patch: "agree (FakeOenumas_Patch ?c name pt data subs w) (oenumas_Patch ?t name pt data opts subs w)"
    by (simp add: FakeOenumas_Patch_def oenumas_Patch_def D agree_oenuma assms(1))
  show ?thesis
    unfolding Let_def by (intro conjI get list watch create update status delete collection patch)
qed

text \<open>
  A fake client of whitelists answers as the typed client on the corresponding server: the same errors
  and effects, and without an error the same objects, lists filtered by labels.
\<close>

theorem fake_whitelists_agree:
  fixes f :: "('w, 'l, 'i) fake" and opts :: 'o
  assumes "keeps_kinds f" and "\<not> lo_watch lopts"
  shows "let c = fake_Whitelists (Some f) ns;
      t = \<lparr>ws_client = Some (server_of f :: ('w, 'o, 'i) rest_client), ws_ns = ns\<rparr>
    in agree (FakeWhitelists_Get c name w) (whitelists_Get t name opts w)
     \<and> agree (FakeWhitelists_List c lopts w) (whitelists_List t lopts w)
     \<and> FakeWhitelists_Watch c lopts w = whitelists_Watch t lopts w
     \<and> agree (FakeWhitelists_Create c obj w) (whitelists_Create t obj opts w)
     \<and> agree (FakeWhitelists_Update c (Some x) w) (whitelists_Update t (Some x) opts w)
     \<and> agree (FakeWhitelists_UpdateStatus c (Some x) w) (whitelists_UpdateStatus t (Some x) opts w)
     \<and> FakeWhitelists_Delete c name w = whitelists_Delete t name opts w
     \<and> FakeWhitelists_DeleteCollection c lopts w = whitelists_DeleteCollection t opts lopts w
     \<and> agree (FakeWhitelists_Patch c name pt data subs w) (whitelists_Patch t name pt data opts subs w)"
proof -
  note D = fake_Whitelists_def typed_defs whitelistsResource_def whitelistsKind_def oenumasResource_def
  let ?c = "fake_Whitelists (Some f) ns"
  let ?t = "\<lparr>ws_client = Some (server_of f :: ('w, 'o, 'i) rest_client), ws_ns = ns\<rparr>"
  have get: "agree (FakeWhitelists_Get ?c name w) (whitelists_Get ?t name opts w)"
    by (simp add: FakeWhitelists_Get_def whitelists_Get_def D agree_whitelist assms(1))
  have list: "agree (FakeWhitelists_List ?c lopts w) (whitelists_List ?t lopts w)"
    by (simp add: FakeWhitelists_List_def whitelists_List_def D agree_whitelist_list assms)
  have watch: "FakeWhitelists_Watch ?c lopts w = whitelists_Watch ?t lopts w"
    using assms(2) by (simp add: FakeWhitelists_Watch_def whitelists_Watch_def D unwatched)
  have create: "agree (FakeWhitelists_Create ?c obj w) (whitelists_Create ?t obj opts w)"
    by (simp add: FakeWhitelists_Create_def whitelists_Create_def D agree_whitelist assms(1))
  have update: "agree (FakeWhitelists_Update ?c (Some x) w) (whitelists_Update ?t (Some x) opts w)"
    by (simp add: FakeWhitelists_Update_def whitelists_Update_def D agree_whitelist assms(1))
  have status: "agree (FakeWhitelists_UpdateStatus ?c (Some x) w) (whitelists_UpdateStatus ?t (Some x) opts w)"
    by (simp add: FakeWhitelists_UpdateStatus_def whitelists_UpdateStatus_def D agree_whitelist assms(1))
  have delete: "FakeWhitelists_Delete ?c name w = whitelists_Delete ?t name opts w"
    by (simp add: FakeWhitelists_Delete_def whitelists_Delete_def D)
  have collection: "FakeWhitelists_DeleteCollection ?c lopts w = whitelists_DeleteCollection ?t opts lopts w"
    by (simp add: FakeWhitelists_DeleteCollection_def whitelists_DeleteCollection_def D)
  have patch: "agree (FakeWhitelists_Patch ?c name pt data subs w) (whitelists_Patch ?t name pt data opts subs w)"
    by (simp add: FakeWhitelists_Patch_def whitelists_Patch_def D agree_whitelist assms(1))
  show ?thesis
    unfolding Let_def by (intro conjI get list watch create update status delete collection patch)
qed

section \<open>A concrete fake\<close>

text \<open>A tracker of oenumas by name that knows how to get and create.\<close>

definition sample_fake :: "(oenuma list, string, unit) fake" where
  "sample_fake =
     \<lparr>fk_invokes = (\<lambda>a d w. case a of
        GetAction r ns name \<Rightarrow> (case find (\<lambda>x. om_name (oe_meta x) = name) w of
            Some x \<Rightarrow> if same_kind d (OenumaObject (Some x)) then (w, Some (OenumaObject (Some x)), None)
                      else (w, None, Some ''kind'')
          | None \<Rightarrow> (w, None, Some ''not found''))
      | CreateAction r ns (OenumaObject (Some x)) \<Rightarrow>
          if same_kind d (OenumaObject (Some x)) then (w @ [x], Some (OenumaObject (Some x)), None)
          else (w, None, Some ''kind'')
      | _ \<Rightarrow> (w, None, Some ''unsupported'')),
      fk_invokesWatch = (\<lambda>a w. (w, Some (), None)), fk_label = (\<lambda>opts. None), fk_everything = [],
      fk_matchesOenuma = (\<lambda>l x. True), fk_matchesWhitelist = (\<lambda>l x. True)\<rparr>"

lemma sample_fake_kinds: "keeps_kinds sample_fake"
  by (simp add: keeps_kinds_def sample_fake_def split: fake_action.split api_object.split option.split)

definition no_options :: list_options where
  "no_options = \<lparr>lo_labelSelector = [], lo_fieldSelector = [], lo_resourceVersion = [], lo_watch = False,
     lo_timeoutSeconds = None\<rparr>"

lemma fake_oenumas_agree_witness:
  "agree (FakeOenumas_Get (fake_Oenumas (Some sample_fake) ''ns'') [] [empty_oenuma])
     (oenumas_Get \<lparr>os_client = Some (server_of sample_fake), os_ns = ''ns''\<rparr> [] () [empty_oenuma])
   \<and> FakeOenumas_Get (fake_Oenumas (Some sample_fake) ''ns'') [] [empty_oenuma] =
     Ok ([empty_oenuma], Some empty_oenuma, None)"
proof -
  have "\<not> lo_watch no_options" by (simp add: no_options_def)
  from fake_oenumas_agree [OF sample_fake_kinds this, of "''ns''" "[]" "[empty_oenuma]" "()"]
  have "agree (FakeOenumas_Get (fake_Oenumas (Some sample_fake) ''ns'') [] [empty_oenuma])
     (oenumas_Get \<lparr>os_client = Some (server_of sample_fake), os_ns = ''ns''\<rparr> [] () [empty_oenuma])"
    unfolding Let_def by blast
  moreover have "FakeOenumas_Get (fake_Oenumas (Some sample_fake) ''ns'') [] [empty_oenuma] =
     Ok ([empty_oenuma], Some empty_oenuma, None)"
    by code_simp
  ultimately show ?thesis by blast
qed

end
