(* ===== verification/Schemes.thy ===== *)
theory Schemes
  imports FakeClients
begin

text \<open>
  The registration of the resource types: the \<^verbatim>\<open>register.go\<close> of \<open>pkg/apis/resaware\<close>,
  \<open>pkg/apis/resaware/v1alpha1\<close>, \<open>pkg/apis/numaadj/v1alpha1\<close> and \<open>pkg/apis/whitelist/v1alpha1\<close>, and
  the two schemes of the generated clients, \<open>scheme/register.go\<close> and \<open>fake/register.go\<close>. A scheme
  is the library's: what its operations do is a parameter, and a hypothesis where it matters.
\<close>

section \<open>The library\<close>

text \<open>A Go type by its package and name, which is also its kind.\<close>

record go_type =
  gt_package :: string
  gt_name :: string

text \<open>
  \<^verbatim>\<open>AddKnownTypes\<close> and \<^verbatim>\<open>AddToGroupVersion\<close> may panic; a scheme builder runs its functions;
  \<open>sl_knows\<close> is whether \<^verbatim>\<open>ObjectKinds\<close> finds a kind for a type.
\<close>

record 's scheme_lib =
  sl_new :: 's
  sl_addKnownTypes :: "string \<times> string \<Rightarrow> go_type list \<Rightarrow> 's \<Rightarrow> 's go"
  sl_addToGroupVersion :: "string \<times> string \<Rightarrow> 's \<Rightarrow> 's go"
  sl_addToScheme :: "('s \<Rightarrow> 's go) list \<Rightarrow> 's \<Rightarrow> 's go"
  sl_knows :: "'s \<Rightarrow> go_type \<Rightarrow> bool"

definition resource_type :: "string \<Rightarrow> string \<Rightarrow> go_type" where
  "resource_type package name = \<lparr>gt_package = ''numaadj.huawei.com/pkg/apis/'' @ package, gt_name = name\<rparr>"

section \<open>The registrations\<close>

definition v1alpha1_addKnownTypes :: "'s scheme_lib \<Rightarrow> 's \<Rightarrow> 's go" where
  "v1alpha1_addKnownTypes lib scheme =
     go_bind (sl_addKnownTypes lib SchemeGroupVersion
       [resource_type ''resaware/v1alpha1'' ''Oenuma'', resource_type ''resaware/v1alpha1'' ''OenumaList''] scheme)
     (sl_addToGroupVersion lib SchemeGroupVersion)"

definition v1alpha1_AddToScheme :: "'s scheme_lib \<Rightarrow> 's \<Rightarrow> 's go" where
  "v1alpha1_AddToScheme lib = sl_addToScheme lib [v1alpha1_addKnownTypes lib]"

definition resaware_addKnownTypes :: "'s scheme_lib \<Rightarrow> 's \<Rightarrow> 's go" where
  "resaware_addKnownTypes lib scheme =
     go_bind (sl_addKnownTypes lib (''resource.sop.huawei.com'', ''v1alpha1'')
       [resource_type ''resaware/v1alpha1'' ''Whitelist'', resource_type ''resaware/v1alpha1'' ''WhitelistList'',
        resource_type ''resaware/v1alpha1'' ''Oenuma'', resource_type ''resaware/v1alpha1'' ''OenumaList''] scheme)
     (sl_addToGroupVersion lib (''resource.sop.huawei.com'', ''v1alpha1''))"

definition resaware_AddToScheme :: "'s scheme_lib \<Rightarrow> 's \<Rightarrow> 's go" where
  "resaware_AddToScheme lib = sl_addToScheme lib [resaware_addKnownTypes lib]"

definition numaadj_addKnownTypes :: "'s scheme_lib \<Rightarrow> 's \<Rightarrow> 's go" where
  "numaadj_addKnownTypes lib scheme =
     go_bind (sl_addKnownTypes lib (''resource.sop.huawei.com'', ''v1alpha1'')
       [resource_type ''numaadj/v1alpha1'' ''Oenuma'', resource_type ''numaadj/v1alpha1'' ''OenumaList''] scheme)
     (sl_addToGroupVersion lib (''resource.sop.huawei.com'', ''v1alpha1''))"

definition whitelist_addKnownTypes :: "'s scheme_lib \<Rightarrow> 's \<Rightarrow> 's go" where
  "whitelist_addKnownTypes lib scheme =
     go_bind (sl_addKnownTypes lib (''resource.sop.huawei.com'', ''v1alpha1'')
       [resource_type ''whitelist/v1alpha1'' ''Whitelist'', resource_type ''whitelist/v1alpha1'' ''WhitelistList''] scheme)
     (sl_addToGroupVersion lib (''resource.sop.huawei.com'', ''v1alpha1''))"

text \<open>\<^verbatim>\<open>utilruntime.Must\<close> panics on an error.\<close>

definition scheme_must :: "'s go \<Rightarrow> 's go" where
  "scheme_must r = (case r of Err e \<Rightarrow> Panic (PanicError e) | _ \<Rightarrow> r)"

definition clientset_Scheme :: "'s scheme_lib \<Rightarrow> 's go" where
  "clientset_Scheme lib =
     go_bind (sl_addToGroupVersion lib ('''', ''v1'') (sl_new lib)) (\<lambda>scheme.
       scheme_must (sl_addToScheme lib [v1alpha1_AddToScheme lib] scheme))"

definition fake_scheme :: "'s scheme_lib \<Rightarrow> 's go" where
  "fake_scheme lib =
     go_bind (sl_addToGroupVersion lib ('''', ''v1'') (sl_new lib)) (\<lambda>scheme.
       scheme_must (sl_addToScheme lib [v1alpha1_AddToScheme lib] scheme))"

section \<open>What the schemes know\<close>

text \<open>
  The library as documented: a new scheme knows nothing; known types are added to what is known;
  a group version adds types of the metadata package only; a builder runs its functions in order.
\<close>

definition registers_types :: "'s scheme_lib \<Rightarrow> bool" where
  "registers_types lib \<longleftrightarrow>
     (\<forall>t. \<not> sl_knows lib (sl_new lib) t)
   \<and> (\<forall>gv ts s s1 t. sl_addKnownTypes lib gv ts s = Ok s1 \<longrightarrow> sl_knows lib s1 t = (sl_knows lib s t \<or> t \<in> set ts))
   \<and> (\<forall>gv s s1 t. sl_addToGroupVersion lib gv s = Ok s1 \<longrightarrow> gt_package t \<noteq> ''k8s.io/apimachinery/pkg/apis/meta/v1'' \<longrightarrow>
        sl_knows lib s1 t = sl_knows lib s t)
   \<and> (\<forall>fs s. sl_addToScheme lib fs s = go_for (\<lambda>f. f) fs s)"

lemma addKnownTypes_knows:
  assumes "registers_types lib" and "gt_package t \<noteq> ''k8s.io/apimachinery/pkg/apis/meta/v1''"
    and "go_bind (sl_addKnownTypes lib gv ts s) (sl_addToGroupVersion lib gv') = Ok s1"
  shows "sl_knows lib s1 t \<longleftrightarrow> sl_knows lib s t \<or> t \<in> set ts"
proof -
  obtain s0 where "sl_addKnownTypes lib gv ts s = Ok s0" "sl_addToGroupVersion lib gv' s0 = Ok s1"
    using assms(3) by (elim go_bind_OkE)
  with assms(1,2) have "sl_knows lib s0 t \<longleftrightarrow> sl_knows lib s t \<or> t \<in> set ts" "sl_knows lib s1 t = sl_knows lib s0 t"
    unfolding registers_types_def by blast+
  then show ?thesis by blast
qed

lemma scheme_knows:
  assumes "registers_types lib" and "gt_package t \<noteq> ''k8s.io/apimachinery/pkg/apis/meta/v1''"
    and "clientset_Scheme lib = Ok s \<or> fake_scheme lib = Ok s"
  shows "sl_knows lib s t \<longleftrightarrow> t \<in> {resource_type ''resaware/v1alpha1'' ''Oenuma'', resource_type ''resaware/v1alpha1'' ''OenumaList''}"
proof -
  obtain s0 where s0: "sl_addToGroupVersion lib ('''', ''v1'') (sl_new lib) = Ok s0"
    "scheme_must (sl_addToScheme lib [v1alpha1_AddToScheme lib] s0) = Ok s"
    using assms(3) by (auto simp: clientset_Scheme_def fake_scheme_def elim: go_bind_OkE)
  have run: "sl_addToScheme lib [f] s = f s" for f s
    using assms(1) by (cases "f s") (simp_all add: registers_types_def)
  have "v1alpha1_addKnownTypes lib s0 = Ok s"
    using s0(2) by (auto simp: scheme_must_def run v1alpha1_AddToScheme_def split: go.split_asm)
  then have "sl_knows lib s t \<longleftrightarrow> sl_knows lib s0 t \<or>
      t \<in> set [resource_type ''resaware/v1alpha1'' ''Oenuma'', resource_type ''resaware/v1alpha1'' ''OenumaList'']"
    unfolding v1alpha1_addKnownTypes_def by (rule addKnownTypes_knows [OF assms(1,2)])
  moreover have "\<not> sl_knows lib s0 t"
    using assms(1,2) s0(1) unfolding registers_types_def by blast
  ultimately show ?thesis by simp
qed

text \<open>
  Of the types of the resource packages, the schemes of the generated clients know the Oenuma and
  its list and no other: not the Whitelist, for which the same code has clients, informers and
  listers. The registration that has all four is not the one that the schemes use.
\<close>

theorem schemes_lack_whitelist:
  assumes "registers_types lib" and "clientset_Scheme lib = Ok s \<or> fake_scheme lib = Ok s"
  shows "sl_knows lib s (resource_type package name) \<longleftrightarrow>
    package = ''resaware/v1alpha1'' \<and> (name = ''Oenuma'' \<or> name = ''OenumaList'')"
  by (subst scheme_knows [OF assms(1) _ assms(2)]) (auto simp: resource_type_def)

text \<open>What the object tracker of the testing library is given; it refuses a type without a kind.\<close>

fun object_type :: "api_object \<Rightarrow> go_type" where
  "object_type (OenumaObject _) = resource_type ''resaware/v1alpha1'' ''Oenuma''"
| "object_type (OenumaListObject _) = resource_type ''resaware/v1alpha1'' ''OenumaList''"
| "object_type (WhitelistObject _) = resource_type ''resaware/v1alpha1'' ''Whitelist''"
| "object_type (WhitelistListObject _) = resource_type ''resaware/v1alpha1'' ''WhitelistList''"

definition tracks_kinds :: "'s scheme_lib \<Rightarrow> 's \<Rightarrow> ('t \<Rightarrow> api_object \<Rightarrow> 't \<times> string option) \<Rightarrow> bool" where
  "tracks_kinds lib s add \<longleftrightarrow> (\<forall>o1 obj. \<not> sl_knows lib s (object_type obj) \<longrightarrow> snd (add o1 obj) \<noteq> None)"

text \<open>
  So the clientset for tests cannot be made with a whitelist in it: its constructor panics,
  whatever the other objects are.
\<close>

theorem NewSimpleClientset_whitelist_panics:
  assumes "registers_types lib" and "fake_scheme lib = Ok s" and "tracks_kinds lib s add"
    and "WhitelistObject x \<in> set objects"
  shows "go_is_panic (NewSimpleClientset add tracker objects)"
proof -
  have bad: "snd (add o1 (WhitelistObject x)) \<noteq> None" for o1
  proof -
    have "\<not> sl_knows lib s (object_type (WhitelistObject x))"
      by (subst object_type.simps, subst scheme_knows [OF assms(1) _ disjI2 [OF assms(2)]])
        (simp_all add: resource_type_def)
    with assms(3) show ?thesis by (simp add: tracks_kinds_def)
  qed
  have "go_is_panic (go_for (\<lambda>obj o1. case add o1 obj of (o2, None) \<Rightarrow> Ok o2 | (o2, Some e) \<Rightarrow> Panic (PanicError e)) objects o1)"
    for o1
    using assms(4)
  proof (induction objects arbitrary: o1)
    case (Cons obj objects)
    show ?case
    proof (cases "obj = WhitelistObject x")
      case True
      then show ?thesis using bad [of o1] by (cases "add o1 obj") (auto split: option.split)
    next
      case False
      obtain o2 e where "add o1 obj = (o2, e)" by fastforce
      with Cons False show ?thesis by (cases e) auto
    qed
  qed simp
  from this [of tracker] show ?thesis
    by (cases "go_for (\<lambda>obj o1. case add o1 obj of (o2, None) \<Rightarrow> Ok o2 | (o2, Some e) \<Rightarrow> Panic (PanicError e)) objects tracker")
      (auto simp: NewSimpleClientset_def)
qed

text \<open>A library that keeps the types in a list, and a tracker over it.\<close>

definition list_lib :: "go_type list scheme_lib" where
  "list_lib = \<lparr>sl_new = [], sl_addKnownTypes = (\<lambda>gv ts s. Ok (s @ ts)), sl_addToGroupVersion = (\<lambda>gv s. Ok s),
     sl_addToScheme = go_for (\<lambda>f. f), sl_knows = (\<lambda>s t. t \<in> set s)\<rparr>"

lemma list_lib_registers: "registers_types list_lib"
  by (auto simp: registers_types_def list_lib_def)

definition list_scheme :: "go_type list" where
  "list_scheme = [resource_type ''resaware/v1alpha1'' ''Oenuma'', resource_type ''resaware/v1alpha1'' ''OenumaList'']"

lemma list_lib_scheme: "clientset_Scheme list_lib = Ok list_scheme" "fake_scheme list_lib = Ok list_scheme"
  by code_simp+

theorem schemes_lack_whitelist_witness:
  "\<not> sl_knows list_lib list_scheme (resource_type ''resaware/v1alpha1'' ''Whitelist'')
   \<and> sl_knows list_lib list_scheme (resource_type ''resaware/v1alpha1'' ''Oenuma'')"
  unfolding schemes_lack_whitelist [OF list_lib_registers disjI1 [OF list_lib_scheme(1)]] by simp

theorem NewSimpleClientset_whitelist_panics_witness:
  "go_is_panic (NewSimpleClientset
     (\<lambda>o1 obj. if object_type obj \<in> set list_scheme then (o1 @ [obj], None) else (o1, Some ''no kind is registered''))
     [] [OenumaObject None, WhitelistObject None])"
  by (rule NewSimpleClientset_whitelist_panics [OF list_lib_registers list_lib_scheme(2)])
    (auto simp: tracks_kinds_def list_lib_def)

end
