(* ===== verification/CopiedTypes.thy ===== *)
theory CopiedTypes
  imports DeepCopies
begin

text \<open>
  The resource types exist twice: \<open>pkg/apis/numaadj/v1alpha1\<close> has the Oenuma and
  \<open>pkg/apis/whitelist/v1alpha1\<close> the Whitelist once more, field by field the structs of
  \<open>pkg/apis/resaware/v1alpha1\<close>, with generated copies of their own. No package imports them. Their
  copies are translated here from their own files, over the same records, and shown to be the ones
  of \<^verbatim>\<open>DeepCopies\<close>, so that the contract of a copier holds of them.
\<close>

named_theorems copy_equations \<open>a second copy function and the first one\<close>

section \<open>pkg/apis/numaadj/v1alpha1\<close>

definition numaadj_Container_DeepCopyInto :: "container \<Rightarrow> heap \<Rightarrow> container \<times> heap" where
  "numaadj_Container_DeepCopyInto x h = (x, h)"

definition numaadj_Container_DeepCopy :: "container option \<Rightarrow> heap \<Rightarrow> container option \<times> heap" where
  "numaadj_Container_DeepCopy = new_copy numaadj_Container_DeepCopyInto"

definition numaadj_Numa_DeepCopyInto :: "numa \<Rightarrow> heap \<Rightarrow> numa \<times> heap" where
  "numaadj_Numa_DeepCopyInto x h = (x, h)"

definition numaadj_Numa_DeepCopy :: "numa option \<Rightarrow> heap \<Rightarrow> numa option \<times> heap" where
  "numaadj_Numa_DeepCopy = new_copy numaadj_Numa_DeepCopyInto"

definition numaadj_PodAffinity_DeepCopyInto :: "h_affinity \<Rightarrow> heap \<Rightarrow> h_affinity \<times> heap" where
  "numaadj_PodAffinity_DeepCopyInto =
     copy_field ha_containers (\<lambda>s x. x\<lparr>ha_containers := s\<rparr>) (copy_plain Containers un_containers)"

definition numaadj_PodAffinity_DeepCopy :: "h_affinity option \<Rightarrow> heap \<Rightarrow> h_affinity option \<times> heap" where
  "numaadj_PodAffinity_DeepCopy = new_copy numaadj_PodAffinity_DeepCopyInto"

definition numaadj_Node_DeepCopyInto :: "h_node \<Rightarrow> heap \<Rightarrow> h_node \<times> heap" where
  "numaadj_Node_DeepCopyInto x h =
     (let (numas, h1) = copy_plain Numas un_numas (hn_numa x) h;
          (affinities, h2) =
            copy_slice Affinities un_affinities zero_affinity numaadj_PodAffinity_DeepCopyInto (hn_affinity x) h1
      in (x\<lparr>hn_numa := numas, hn_affinity := affinities\<rparr>, h2))"

definition numaadj_Node_DeepCopy :: "h_node option \<Rightarrow> heap \<Rightarrow> h_node option \<times> heap" where
  "numaadj_Node_DeepCopy = new_copy numaadj_Node_DeepCopyInto"

definition numaadj_OenumaSpec_DeepCopyInto :: "h_oenuma_spec \<Rightarrow> heap \<Rightarrow> h_oenuma_spec \<times> heap" where
  "numaadj_OenumaSpec_DeepCopyInto =
     copy_field hs_node (\<lambda>s x. x\<lparr>hs_node := s\<rparr>) (copy_slice Nodes un_nodes zero_node numaadj_Node_DeepCopyInto)"

definition numaadj_OenumaSpec_DeepCopy :: "h_oenuma_spec option \<Rightarrow> heap \<Rightarrow> h_oenuma_spec option \<times> heap" where
  "numaadj_OenumaSpec_DeepCopy = new_copy numaadj_OenumaSpec_DeepCopyInto"

definition numaadj_Oenuma_DeepCopyInto :: "h_oenuma \<Rightarrow> heap \<Rightarrow> h_oenuma \<times> heap" where
  "numaadj_Oenuma_DeepCopyInto = copy_field ho_spec (\<lambda>s x. x\<lparr>ho_spec := s\<rparr>) numaadj_OenumaSpec_DeepCopyInto"

definition numaadj_Oenuma_DeepCopy :: "h_oenuma option \<Rightarrow> heap \<Rightarrow> h_oenuma option \<times> heap" where
  "numaadj_Oenuma_DeepCopy = new_copy numaadj_Oenuma_DeepCopyInto"

definition numaadj_Oenuma_DeepCopyObject :: "h_oenuma option \<Rightarrow> heap \<Rightarrow> runtime_object option \<times> heap" where
  "numaadj_Oenuma_DeepCopyObject x h = as_object OenumaObject (numaadj_Oenuma_DeepCopy x h)"

definition numaadj_OenumaList_DeepCopyInto :: "h_list \<Rightarrow> heap \<Rightarrow> h_list \<times> heap" where
  "numaadj_OenumaList_DeepCopyInto =
     copy_field hi_items (\<lambda>s x. x\<lparr>hi_items := s\<rparr>) (copy_slice Oenumas un_oenumas zero_oenuma numaadj_Oenuma_DeepCopyInto)"

definition numaadj_OenumaList_DeepCopy :: "h_list option \<Rightarrow> heap \<Rightarrow> h_list option \<times> heap" where
  "numaadj_OenumaList_DeepCopy = new_copy numaadj_OenumaList_DeepCopyInto"

definition numaadj_OenumaList_DeepCopyObject :: "h_list option \<Rightarrow> heap \<Rightarrow> runtime_object option \<times> heap" where
  "numaadj_OenumaList_DeepCopyObject x h = as_object OenumaListObject (numaadj_OenumaList_DeepCopy x h)"

section \<open>pkg/apis/whitelist/v1alpha1\<close>

definition whitelist_TargetPod_DeepCopyInto :: "h_target \<Rightarrow> heap \<Rightarrow> h_target \<times> heap" where
  "whitelist_TargetPod_DeepCopyInto = copy_field ht_names (\<lambda>s x. x\<lparr>ht_names := s\<rparr>) (copy_plain Names un_names)"

definition whitelist_TargetPod_DeepCopy :: "h_target option \<Rightarrow> heap \<Rightarrow> h_target option \<times> heap" where
  "whitelist_TargetPod_DeepCopy = new_copy whitelist_TargetPod_DeepCopyInto"

definition whitelist_WhitelistSpec_DeepCopyInto :: "h_whitelist_spec \<Rightarrow> heap \<Rightarrow> h_whitelist_spec \<times> heap" where
  "whitelist_WhitelistSpec_DeepCopyInto =
     copy_field hw_targets (\<lambda>s x. x\<lparr>hw_targets := s\<rparr>)
       (copy_slice Targets un_targets zero_target whitelist_TargetPod_DeepCopyInto)"

definition whitelist_WhitelistSpec_DeepCopy ::
    "h_whitelist_spec option \<Rightarrow> heap \<Rightarrow> h_whitelist_spec option \<times> heap" where
  "whitelist_WhitelistSpec_DeepCopy = new_copy whitelist_WhitelistSpec_DeepCopyInto"

definition whitelist_Whitelist_DeepCopyInto :: "h_whitelist \<Rightarrow> heap \<Rightarrow> h_whitelist \<times> heap" where
  "whitelist_Whitelist_DeepCopyInto = copy_field hl_spec (\<lambda>s x. x\<lparr>hl_spec := s\<rparr>) whitelist_WhitelistSpec_DeepCopyInto"

definition whitelist_Whitelist_DeepCopy :: "h_whitelist option \<Rightarrow> heap \<Rightarrow> h_whitelist option \<times> heap" where
  "whitelist_Whitelist_DeepCopy = new_copy whitelist_Whitelist_DeepCopyInto"

definition whitelist_Whitelist_DeepCopyObject :: "h_whitelist option \<Rightarrow> heap \<Rightarrow> runtime_object option \<times> heap" where
  "whitelist_Whitelist_DeepCopyObject x h = as_object WhitelistObject (whitelist_Whitelist_DeepCopy x h)"

definition whitelist_WhitelistList_DeepCopyInto :: "h_list \<Rightarrow> heap \<Rightarrow> h_list \<times> heap" where
  "whitelist_WhitelistList_DeepCopyInto =
     copy_field hi_items (\<lambda>s x. x\<lparr>hi_items := s\<rparr>)
       (copy_slice Whitelists un_whitelists zero_whitelist whitelist_Whitelist_DeepCopyInto)"

definition whitelist_WhitelistList_DeepCopy :: "h_list option \<Rightarrow> heap \<Rightarrow> h_list option \<times> heap" where
  "whitelist_WhitelistList_DeepCopy = new_copy whitelist_WhitelistList_DeepCopyInto"

definition whitelist_WhitelistList_DeepCopyObject :: "h_list option \<Rightarrow> heap \<Rightarrow> runtime_object option \<times> heap" where
  "whitelist_WhitelistList_DeepCopyObject x h = as_object WhitelistListObject (whitelist_WhitelistList_DeepCopy x h)"

section \<open>The second copies are the first\<close>

lemma numaadj_Container_DeepCopyInto_eq [copy_equations]: "numaadj_Container_DeepCopyInto = Container_DeepCopyInto"
  by (rule ext)+ (simp add: numaadj_Container_DeepCopyInto_def Container_DeepCopyInto_def copy_equations)

lemma numaadj_Container_DeepCopy_eq [copy_equations]: "numaadj_Container_DeepCopy = Container_DeepCopy"
  by (simp add: numaadj_Container_DeepCopy_def Container_DeepCopy_def copy_equations)

lemma numaadj_Numa_DeepCopyInto_eq [copy_equations]: "numaadj_Numa_DeepCopyInto = Numa_DeepCopyInto"
  by (rule ext)+ (simp add: numaadj_Numa_DeepCopyInto_def Numa_DeepCopyInto_def copy_equations)

lemma numaadj_Numa_DeepCopy_eq [copy_equations]: "numaadj_Numa_DeepCopy = Numa_DeepCopy"
  by (simp add: numaadj_Numa_DeepCopy_def Numa_DeepCopy_def copy_equations)

lemma numaadj_PodAffinity_DeepCopyInto_eq [copy_equations]: "numaadj_PodAffinity_DeepCopyInto = PodAffinity_DeepCopyInto"
  by (simp add: numaadj_PodAffinity_DeepCopyInto_def PodAffinity_DeepCopyInto_def copy_equations)

lemma numaadj_PodAffinity_DeepCopy_eq [copy_equations]: "numaadj_PodAffinity_DeepCopy = PodAffinity_DeepCopy"
  by (simp add: numaadj_PodAffinity_DeepCopy_def PodAffinity_DeepCopy_def copy_equations)

lemma numaadj_Node_DeepCopyInto_eq [copy_equations]: "numaadj_Node_DeepCopyInto = Node_DeepCopyInto"
  by (rule ext)+ (simp add: numaadj_Node_DeepCopyInto_def Node_DeepCopyInto_def copy_equations)

lemma numaadj_Node_DeepCopy_eq [copy_equations]: "numaadj_Node_DeepCopy = Node_DeepCopy"
  by (simp add: numaadj_Node_DeepCopy_def Node_DeepCopy_def copy_equations)

lemma numaadj_OenumaSpec_DeepCopyInto_eq [copy_equations]: "numaadj_OenumaSpec_DeepCopyInto = OenumaSpec_DeepCopyInto"
  by (simp add: numaadj_OenumaSpec_DeepCopyInto_def OenumaSpec_DeepCopyInto_def copy_equations)

lemma numaadj_OenumaSpec_DeepCopy_eq [copy_equations]: "numaadj_OenumaSpec_DeepCopy = OenumaSpec_DeepCopy"
  by (simp add: numaadj_OenumaSpec_DeepCopy_def OenumaSpec_DeepCopy_def copy_equations)

lemma numaadj_Oenuma_DeepCopyInto_eq [copy_equations]: "numaadj_Oenuma_DeepCopyInto = Oenuma_DeepCopyInto"
  by (simp add: numaadj_Oenuma_DeepCopyInto_def Oenuma_DeepCopyInto_def copy_equations)

lemma numaadj_Oenuma_DeepCopy_eq [copy_equations]: "numaadj_Oenuma_DeepCopy = Oenuma_DeepCopy"
  by (simp add: numaadj_Oenuma_DeepCopy_def Oenuma_DeepCopy_def copy_equations)

lemma numaadj_Oenuma_DeepCopyObject_eq [copy_equations]: "numaadj_Oenuma_DeepCopyObject = Oenuma_DeepCopyObject"
  by (rule ext)+ (simp add: numaadj_Oenuma_DeepCopyObject_def Oenuma_DeepCopyObject_def copy_equations)

lemma numaadj_OenumaList_DeepCopyInto_eq [copy_equations]: "numaadj_OenumaList_DeepCopyInto = OenumaList_DeepCopyInto"
  by (simp add: numaadj_OenumaList_DeepCopyInto_def OenumaList_DeepCopyInto_def copy_equations)

lemma numaadj_OenumaList_DeepCopy_eq [copy_equations]: "numaadj_OenumaList_DeepCopy = OenumaList_DeepCopy"
  by (simp add: numaadj_OenumaList_DeepCopy_def OenumaList_DeepCopy_def copy_equations)

lemma numaadj_OenumaList_DeepCopyObject_eq [copy_equations]: "numaadj_OenumaList_DeepCopyObject = OenumaList_DeepCopyObject"
  by (rule ext)+ (simp add: numaadj_OenumaList_DeepCopyObject_def OenumaList_DeepCopyObject_def copy_equations)

lemma whitelist_TargetPod_DeepCopyInto_eq [copy_equations]: "whitelist_TargetPod_DeepCopyInto = TargetPod_DeepCopyInto"
  by (simp add: whitelist_TargetPod_DeepCopyInto_def TargetPod_DeepCopyInto_def copy_equations)

lemma whitelist_TargetPod_DeepCopy_eq [copy_equations]: "whitelist_TargetPod_DeepCopy = TargetPod_DeepCopy"
  by (simp add: whitelist_TargetPod_DeepCopy_def TargetPod_DeepCopy_def copy_equations)

lemma whitelist_WhitelistSpec_DeepCopyInto_eq [copy_equations]: "whitelist_WhitelistSpec_DeepCopyInto = WhitelistSpec_DeepCopyInto"
  by (simp add: whitelist_WhitelistSpec_DeepCopyInto_def WhitelistSpec_DeepCopyInto_def copy_equations)

lemma whitelist_WhitelistSpec_DeepCopy_eq [copy_equations]: "whitelist_WhitelistSpec_DeepCopy = WhitelistSpec_DeepCopy"
  by (simp add: whitelist_WhitelistSpec_DeepCopy_def WhitelistSpec_DeepCopy_def copy_equations)

lemma whitelist_Whitelist_DeepCopyInto_eq [copy_equations]: "whitelist_Whitelist_DeepCopyInto = Whitelist_DeepCopyInto"
  by (simp add: whitelist_Whitelist_DeepCopyInto_def Whitelist_DeepCopyInto_def copy_equations)

lemma whitelist_Whitelist_DeepCopy_eq [copy_equations]: "whitelist_Whitelist_DeepCopy = Whitelist_DeepCopy"
  by (simp add: whitelist_Whitelist_DeepCopy_def Whitelist_DeepCopy_def copy_equations)

lemma whitelist_Whitelist_DeepCopyObject_eq [copy_equations]: "whitelist_Whitelist_DeepCopyObject = Whitelist_DeepCopyObject"
  by (rule ext)+ (simp add: whitelist_Whitelist_DeepCopyObject_def Whitelist_DeepCopyObject_def copy_equations)

lemma whitelist_WhitelistList_DeepCopyInto_eq [copy_equations]: "whitelist_WhitelistList_DeepCopyInto = WhitelistList_DeepCopyInto"
  by (simp add: whitelist_WhitelistList_DeepCopyInto_def WhitelistList_DeepCopyInto_def copy_equations)

lemma whitelist_WhitelistList_DeepCopy_eq [copy_equations]: "whitelist_WhitelistList_DeepCopy = WhitelistList_DeepCopy"
  by (simp add: whitelist_WhitelistList_DeepCopy_def WhitelistList_DeepCopy_def copy_equations)

lemma whitelist_WhitelistList_DeepCopyObject_eq [copy_equations]: "whitelist_WhitelistList_DeepCopyObject = WhitelistList_DeepCopyObject"
  by (rule ext)+ (simp add: whitelist_WhitelistList_DeepCopyObject_def WhitelistList_DeepCopyObject_def copy_equations)

text \<open>
  The copy of a list of the second Oenuma type shows the same content and shares no array with
  the original, as that of the first does.
\<close>

theorem second_oenuma_copy_isolated:
  assumes "oenumas_valid h x" and "numaadj_OenumaList_DeepCopyInto x h = (y, h')"
  shows "oenumas_view h' y = oenumas_view h x
    \<and> (\<forall>a c. a \<in> oenumas_locs h' y \<longrightarrow> oenumas_view (h'[a := c]) x = oenumas_view h x)"
proof -
  from assms(2) have "OenumaList_DeepCopyInto x h = (y, h')" by (simp only: copy_equations)
  from oenuma_list.struct.isolated
      [OF assms(1) [unfolded oenumas_valid_def] this [unfolded OenumaList_DeepCopyInto_def]]
  show ?thesis unfolding oenumas_view_def oenumas_locs_def by blast
qed

text \<open>
  An object of a second type handed out by an informer's cache is copied as one of the first is:
  the functions of the two packages agree.
\<close>

theorem second_objects_copied_alike:
  "numaadj_OenumaList_DeepCopyObject = OenumaList_DeepCopyObject
    \<and> numaadj_Oenuma_DeepCopyObject = Oenuma_DeepCopyObject
    \<and> whitelist_WhitelistList_DeepCopyObject = WhitelistList_DeepCopyObject
    \<and> whitelist_Whitelist_DeepCopyObject = Whitelist_DeepCopyObject"
  by (simp add: copy_equations)

end
