(* ===== verification/GroupOrder.thy ===== *)
theory GroupOrder
  imports AffinityProps
begin

text \<open>
  The order of the affinity groups. The server numbers the groups in the order in which it ranges
  over a Go map, which is new in every request: exactly which answers a request can get.
\<close>

section \<open>Orders of a map\<close>

text \<open>Every order of the values of a map is the order of some range.\<close>

lemma mset_map_order:
  "image_mset f (mset xs) = mset ys \<Longrightarrow> \<exists>zs. mset zs = mset xs \<and> map f zs = ys"
proof (induction ys arbitrary: xs)
  case (Cons y ys)
  then have "y \<in> f ` set xs" by (metis list.set_intros(1) set_image_mset set_mset_mset)
  then obtain x where x: "x \<in> set xs" "y = f x" by blast
  then have "image_mset f (mset (remove1 x xs)) = mset ys"
    using Cons.prems by (simp add: image_mset_Diff)
  from Cons.IH [OF this] obtain zs where "mset zs = mset (remove1 x xs)" "map f zs = ys" by blast
  with x show ?case by (intro exI [of _ "x # zs"]) simp
qed simp

lemma range_order_for:
  assumes "mset cs = mset (large_groups id m)"
  shows "\<exists>order. range_order order \<and> large_groups order m = cs"
proof -
  let ?large = "\<lambda>x. 2 \<le> length (snd x)"
  have "image_mset snd (mset (filter ?large m)) = mset cs"
    unfolding assms large_groups_def by (simp add: filter_map comp_def)
  then obtain zs where zs: "mset zs = mset (filter ?large m)" "map snd zs = cs"
    using mset_map_order by blast
  define order where "order = (\<lambda>m'. if m' = m then zs @ filter (\<lambda>x. \<not> ?large x) m else m')"
  have "mset (order m') = mset m'" for m'
    by (simp add: order_def zs(1))
  moreover have "set zs = set (filter ?large m)" using zs(1) by (metis set_mset_mset)
  then have "filter (\<lambda>c. 2 \<le> length c) (map snd zs) = map snd zs" by (auto simp: filter_id_conv)
  then have "large_groups order m = cs"
    by (simp add: large_groups_def order_def zs(2) filter_map comp_def)
  ultimately show ?thesis unfolding range_order_def by blast
qed

lemma range_order_distinct_set:
  assumes "distinct (large_groups id m)" and "distinct cs" and "set cs = set (large_groups id m)"
  shows "\<exists>order. range_order order \<and> large_groups order m = cs"
  using assms by (intro range_order_for) (metis set_eq_iff_mset_eq_distinct)

section \<open>The answers of a request\<close>

text \<open>
  C40: the answers that a request can get are the components of related pods in every order:
  whatever order of them one names, some order of the Go map leads to it. So which NUMA node a
  group of pods is given is open again in every request, although neither the pods nor their
  relations have changed; the agent then moves the pods.
\<close>

theorem group_order_arbitrary:
  assumes "server_reachable env st" and "0 < sv_numaNums st"
    and "length pods < 1024" and "distinct (map pb_uid pods)"
    and "getTidListForPods env pods = Ok infos"
  shows "{resp. \<exists>order st'. range_order order \<and> GetPodAffinity env order pods st = Ok (resp, st')} =
    {map (\<lambda>(k, c). \<lparr>pbg_number = int k mod sv_numaNums st, pbg_pods = map ((!) pods) c\<rparr>) (enumerate 0 cs) | cs.
       distinct cs \<and> set cs = pod_components (length pods) (affinity_edges hasPodAffinity (calculateGid env infos))}"
proof -
  have inv: "uf_inv (sv_fa st)" "length (sv_fa st) = 1024"
    using server_reachable_inv [OF assms(1)] by (auto simp: server_inv_def)
  have uids: "map pi_uid (calculateGid env infos) = map pb_uid pods"
    using getTidListForPods_uids [OF assms(5)] by simp
  let ?comps = "pod_components (length pods) (affinity_edges hasPodAffinity (calculateGid env infos))"
  let ?ans = "\<lambda>cs. map (\<lambda>(k, c). \<lparr>pbg_number = int k mod sv_numaNums st, pbg_pods = map ((!) pods) c\<rparr>) (enumerate 0 cs)"
  have ga: "(\<lambda>(k, c). \<lparr>pbg_number = int k mod sv_numaNums st, pbg_pods = map ((!) pods) c\<rparr>)
          = group_answer (sv_numaNums st) pods"
    by (auto simp: group_answer_def)
  obtain m fa' where m: "\<And>order. range_order order \<Longrightarrow>
      GetPodAffinity env order pods st = Ok (?ans (large_groups order m), st\<lparr>sv_fa := fa'\<rparr>)
      \<and> distinct (large_groups order m) \<and> set (large_groups order m) = ?comps"
    using grouped_answers [where affine = hasPodAffinity, OF inv(1) _ assms(2,4) uids] inv(2) assms(3,5)
    unfolding ga by (auto simp: GetPodAffinity_def Let_def)
  have "\<exists>order. range_order order \<and> GetPodAffinity env order pods st = Ok (?ans cs, st\<lparr>sv_fa := fa'\<rparr>)"
    if "distinct cs" "set cs = ?comps" for cs
    using range_order_distinct_set [of m cs] m [OF range_order_id] that m by metis
  with m show ?thesis by (auto, metis)
qed

text \<open>
  Four pods, the first two and the last two related. Which pair comes first in the answer is the
  order in which \<^verbatim>\<open>range groups\<close> visits the map.
\<close>

definition pairs_env :: server_env where
  "pairs_env = \<lparr>ev_crictl = (\<lambda>cid. Ok cid),
     ev_yaml_pid = (\<lambda>out. Ok (if out = ''a'' then 1 else if out = ''b'' then 2 else if out = ''c'' then 3 else 4)),
     ev_ps = (\<lambda>pid. Err ''ps''), ev_get_gid = (\<lambda>tid. if tid \<le> 2 then 7 else 8)\<rparr>"

definition pairs_pods :: "pb_pod list" where
  "pairs_pods = [ex_pod ''u1'' ''a'', ex_pod ''u2'' ''b'', ex_pod ''u3'' ''c'', ex_pod ''u4'' ''d'']"

definition pairs_infos :: "pod_info list" where
  "pairs_infos = map (\<lambda>(u, t). \<lparr>pi_uid = u, pi_tids = [t], pi_gids = []\<rparr>)
     [(''u1'', 1), (''u2'', 2), (''u3'', 3), (''u4'', 4)]"

definition pairs_answer :: "pb_pod list list \<Rightarrow> pb_affinity_group list" where
  "pairs_answer gs = map (\<lambda>(k, ps). \<lparr>pbg_number = int k, pbg_pods = ps\<rparr>) (enumerate 0 gs)"

lemma pairs_listed: "getTidListForPods pairs_env pairs_pods = Ok pairs_infos"
  by code_simp

lemma pairs_runs:
  "go_map fst (GetPodAffinity pairs_env id pairs_pods ex_state) = Ok (pairs_answer [take 2 pairs_pods, drop 2 pairs_pods])"
  "go_map fst (GetPodAffinity pairs_env rev pairs_pods ex_state) = Ok (pairs_answer [drop 2 pairs_pods, take 2 pairs_pods])"
  by code_simp+

theorem group_order_arbitrary_witness:
  "\<exists>cs1 cs2. set cs1 = set cs2
     \<and> map (\<lambda>(k, c). \<lparr>pbg_number = int k mod sv_numaNums ex_state, pbg_pods = map ((!) pairs_pods) c\<rparr>) (enumerate 0 cs1)
         = pairs_answer [take 2 pairs_pods, drop 2 pairs_pods]
     \<and> map (\<lambda>(k, c). \<lparr>pbg_number = int k mod sv_numaNums ex_state, pbg_pods = map ((!) pairs_pods) c\<rparr>) (enumerate 0 cs2)
         = pairs_answer [drop 2 pairs_pods, take 2 pairs_pods]"
proof -
  have pods: "length pairs_pods < 1024" "distinct (map pb_uid pairs_pods)" by code_simp+
  note answers = group_order_arbitrary [OF ex_state_reachable ex_state_numa(1) pods pairs_listed]
  let ?answers = "{resp. \<exists>order st'. range_order order \<and> GetPodAffinity pairs_env order pairs_pods ex_state = Ok (resp, st')}"
  have mem: "resp \<in> ?answers" if "go_map fst (GetPodAffinity pairs_env order pairs_pods ex_state) = Ok resp"
      and "range_order order" for order resp
    using that by (cases "GetPodAffinity pairs_env order pairs_pods ex_state") auto
  have "pairs_answer [take 2 pairs_pods, drop 2 pairs_pods] \<in> ?answers"
      "pairs_answer [drop 2 pairs_pods, take 2 pairs_pods] \<in> ?answers"
    by (rule mem [OF pairs_runs(1) range_order_id], rule mem [OF pairs_runs(2) range_order_rev])
  then show ?thesis unfolding answers by (elim CollectE exE conjE) (intro exI conjI, simp_all)
qed

end
