(* ===== verification/EndToEnd.thy ===== *)
theory EndToEnd
  imports AffinityProps NumafastProps CrdPolicyProps
begin

text \<open>
  The path through the whole program: the affinity server groups the pods of a node by the
  threads that talk to each other, the agent turns the groups into CPU sets and writes them into
  the resource, the written resource comes back as a watch event, and the runtime is asked for
  the CPU sets. Pods that are related end up on one NUMA node.
\<close>

section \<open>The agent at a server\<close>

text \<open>
  What the gRPC connection does: a call that the server answers returns that answer. The agent
  asks for the NUMA nodes first, so the server has counted them when it groups pods.
\<close>

definition served_by ::
    "('w, 'u) cluster \<Rightarrow> 'w \<Rightarrow> server_env \<Rightarrow> ((nat \<times> nat list) list \<Rightarrow> (nat \<times> nat list) list) \<Rightarrow>
     c_numa_node list \<Rightarrow> server_state \<Rightarrow> bool" where
  "served_by cl w env order nodes st \<longleftrightarrow>
     (\<forall>info st1. GetNumaNodeInof nodes st = Ok (info, st1) \<longrightarrow>
        cl_numa_nodes cl w = Ok info
        \<and> (\<forall>req resp st2. GetPodAffinity env order req st1 = Ok (resp, st2) \<longrightarrow>
              cl_pod_affinity cl w req = Ok resp))"

definition nodes_ok :: "c_numa_node list \<Rightarrow> bool" where
  "nodes_ok nodes \<longleftrightarrow> nodes \<noteq> [] \<and> length nodes \<le> 1024
     \<and> list_all (\<lambda>n. cn_cpus n \<noteq> [] \<and> length (cn_cpus n) \<le> 1024) nodes"

definition topology :: "c_numa_node list \<Rightarrow> pb_numa_info" where
  "topology nodes = \<lparr>pbi_valid = True, pbi_nodes = map (\<lambda>(i, n).
     \<lparr>pbn_number = int i, pbn_cpuset = convertCpuSet (cn_cpus n),
      pbn_memset = strconv_Itoa (cn_memset n)\<rparr>) (enumerate 0 nodes)\<rparr>"

lemma topology_nth:
  assumes "k < length nodes"
  shows "pbi_nodes (topology nodes) ! k = \<lparr>pbn_number = int k,
      pbn_cpuset = convertCpuSet (cn_cpus (nodes ! k)), pbn_memset = strconv_Itoa (cn_memset (nodes ! k))\<rparr>"
  using assms by (simp add: topology_def nth_enumerate_eq)

lemma topology_length [simp]: "length (pbi_nodes (topology nodes)) = length nodes"
  by (simp add: topology_def)

lemma GetNumaNodeInof_topology:
  "nodes_ok nodes \<Longrightarrow> GetNumaNodeInof nodes st = Ok (topology nodes, st\<lparr>sv_numaNums := int (length nodes)\<rparr>)"
  using GetNumaNodeInof_ok [of nodes st] by (simp add: nodes_ok_def topology_def list_all_iff)

lemma info_cpus_topology:
  assumes "nodes_ok nodes" and "k < length nodes"
  shows "info_cpus (pbi_nodes (topology nodes)) k = map strconv_Itoa (cn_cpus (nodes ! k))"
proof -
  have "cn_cpus (nodes ! k) \<noteq> []" using assms by (simp add: nodes_ok_def list_all_length)
  then show ?thesis
    unfolding info_cpus_def topology_nth [OF assms(2)] convertCpuSet_def pb_numa_node.simps
    by (intro strings_Split_Join) (auto simp: strconv_Itoa_no_sep)
qed

section \<open>From groups to NUMA numbers\<close>

text \<open>
  The numbers that the groups of the server assign: the place of the pod's component among the
  components, modulo the number of nodes.
\<close>

definition answer_groups :: "int \<Rightarrow> pb_pod list \<Rightarrow> nat list list \<Rightarrow> pb_affinity_group list" where
  "answer_groups N req cs =
     map (\<lambda>(k, c). \<lparr>pbg_number = int k mod N, pbg_pods = map ((!) req) c\<rparr>) (enumerate 0 cs)"

lemma assigned_answer_iff:
  "(name, v) \<in> set (assigned (answer_groups N req cs)) \<longleftrightarrow>
     (\<exists>k < length cs. \<exists>z \<in> set (cs ! k). name = pb_podName (req ! z) \<and> v = to_int32 (int k mod N))"
proof -
  have "(name, v) \<in> set (assigned (answer_groups N req cs)) \<longleftrightarrow>
      (\<exists>p \<in> set (enumerate 0 cs). \<exists>z \<in> set (snd p). name = pb_podName (req ! z) \<and> v = to_int32 (int (fst p) mod N))"
    by (auto simp: assigned_def answer_groups_def split_def image_iff)
  also have "set (enumerate 0 cs) = (\<lambda>k. (k, cs ! k)) ` {..<length cs}"
    by (force simp: in_set_enumerate_eq)
  finally show ?thesis by auto
qed

lemma answer_groups_pods:
  "(\<And>c. c \<in> set cs \<Longrightarrow> set c \<subseteq> {..<length req}) \<Longrightarrow> \<forall>g \<in> set (answer_groups N req cs). set (pbg_pods g) \<subseteq> set req"
  by (auto simp: answer_groups_def in_set_enumerate_eq split_def dest!: nth_mem)
    (metis lessThan_iff nth_mem subsetD)

lemma component_of_member:
  assumes "c \<in> pod_components n E" and "x \<in> set c"
  shows "c = filter (connected E x) [0..<n]"
proof -
  obtain i where c: "c = filter (connected E i) [0..<n]" using assms(1) by (auto simp: pod_components_def)
  then have "connected E i x" using assms(2) by simp
  then have "connected E i z \<longleftrightarrow> connected E x z" for z
    by (meson connected_sym connected_trans)
  then have "filter (connected E i) [0..<n] = filter (connected E x) [0..<n]"
    by (intro filter_cong refl)
  then show ?thesis using c by (simp only:)
qed

lemma component_of_related:
  assumes "connected E x y" and "x \<noteq> y" and "x < n" and "y < n"
  shows "filter (connected E x) [0..<n] \<in> pod_components n E"
    and "filter (connected E x) [0..<n] = filter (connected E y) [0..<n]"
proof -
  let ?c = "filter (connected E x) [0..<n]"
  have "{x, y} \<subseteq> set ?c" using assms by (auto simp: connected_def)
  then have "card {x, y} \<le> length ?c" by (meson card_length card_mono finite_set order_trans)
  then show "?c \<in> pod_components n E" using assms by (auto simp: pod_components_def)
  show "?c = filter (connected E y) [0..<n]"
    using assms(1) by (intro filter_cong refl) (meson connected_sym connected_trans)
qed

text \<open>Two related pods are assigned one number, and no other.\<close>

lemma related_assigned:
  assumes "distinct cs" and "set cs = pod_components n E" and "n = length req"
    and "distinct (map pb_podName req)" and "connected E x y" "x \<noteq> y" "x < n" "y < n" and "0 < N"
  shows "\<exists>k < length cs. \<forall>z \<in> {x, y}.
      map_of (rev (assigned (answer_groups (int N) req cs))) (pb_podName (req ! z)) = Some (to_int32 (int (k mod N)))"
proof -
  let ?as = "assigned (answer_groups (int N) req cs)"
  note comp = component_of_related [OF assms(5-8)]
  obtain k where k: "k < length cs" "cs ! k = filter (connected E x) [0..<n]"
    using comp(1) assms(2) by (metis in_set_conv_nth)
  have "map_of (rev ?as) (pb_podName (req ! z)) = Some (to_int32 (int (k mod N)))" if z: "z \<in> {x, y}" for z
  proof -
    have cz: "cs ! k = filter (connected E z) [0..<n]" and zn: "z < n" using z k(2) comp(2) assms(7,8) by auto
    then have "z \<in> set (cs ! k)" by (simp add: connected_def)
    then have mem: "(pb_podName (req ! z), to_int32 (int (k mod N))) \<in> set ?as"
      unfolding assigned_answer_iff using k(1) by (auto simp: zmod_int)
    have "v = to_int32 (int (k mod N))" if v: "(pb_podName (req ! z), v) \<in> set ?as" for v
    proof -
      obtain k' z' where k': "k' < length cs" "z' \<in> set (cs ! k')" "pb_podName (req ! z) = pb_podName (req ! z')"
        "v = to_int32 (int k' mod int N)" using v by (auto simp: assigned_answer_iff)
      have "cs ! k' \<in> pod_components n E" using k'(1) assms(2) by auto
      then have c': "cs ! k' = filter (connected E z') [0..<n]" by (rule component_of_member [OF _ k'(2)])
      with k'(2) have "z' < n" by simp
      then have "map pb_podName req ! z = map pb_podName req ! z'" using k'(3) assms(3) zn by simp
      then have "z = z'" using nth_eq_iff_index_eq [OF assms(4)] \<open>z' < n\<close> zn assms(3) by simp
      then have "cs ! k' = cs ! k" using c' cz by (simp only:)
      then have "k' = k" using nth_eq_iff_index_eq [OF assms(1) k'(1) k(1)] by blast
      then show ?thesis using k'(4) by (simp add: zmod_int)
    qed
    moreover obtain v where "map_of (rev ?as) (pb_podName (req ! z)) = Some v"
    proof -
      have "pb_podName (req ! z) \<in> fst ` set (rev ?as)" using mem by (metis fst_conv image_eqI set_rev)
      then have "map_of (rev ?as) (pb_podName (req ! z)) \<noteq> None" by (simp only: map_of_eq_None_iff not_not)
      then show ?thesis using that by blast
    qed
    ultimately show ?thesis by (metis map_of_SomeD set_rev)
  qed
  with k(1) show ?thesis by blast
qed

text \<open>Every number assigned is that of a node.\<close>

lemma assigned_in_range:
  assumes "(name, v) \<in> set (assigned (answer_groups (int N) req cs))" and "0 < N" and "N \<le> 1024"
  shows "0 \<le> of_int32 v \<and> of_int32 v < int N"
proof -
  obtain k where v: "v = to_int32 (int (k mod N))"
    using assms(1) by (auto simp: assigned_answer_iff zmod_int)
  have "k mod N < N" using assms(2) by simp
  then have "of_int32 v = int (k mod N)" unfolding v using assms(3) by (intro of_to_int32) auto
  with \<open>k mod N < N\<close> show ?thesis by simp
qed

section \<open>From numbers to CPUs\<close>

text \<open>
  A container's entry is on a node when it has the container's ID and CPUs of that node only: as
  many as the container asks for when its pod is Guaranteed, otherwise all of them. A pod's entry
  is on a node when it has the pod's name and namespace, the number of the node, and one entry on
  the node for each container of the pod.
\<close>

definition container_on_node :: "c_numa_node \<Rightarrow> k8s_pod \<Rightarrow> k8s_container \<Rightarrow> container \<Rightarrow> bool" where
  "container_on_node n p c ctr \<longleftrightarrow> ctr_id ctr = status_id (kp_statuses p) (kc_name c)
     \<and> (\<exists>got. ctr_cpuset ctr = strings_Join got '',''
          \<and> set got \<subseteq> set (map strconv_Itoa (cn_cpus n))
          \<and> (if kp_qos p = ''Guaranteed'' then length got = nat (kc_cpus c)
             else got = map strconv_Itoa (cn_cpus n)))"

definition entry_on_node :: "c_numa_node list \<Rightarrow> nat \<Rightarrow> k8s_pod \<Rightarrow> pod_affinity \<Rightarrow> bool" where
  "entry_on_node nodes k p pa \<longleftrightarrow> pa_pod pa = kp_name p \<and> pa_ns pa = kp_ns p
     \<and> of_int32 (pa_numa pa) = int k
     \<and> list_all2 (container_on_node (nodes ! k) p) (kp_containers p) (pa_containers pa)"

text \<open>Among pods of distinct names, an entry is that of one pod, and so is its class.\<close>

lemma entry_containers_pod:
  assumes "distinct (map kp_name pods)" and "p \<in> set pods"
    and "pa_pod pa = kp_name p" and "pa_ns pa = kp_ns p"
  shows "entry_containers pods pa = map (Pair (kp_statuses p)) (kp_containers p)"
proof -
  have "filter (\<lambda>q. kp_name q = kp_name p \<and> kp_ns q = kp_ns p) pods = [p]"
    using assms(1,2) by (induction pods) (auto simp: filter_empty_conv dest: rev_image_eqI [where f = kp_name])
  then show ?thesis using assms(3,4) by (simp add: entry_containers_def)
qed

lemma class_of_pod:
  assumes "distinct (map kp_name pods)" and "p \<in> set pods"
  shows "class_of (pod_classes pods) (kp_name p) = kp_qos p"
proof -
  have "map_of (fold (\<lambda>p. AList.update (kp_name p) (kp_qos p)) pods m) (kp_name p) = Some (kp_qos p)" for m
    using assms
  proof (induction pods arbitrary: m rule: rev_induct)
    case (snoc q pods)
    show ?case
    proof (cases "p = q")
      case False
      then have "p \<in> set pods" "kp_name q \<noteq> kp_name p" using snoc.prems by auto
      then show ?thesis using snoc by (simp add: update_conv')
    qed (simp add: update_conv')
  qed simp
  then show ?thesis by (simp add: class_of_def pod_classes_def)
qed

lemma blocks_sizes: "length xs = sum_list qs \<Longrightarrow> list_all2 (\<lambda>q b. length b = q) qs (blocks qs xs)"
  by (induction qs arbitrary: xs) auto

lemma pinned_on_node:
  assumes "set cpus \<subseteq> set (map strconv_Itoa (cn_cpus n))" and "kp_qos p = ''Guaranteed''"
    and "length cpus = (\<Sum>c\<leftarrow>cs. nat (kc_cpus c))"
  shows "list_all2 (container_on_node n p) cs
    (map2 (pinned_container num) (map (Pair (kp_statuses p)) cs) (blocks (map (\<lambda>c. nat (kc_cpus c)) cs) cpus))"
proof -
  let ?b = "blocks (map (\<lambda>c. nat (kc_cpus c)) cs) cpus"
  have sizes: "length (?b ! i) = nat (kc_cpus (cs ! i))" if "i < length cs" for i
    using list_all2_nthD2 [OF blocks_sizes [OF assms(3)], of i] that by simp
  have "set (?b ! i) \<subseteq> set (map strconv_Itoa (cn_cpus n))" if "i < length cs" for i
    using blocks_set [of "?b ! i" "map (\<lambda>c. nat (kc_cpus c)) cs" cpus] assms(1) that
      set_take_subset by (metis length_blocks length_map nth_mem subset_trans)
  then have "container_on_node n p (cs ! i) (pinned_container num (kp_statuses p, cs ! i) (?b ! i))"
    if "i < length cs" for i
    using sizes [OF that] that assms(2) by (auto simp: container_on_node_def pinned_container_def)
  then show ?thesis by (simp add: list_all2_conv_all_nth)
qed

lemma spec_containers_on_node:
  assumes "nodes_ok nodes" and "in_range (pa_numa pa) nodes"
    and "distinct (map kp_name pods)" and "p \<in> set pods" and "pa_pod pa = kp_name p" and "pa_ns pa = kp_ns p"
  shows "list_all2 (container_on_node (nodes ! entry_numa pa) p) (kp_containers p)
    (spec_containers (pbi_nodes (topology nodes)) (numa_entries (topology nodes)) pods u pa)"
proof -
  let ?k = "entry_numa pa"
  have k: "?k < length nodes" using assms(2) by (simp add: in_range_def entry_numa_def nat_less_iff)
  have cpus: "info_cpus (pbi_nodes (topology nodes)) ?k = map strconv_Itoa (cn_cpus (nodes ! ?k))"
    by (rule info_cpus_topology [OF assms(1) k])
  have "cn_cpus (nodes ! ?k) \<noteq> []" using assms(1) k by (simp add: nodes_ok_def list_all_length)
  note cs = entry_containers_pod [OF assms(3-6)]
  have pinned: "entry_pinned pods pa \<longleftrightarrow> kp_qos p = ''Guaranteed''"
    using class_of_pod [OF assms(3,4)] assms(5) by (simp add: entry_pinned_def)
  have reqs: "entry_requests pods pa = map (\<lambda>c. nat (kc_cpus c)) (kp_containers p)"
    by (simp add: entry_requests_def cs comp_def)
  show ?thesis
  proof (cases "kp_qos p = ''Guaranteed''")
    case True
    let ?got = "cycle_take u (sum_list (entry_requests pods pa)) (map strconv_Itoa (cn_cpus (nodes ! ?k)))"
    have "set ?got \<subseteq> set (map strconv_Itoa (cn_cpus (nodes ! ?k)))"
      using \<open>cn_cpus (nodes ! ?k) \<noteq> []\<close> by (intro set_cycle_take) simp
    then have "list_all2 (container_on_node (nodes ! ?k) p) (kp_containers p)
        (map2 (pinned_container (pa_numa pa)) (map (Pair (kp_statuses p)) (kp_containers p))
          (blocks (map (\<lambda>c. nat (kc_cpus c)) (kp_containers p)) ?got))"
      by (rule pinned_on_node [OF _ True]) (simp add: reqs)
    then show ?thesis using True by (simp add: spec_containers_def Let_def cpus cs pinned reqs)
  next
    case False
    have "numa_cpuset (numa_entries (topology nodes) ! ?k) = convertCpuSet (cn_cpus (nodes ! ?k))"
      using k by (simp add: numa_entries_def topology_nth)
    then have "container_on_node (nodes ! ?k) p c
        (shared_container (numa_entries (topology nodes) ! ?k) (kp_statuses p, c))" for c
      using False by (auto simp: container_on_node_def shared_container_def convertCpuSet_def)
    then show ?thesis using False by (simp add: spec_containers_def Let_def cs pinned list_all2_conv_all_nth)
  qed
qed

text \<open>
  No entry of another namespace has the name of a listed pod. The merge looks for entries by name
  only, so such an entry would take the number meant for the listed pod, which would get none.
\<close>

definition entries_match :: "k8s_pod list \<Rightarrow> pod_affinity list \<Rightarrow> bool" where
  "entries_match pods pas \<longleftrightarrow>
     (\<forall>pa \<in> set pas. \<forall>p \<in> set pods. pa_pod pa = kp_name p \<longrightarrow> pa_ns pa = kp_ns p)"

lemma spec_entries_match:
  "entries_match pods (spec_entries infos numas pods' u pas) = entries_match pods pas"
  by (induction pas arbitrary: u) (auto simp: entries_match_def)

lemma spec_entries_on_node:
  assumes "nodes_ok nodes" and "\<forall>pa \<in> set pas. in_range (pa_numa pa) nodes"
    and "distinct (map kp_name pods)" and "entries_match pods pas"
    and "pa \<in> set (spec_entries (pbi_nodes (topology nodes)) (numa_entries (topology nodes)) pods u pas)"
    and "p \<in> set pods" and "pa_pod pa = kp_name p"
  shows "entry_on_node nodes (entry_numa pa) p pa"
  using assms(2,4,5)
proof (induction pas arbitrary: u)
  case (Cons q pas)
  have match: "entries_match pods pas" using Cons.prems(2) by (simp add: entries_match_def)
  show ?case
  proof (cases "pa = q\<lparr>pa_containers := spec_containers (pbi_nodes (topology nodes))
      (numa_entries (topology nodes)) pods (u (entry_numa q)) q\<rparr>")
    case True
    have q: "pa_pod q = kp_name p" "in_range (pa_numa q) nodes" "pa_ns q = kp_ns p"
      using Cons.prems(1,2) assms(6,7) True by (simp_all add: entries_match_def)
    show ?thesis
      using spec_containers_on_node [OF assms(1) q(2) assms(3,6) q(1,3)] q
      unfolding True by (simp add: entry_on_node_def in_range_def entry_numa_def)
  next
    case False
    then show ?thesis using Cons.IH [OF _ match] Cons.prems(1,3) by simp
  qed
qed simp

text \<open>The merge keeps that names and namespaces match, for groups of the listed pods.\<close>

lemma nf_place_entry:
  "pa \<in> set (nf_place num q pas) \<Longrightarrow> (pa_pod pa = pb_podName q \<and> pa_ns pa = pb_podNamespace q)
     \<or> (\<exists>pa' \<in> set pas. pa_pod pa' = pa_pod pa \<and> pa_ns pa' = pa_ns pa)"
  by (induction num q pas rule: nf_place.induct) (auto split: if_splits)

lemma nf_place_match:
  assumes "distinct (map kp_name pods)" and "q \<in> set (affinity_request pods)" and "entries_match pods pas"
  shows "entries_match pods (nf_place num q pas)"
proof -
  obtain p where p: "p \<in> set pods" "pb_podName q = kp_name p" "pb_podNamespace q = kp_ns p"
    using assms(2) by (auto simp: affinity_request_def)
  have "r = p" if "r \<in> set pods" "kp_name r = kp_name p" for r
    using assms(1) p(1) that by (simp add: distinct_map inj_on_def)
  then show ?thesis
    using assms(3) p unfolding entries_match_def by (metis nf_place_entry)
qed

lemma nf_merge_match:
  assumes "distinct (map kp_name pods)" and "\<forall>g \<in> set groups. set (pbg_pods g) \<subseteq> set (affinity_request pods)"
    and "entries_match pods pas"
  shows "entries_match pods (nf_merge groups pas)"
proof -
  have place: "entries_match pods (fold (nf_place num) qs pas)"
    if "set qs \<subseteq> set (affinity_request pods)" "entries_match pods pas" for num qs pas
    using that by (induction qs arbitrary: pas) (auto intro: nf_place_match [OF assms(1)])
  show ?thesis
    using assms(2,3) unfolding nf_merge_def by (induction groups arbitrary: pas) (auto intro: place)
qed

lemma spec_entries_numbers: "numbers (spec_entries infos numas pods u pas) = numbers pas"
  by (induction pas arbitrary: u) auto

section \<open>The round\<close>

text \<open>
  The agent's node as the set-up wrote it, with entries of distinct names and numbers of nodes
  that there are.
\<close>

definition own_node_ok :: "c_numa_node list \<Rightarrow> node \<Rightarrow> bool" where
  "own_node_ok nodes n \<longleftrightarrow> node_numa n = numa_entries (topology nodes)
     \<and> distinct (map pa_pod (node_affinity n))
     \<and> list_all (\<lambda>pa. in_range (pa_numa pa) nodes) (node_affinity n)"

lemma merged_in_range:
  assumes "distinct (map pa_pod (node_affinity n))" and "list_all (\<lambda>pa. in_range (pa_numa pa) nodes) (node_affinity n)"
    and "\<forall>(name, v) \<in> set (assigned groups). in_range v nodes" and "pa \<in> set (nf_merge groups (node_affinity n))"
  shows "in_range (pa_numa pa) nodes"
proof -
  let ?pas = "nf_merge groups (node_affinity n)"
  have "distinct (map fst (numbers ?pas))"
    using nf_merge_keys [of groups "node_affinity n"] assms(1) by (simp add: comp_def)
  then have "map_of (numbers ?pas) (pa_pod pa) = Some (pa_numa pa)"
    using assms(4) by (intro map_of_is_SomeI) auto
  then have "(map_of (numbers (node_affinity n)) ++ map_of (rev (assigned groups))) (pa_pod pa) = Some (pa_numa pa)"
    by (simp only: nf_merge_map)
  then consider "(pa_pod pa, pa_numa pa) \<in> set (assigned groups)"
    | "(pa_pod pa, pa_numa pa) \<in> set (numbers (node_affinity n))"
    by (auto simp: map_add_Some_iff dest: map_of_SomeD)
  then show ?thesis using assms(2,3) by cases (auto simp: list_all_iff)
qed

lemma own_node_updates:
  assumes "distinct (map node_name (oe_nodes oe))" and "node_index (ag_nodeName a) (oe_nodes oe) = Some i"
  shows "node_updates cl a w (update_spec_nodes (\<lambda>ns. ns[i := (oe_nodes oe ! i)\<lparr>node_affinity := pas\<rparr>]) oe)
    = concat (map (entry_updates cl w) pas)"
proof -
  have i: "i < length (oe_nodes oe)" "node_name (oe_nodes oe ! i) = ag_nodeName a"
    using node_index_Some [OF assms(2)] by auto
  let ?n = "(oe_nodes oe ! i)\<lparr>node_affinity := pas\<rparr>"
  have other: "node_name x \<noteq> ag_nodeName a" if "x \<in> set (take i (oe_nodes oe)) \<union> set (drop (Suc i) (oe_nodes oe))" for x
  proof -
    have "map node_name (oe_nodes oe) = map node_name (take i (oe_nodes oe)) @ node_name (oe_nodes oe ! i)
        # map node_name (drop (Suc i) (oe_nodes oe))"
      using id_take_nth_drop [OF i(1)] by (metis list.map(2) map_append)
    then have "ag_nodeName a \<notin> node_name ` (set (take i (oe_nodes oe)) \<union> set (drop (Suc i) (oe_nodes oe)))"
      using assms(1) i(2) by auto
    then show ?thesis using that by (metis image_eqI)
  qed
  have "filter (\<lambda>n. node_name n = ag_nodeName a) ((oe_nodes oe)[i := ?n]) = [?n]"
    unfolding upd_conv_take_nth_drop [OF i(1)] using other i(2) by (simp add: filter_empty_conv)
  then show ?thesis by (simp add: node_updates_def)
qed

text \<open>The entries of two related pods, in what the agent computes from the groups of the server.\<close>

lemma related_on_node:
  fixes pods :: "k8s_pod list"
  defines "groups \<equiv> \<lambda>N cs. answer_groups (int N) (affinity_request pods) cs"
  assumes "nodes_ok nodes" and "distinct cs" and "set cs = pod_components (length pods) E"
    and "distinct (map kp_name pods)"
    and range: "\<forall>pa \<in> set (nf_merge (groups (length nodes) cs) old). in_range (pa_numa pa) nodes"
    and match: "entries_match pods (nf_merge (groups (length nodes) cs) old)"
    and xy: "connected E x y" "x \<noteq> y" "x < length pods" "y < length pods"
  shows "\<exists>k < length nodes. \<forall>z \<in> {x, y}.
    \<exists>pa \<in> set (spec_entries (pbi_nodes (topology nodes)) (numa_entries (topology nodes)) pods u
        (nf_merge (groups (length nodes) cs) old)). entry_on_node nodes k (pods ! z) pa"
proof -
  let ?groups = "answer_groups (int (length nodes)) (affinity_request pods) cs"
  let ?pas = "spec_entries (pbi_nodes (topology nodes)) (numa_entries (topology nodes)) pods u (nf_merge ?groups old)"
  have N: "0 < length nodes" "length nodes \<le> 1024" using assms(2) by (auto simp: nodes_ok_def)
  have names: "map pb_podName (affinity_request pods) = map kp_name pods" by (simp add: affinity_request_def)
  then obtain k where k: "\<forall>z \<in> {x, y}. map_of (rev (assigned ?groups)) (pb_podName (affinity_request pods ! z))
      = Some (to_int32 (int (k mod length nodes)))"
    using related_assigned [OF assms(3,4) _ _ xy N(1)] assms(5) by (metis length_map)
  let ?k = "k mod length nodes"
  have kN: "?k < length nodes" using N(1) by simp
  then have of: "of_int32 (to_int32 (int ?k)) = int ?k" using N(2) by (intro of_to_int32) auto
  have "\<exists>pa \<in> set ?pas. entry_on_node nodes ?k (pods ! z) pa" if z: "z \<in> {x, y}" for z
  proof -
    have zn: "pods ! z \<in> set pods" using z xy(3,4) by auto
    have "pb_podName (affinity_request pods ! z) = kp_name (pods ! z)"
      using z xy(3,4) by (auto simp: affinity_request_def)
    then have "map_of (numbers ?pas) (kp_name (pods ! z)) = Some (to_int32 (int ?k))"
      using bspec [OF k z] unfolding spec_entries_numbers nf_merge_map by (simp add: map_add_def)
    then obtain pa where pa: "pa \<in> set ?pas" "pa_pod pa = kp_name (pods ! z)" "pa_numa pa = to_int32 (int ?k)"
      by (force dest: map_of_SomeD)
    moreover have "entry_on_node nodes (entry_numa pa) (pods ! z) pa"
      by (rule spec_entries_on_node [OF assms(2) range [unfolded groups_def] assms(5) match [unfolded groups_def]
            pa(1) zn pa(2)])
    ultimately show ?thesis using of by (metis entry_numa_def nat_int)
  qed
  with kN show ?thesis unfolding groups_def by blast
qed

text \<open>
  The round as seen from the server: the agent writes the entries of its own node, and of two
  related pods both have an entry, on one node.
\<close>

lemma round_places:
  assumes "server_reachable env st" and "range_order order" and "nodes_ok nodes"
    and "served_by cl w env order nodes st"
    and "read_oenuma cl a w = Ok oe" and "node_index (ag_nodeName a) (oe_nodes oe) = Some i"
    and "own_node_ok nodes (oe_nodes oe ! i)"
    and "cl_list_pods cl w ''default'' NoSelector = (Some pods, None)" and "length pods < 1024"
    and "distinct (map kp_uid pods)" and "distinct (map kp_name pods)"
    and "getTidListForPods env (affinity_request pods) = Ok infos"
    and "entries_match pods (node_affinity (oe_nodes oe ! i))"
  shows "\<exists>pas. updateByNumafastAware cl a w = write_oenuma cl a w
        (update_spec_nodes (\<lambda>ns. ns[i := (oe_nodes oe ! i)\<lparr>node_affinity := pas\<rparr>]) oe)
    \<and> own_node_ok nodes ((oe_nodes oe ! i)\<lparr>node_affinity := pas\<rparr>) \<and> entries_match pods pas
    \<and> (\<forall>x < length pods. \<forall>y < length pods. x \<noteq> y \<longrightarrow>
        connected (affinity_edges hasPodAffinity (calculateGid env infos)) x y \<longrightarrow>
        (\<exists>k < length nodes. \<forall>z \<in> {x, y}. \<exists>pa \<in> set pas. entry_on_node nodes k (pods ! z) pa))"
proof -
  let ?req = "affinity_request pods" and ?st1 = "st\<lparr>sv_numaNums := int (length nodes)\<rparr>"
  let ?E = "affinity_edges hasPodAffinity (calculateGid env infos)" and ?n = "oe_nodes oe ! i"
  note numa = GetNumaNodeInof_topology [OF assms(3), of st]
  have info: "GetNumaNodes cl w = Ok (topology nodes)"
    using assms(4) numa by (simp add: served_by_def GetNumaNodes_def)
  have N: "0 < length nodes" "length nodes \<le> 1024" using assms(3) by (auto simp: nodes_ok_def)
  have reach: "server_reachable env ?st1"
    by (rule server_reachable.step [OF assms(1) server_step.numa [OF numa]])
  obtain cs st2 where ans: "GetPodAffinity env order ?req ?st1 = Ok (answer_groups (int (length nodes)) ?req cs, st2)"
    and cs: "distinct cs" "set cs = pod_components (length pods) ?E"
    using GetPodAffinity_answer [OF reach _ assms(2) _ _ assms(12)] assms(9,10) N
    by (auto simp: answer_groups_def affinity_request_def comp_def)
  let ?groups = "answer_groups (int (length nodes)) ?req cs"
  let ?merged = "nf_merge ?groups (node_affinity ?n)"
  let ?pas = "spec_entries (pbi_nodes (topology nodes)) (numa_entries (topology nodes)) pods (\<lambda>_. 0) ?merged"
  have groups: "GetPodAffinityRelationship cl w pods = Ok ?groups"
    using assms(4) numa ans by (simp add: served_by_def GetPodAffinityRelationship_def)
  have own: "node_numa ?n = numa_entries (topology nodes)" "distinct (map pa_pod (node_affinity ?n))"
    "list_all (\<lambda>pa. in_range (pa_numa pa) nodes) (node_affinity ?n)"
    using assms(7) by (auto simp: own_node_ok_def)
  have "\<forall>(name, v) \<in> set (assigned ?groups). in_range v nodes"
    using assigned_in_range [OF _ N] by (auto simp: in_range_def)
  then have range: "\<forall>pa \<in> set ?merged. in_range (pa_numa pa) nodes"
    using merged_in_range [OF own(2,3)] by blast
  have "\<forall>g \<in> set ?groups. set (pbg_pods g) \<subseteq> set ?req"
    by (rule answer_groups_pods) (auto simp: cs(2) pod_components_def affinity_request_def)
  then have match: "entries_match pods ?merged"
    by (rule nf_merge_match [OF assms(11) _ assms(13)])
  have "entry_in_range (pbi_nodes (topology nodes)) (node_numa ?n) pods pa" if "pa \<in> set ?merged" for pa
    using range that by (simp add: entry_in_range_def in_range_def own(1) numa_entries_def)
  then have round: "updateByNumafastAware cl a w = write_oenuma cl a w
      (update_spec_nodes (\<lambda>ns. ns[i := ?n\<lparr>node_affinity := ?pas\<rparr>]) oe)"
    using assms(5,6,8) info groups own(1) by (simp add: updateByNumafastAware_def Let_def nf_entries_eq)
  have "distinct (map fst (numbers ?pas))"
    using nf_merge_keys own(2) by (simp add: spec_entries_numbers comp_def)
  moreover have "in_range (pa_numa pa) nodes" if "pa \<in> set ?pas" for pa
  proof -
    have "(pa_pod pa, pa_numa pa) \<in> set (numbers ?merged)"
      using that by (subst spec_entries_numbers [symmetric]) force
    then show ?thesis using range by auto
  qed
  ultimately have own': "own_node_ok nodes (?n\<lparr>node_affinity := ?pas\<rparr>)"
    using own(1) by (auto simp: own_node_ok_def comp_def list_all_iff)
  have "entries_match pods ?pas" using match by (simp only: spec_entries_match)
  with own' show ?thesis using round related_on_node [OF assms(3) cs assms(11) range match] by blast
qed

text \<open>
  C1: what the program is for, through all its parts. Let the agent's affinity service be a
  server in any state it can reach; let the own node of the resource be as the set-up wrote it or
  an earlier round left it (which the round does again), with no entry of another namespace under
  the name of a listed pod.
  Then one round of the numafast policy writes affinity entries such that any two pods that are
  related, however indirectly, both have an entry of their name and namespace, both entries name
  the same NUMA node, and each container of the two pods is in its pod's entry, by its ID, with
  CPUs of that node only: as many as it asks for if the pod is Guaranteed, else all of them. And
  when the written resource comes back as a watch event
  with updates enabled, the runtime is asked, in one request, for exactly the CPU sets of these
  entries, for the pods that exist by then.
\<close>

theorem numafast_end_to_end:
  assumes "server_reachable env st" and "range_order order" and "nodes_ok nodes"
    and "served_by cl w env order nodes st"
    and "read_oenuma cl a w = Ok oe" and "distinct (map node_name (oe_nodes oe))"
    and "node_index (ag_nodeName a) (oe_nodes oe) = Some i" and "own_node_ok nodes (oe_nodes oe ! i)"
    and "cl_list_pods cl w ''default'' NoSelector = (Some pods, None)" and "length pods < 1024"
    and "distinct (map kp_uid pods)" and "distinct (map kp_name pods)"
    and "getTidListForPods env (affinity_request pods) = Ok infos"
    and "entries_match pods (node_affinity (oe_nodes oe ! i))"
  shows "\<exists>pas oe'. oe' = update_spec_nodes (\<lambda>ns. ns[i := (oe_nodes oe ! i)\<lparr>node_affinity := pas\<rparr>]) oe
    \<and> updateByNumafastAware cl a w = write_oenuma cl a w oe'
    \<and> own_node_ok nodes ((oe_nodes oe ! i)\<lparr>node_affinity := pas\<rparr>) \<and> entries_match pods pas
    \<and> (\<forall>x < length pods. \<forall>y < length pods. x \<noteq> y \<longrightarrow>
        connected (affinity_edges hasPodAffinity (calculateGid env infos)) x y \<longrightarrow>
        (\<exists>k < length nodes. \<forall>z \<in> {x, y}. \<exists>pa \<in> set pas. entry_on_node nodes k (pods ! z) pa))
    \<and> (\<forall>un m w'. cl_to_oenuma cl un = Ok oe' \<longrightarrow> strings_ToUpper (spec_update (oe_spec oe)) = ''ENABLE'' \<longrightarrow>
        resmgr_ok m \<longrightarrow> rm_running m \<longrightarrow> (\<forall>ns name. \<not> go_is_panic (cl_get_pod cl w' ns name)) \<longrightarrow>
        fst (snd (updateByCrdConfig cl a m (Unstruct un) w'))
          = fst (cl_update_containers cl w' (concat (map (entry_updates cl w') pas))))"
proof -
  obtain pas where pas: "updateByNumafastAware cl a w = write_oenuma cl a w
        (update_spec_nodes (\<lambda>ns. ns[i := (oe_nodes oe ! i)\<lparr>node_affinity := pas\<rparr>]) oe)"
    "own_node_ok nodes ((oe_nodes oe ! i)\<lparr>node_affinity := pas\<rparr>)" "entries_match pods pas"
    "\<forall>x < length pods. \<forall>y < length pods. x \<noteq> y \<longrightarrow>
        connected (affinity_edges hasPodAffinity (calculateGid env infos)) x y \<longrightarrow>
        (\<exists>k < length nodes. \<forall>z \<in> {x, y}. \<exists>pa \<in> set pas. entry_on_node nodes k (pods ! z) pa)"
    using round_places [OF assms(1-5,7-14)] by blast
  let ?oe' = "update_spec_nodes (\<lambda>ns. ns[i := (oe_nodes oe ! i)\<lparr>node_affinity := pas\<rparr>]) oe"
  have "spec_update (oe_spec ?oe') = spec_update (oe_spec oe)" by (simp add: update_spec_nodes_def)
  then have "fst (snd (updateByCrdConfig cl a m (Unstruct un) w'))
      = fst (cl_update_containers cl w' (concat (map (entry_updates cl w') pas)))"
    if "cl_to_oenuma cl un = Ok ?oe'" "strings_ToUpper (spec_update (oe_spec oe)) = ''ENABLE''"
      "resmgr_ok m" "rm_running m" "\<forall>ns name. \<not> go_is_panic (cl_get_pod cl w' ns name)" for un m w'
    unfolding updateByCrdConfig_run [OF that(3,4,1,5)] own_node_updates [OF assms(6,7)]
    using that(2) by simp
  with pas show ?thesis by blast
qed

section \<open>A concrete round\<close>

text \<open>The server of the sample environment, and three pods of which the first two are related.\<close>

definition e2e_pod :: "string \<Rightarrow> string \<Rightarrow> k8s_pod" where
  "e2e_pod name cid = \<lparr>kp_name = name, kp_ns = ''default'', kp_uid = name, kp_labels = None,
     kp_qos = ''Guaranteed'', kp_containers = [\<lparr>kc_name = ''c'', kc_cpus = 1\<rparr>],
     kp_statuses = [\<lparr>cs_name = ''c'', cs_id = ''containerd://'' @ cid\<rparr>]\<rparr>"

definition e2e_pods :: "k8s_pod list" where
  "e2e_pods = [e2e_pod ''u1'' ''a'', e2e_pod ''u2'' ''b'', e2e_pod ''u3'' ''c'']"

definition e2e_cluster :: "(world, uobject) cluster" where
  "e2e_cluster = sample_cluster
     \<lparr>cl_numa_nodes := (\<lambda>w. go_map fst (GetNumaNodeInof ex_nodes server_initial)),
      cl_pod_affinity := (\<lambda>w req. go_map fst (GetPodAffinity ex_env id req (server_initial\<lparr>sv_numaNums := 2\<rparr>)))\<rparr>"

definition e2e_oenuma :: oenuma where
  "e2e_oenuma = sample_oenuma [\<lparr>node_name = ''n1'', node_numa = numa_entries (topology ex_nodes), node_affinity = []\<rparr>]"

definition e2e_world :: world where
  "e2e_world = sample_world (oe_nodes e2e_oenuma) [] e2e_pods []"

lemma e2e_nodes_ok: "nodes_ok ex_nodes"
  by code_simp

lemma e2e_served: "served_by e2e_cluster e2e_world ex_env id ex_nodes server_initial"
proof -
  have "length ex_nodes = 2" by code_simp
  then show ?thesis
    using GetNumaNodeInof_topology [OF e2e_nodes_ok, of server_initial]
    by (simp add: served_by_def e2e_cluster_def)
qed

lemma e2e_hyps:
  "read_oenuma e2e_cluster sample_agent e2e_world = Ok e2e_oenuma"
  "distinct (map node_name (oe_nodes e2e_oenuma))"
  "node_index (ag_nodeName sample_agent) (oe_nodes e2e_oenuma) = Some 0"
  "own_node_ok ex_nodes (oe_nodes e2e_oenuma ! 0)"
  "cl_list_pods e2e_cluster e2e_world ''default'' NoSelector = (Some e2e_pods, None)"
  "length e2e_pods < 1024" "distinct (map kp_uid e2e_pods)" "distinct (map kp_name e2e_pods)"
  "getTidListForPods ex_env (affinity_request e2e_pods) = Ok ex_infos"
  "entries_match e2e_pods (node_affinity (oe_nodes e2e_oenuma ! 0))"
  by code_simp+

lemma e2e_related: "connected (affinity_edges hasPodAffinity (calculateGid ex_env ex_infos)) 0 1"
proof -
  have "hasPodAffinity (calculateGid ex_env ex_infos ! 0) (calculateGid ex_env ex_infos ! 1)"
    by code_simp
  then have "(0, 1) \<in> affinity_edges hasPodAffinity (calculateGid ex_env ex_infos)"
    by (simp add: affinity_edges_def calculateGid_def ex_infos_def)
  then show ?thesis by (rule connected_edge)
qed

theorem numafast_end_to_end_witness:
  "\<exists>pas. own_node_ok ex_nodes ((oe_nodes e2e_oenuma ! 0)\<lparr>node_affinity := pas\<rparr>)
     \<and> (\<exists>k < 2. \<forall>z \<in> {0, 1}. \<exists>pa \<in> set pas. entry_on_node ex_nodes k (e2e_pods ! z) pa)"
proof -
  have n: "0 < length e2e_pods" "1 < length e2e_pods" "length ex_nodes = 2" by code_simp+
  note e2e = numafast_end_to_end [OF server_reachable.start range_order_id e2e_nodes_ok e2e_served e2e_hyps]
  show ?thesis using e2e e2e_related n by (metis zero_neq_one)
qed

end
