(* ===== verification/Rounds.thy ===== *)
theory Rounds
  imports EndToEnd
begin

text \<open>
  The numafast policy round after round: as long as its inputs stay, the next round writes the
  same resource. One of the inputs is the order in which the affinity server ranges over a Go map;
  what that does is shown in \<^verbatim>\<open>GroupOrder\<close>.
\<close>

section \<open>Merging the same groups again\<close>

lemma upd_map_add: "f(k \<mapsto> v) ++ g = f ++ ([k \<mapsto> v] ++ g)"
  by (rule ext) (auto simp: map_add_def split: option.split)

lemma fold_place_renumber:
  "\<forall>(num, p) \<in> set ps. pb_podName p \<in> pa_pod ` set pas \<Longrightarrow>
   fold (\<lambda>(num, p). nf_place num p) ps (renumber f pas) =
   renumber (f ++ map_of (rev (map (\<lambda>(num, p). (pb_podName p, num)) ps))) pas"
proof (induction ps arbitrary: f)
  case (Cons x ps)
  obtain num p where x: "x = (num, p)" by fastforce
  let ?g = "map_of (rev (map (\<lambda>(num, p). (pb_podName p, num)) ps))"
  have "fold (\<lambda>(num, p). nf_place num p) ps (renumber (f(pb_podName p \<mapsto> num)) pas) =
      renumber (f(pb_podName p \<mapsto> num) ++ ?g) pas"
    using Cons.prems by (intro Cons.IH) simp
  moreover have "f(pb_podName p \<mapsto> num) ++ ?g = f ++ (map_of [(pb_podName p, num)] ++ ?g)"
    by (simp only: map_of.simps fst_conv snd_conv) (rule upd_map_add)
  moreover have "nf_place num p (renumber f pas) = renumber (f(pb_podName p \<mapsto> num)) pas"
    using Cons.prems by (intro nf_place_renumber) (simp add: x)
  ultimately show ?case
    by (simp only: x fold_Cons comp_apply prod.case list.map rev.simps map_of_append)
qed simp

lemma renumber_fixed:
  "(\<And>name v. f name = Some v \<Longrightarrow> name \<in> pa_pod ` set pas \<Longrightarrow> map_of (numbers pas) name = Some v) \<Longrightarrow>
   renumber f pas = pas"
proof (induction pas arbitrary: f)
  case (Cons pa pas)
  have "renumber (f(pa_pod pa := None)) pas = pas"
  proof (rule Cons.IH)
    fix name v assume "(f(pa_pod pa := None)) name = Some v" "name \<in> pa_pod ` set pas"
    then show "map_of (numbers pas) name = Some v"
      using Cons.prems [of name v] by (auto split: if_split_asm)
  qed
  moreover have "pa_numa pa = v" if "f (pa_pod pa) = Some v" for v
    using Cons.prems [OF that] by simp
  ultimately show ?case by (auto split: option.split)
qed simp

text \<open>A list with the numbers that a merge gives is not changed by the same merge.\<close>

lemma nf_merge_again:
  assumes "numbers pas' = numbers (nf_merge groups pas)"
  shows "nf_merge groups pas' = pas'"
proof -
  obtain ps where ps: "nf_merge groups pas' = fold (\<lambda>(num, p). nf_place num p) ps pas'"
    "map (\<lambda>(num, p). (pb_podName p, num)) ps = assigned groups"
    using nf_merge_as_places by blast
  have map: "map_of (numbers pas') name = Some v" if "map_of (rev (assigned groups)) name = Some v" for name v
    using that by (simp add: assms nf_merge_map)
  have "pb_podName p \<in> pa_pod ` set pas'" if "(num, p) \<in> set ps" for num p
  proof -
    have "(pb_podName p, num) \<in> set (rev (assigned groups))" using that unfolding ps(2) [symmetric] by force
    then obtain v where "map_of (rev (assigned groups)) (pb_podName p) = Some v"
      by (metis map_of_eq_None_iff not_None_eq fst_conv image_eqI)
    from map_of_SomeD [OF map [OF this]] show ?thesis by auto
  qed
  then have "nf_merge groups pas' = renumber (map_of (rev (assigned groups))) pas'"
    using fold_place_renumber [of ps pas' Map.empty] unfolding ps by (auto simp: renumber_empty)
  also have "\<dots> = pas'" using map by (rule renumber_fixed)
  finally show ?thesis .
qed

lemma spec_entries_again:
  "spec_entries infos numas pods u (spec_entries infos numas pods v pas) = spec_entries infos numas pods u pas"
proof (induction pas arbitrary: u v)
  case (Cons pa pas)
  have "spec_containers infos numas pods n (pa\<lparr>pa_containers := cs\<rparr>) = spec_containers infos numas pods n pa"
    "spec_used pods u (pa\<lparr>pa_containers := cs\<rparr>) = spec_used pods u pa" for n u cs
    by (simp_all add: spec_containers_def spec_used_def entry_containers_def entry_requests_def entry_pinned_def
        entry_numa_def Let_def)
  with Cons show ?case by (simp add: entry_numa_def)
qed simp

lemma entry_in_range_again:
  "pa \<in> set (spec_entries infos numas pods u pas) \<Longrightarrow> \<forall>pa \<in> set pas. entry_in_range infos numas pods pa \<Longrightarrow>
   entry_in_range infos numas pods pa"
proof (induction pas arbitrary: u)
  case (Cons p pas)
  have "entry_in_range infos numas pods (p\<lparr>pa_containers := cs\<rparr>) = entry_in_range infos numas pods p" for cs
    by (simp add: entry_in_range_def entry_pinned_def entry_containers_def)
  with Cons show ?case by auto
qed simp

section \<open>The next round\<close>

text \<open>
  The API server gives back what was written last under the name of the resource, and the write
  changes nothing that the other inputs come from.
\<close>

definition reads_back :: "('w, 'u) cluster \<Rightarrow> agent_cfg \<Rightarrow> 'w \<Rightarrow> bool" where
  "reads_back cl a w \<longleftrightarrow> (\<forall>oe0 oe w1. read_oenuma cl a w = Ok oe0 \<longrightarrow> oe_meta oe = oe_meta oe0 \<longrightarrow>
     write_oenuma cl a w oe = (w1, Ok ()) \<longrightarrow>
     read_oenuma cl a w1 = Ok oe \<and> cl_numa_nodes cl w1 = cl_numa_nodes cl w
     \<and> cl_list_pods cl w1 = cl_list_pods cl w)"

lemma nf_entries_merge_again:
  assumes "nf_entries infos numas pods (nf_merge groups pas) = Ok pas'"
  shows "nf_entries infos numas pods (nf_merge groups pas') = Ok pas'"
proof -
  from assms have pas': "pas' = spec_entries infos numas pods (\<lambda>_. 0) (nf_merge groups pas)"
    and range: "\<forall>pa \<in> set (nf_merge groups pas). entry_in_range infos numas pods pa"
    by (simp_all add: nf_entries_eq split: if_splits)
  have "numbers pas' = numbers (nf_merge groups pas)" by (simp add: pas' spec_entries_numbers)
  then have "nf_merge groups pas' = pas'" by (rule nf_merge_again)
  moreover have "\<forall>pa \<in> set pas'. entry_in_range infos numas pods pa"
    using entry_in_range_again [OF _ range] by (simp add: pas')
  ultimately show ?thesis by (simp add: nf_entries_eq pas' spec_entries_again)
qed

lemma node_index_same_names:
  "map node_name ns = map node_name ns' \<Longrightarrow> node_index name ns = node_index name ns'"
proof (induction ns arbitrary: ns')
  case (Cons n ns)
  then show ?case by (cases ns') auto
qed simp

text \<open>
  C13: a round of the numafast policy leaves a resource that the next round writes again as it is,
  entry for entry, as long as the pods, the NUMA nodes and the affinity groups stay.
\<close>

theorem numafast_round_stable:
  assumes "reads_back cl a w" and "updateByNumafastAware cl a w = (w1, Ok ())"
    and "cl_pod_affinity cl w1 = cl_pod_affinity cl w"
  shows "\<exists>oe. read_oenuma cl a w1 = Ok oe \<and> updateByNumafastAware cl a w1 = write_oenuma cl a w1 oe"
proof -
  obtain oe info i pods groups pas where
    r: "read_oenuma cl a w = Ok oe" "GetNumaNodes cl w = Ok info" "node_index (ag_nodeName a) (oe_nodes oe) = Some i"
      "cl_list_pods cl w ''default'' NoSelector = (Some pods, None)"
      "GetPodAffinityRelationship cl w pods = Ok groups"
      "nf_entries (pbi_nodes info) (node_numa (oe_nodes oe ! i)) pods (nf_merge groups (node_affinity (oe_nodes oe ! i))) = Ok pas"
    and w1: "write_oenuma cl a w (update_spec_nodes (\<lambda>ns. ns[i := (oe_nodes oe ! i)\<lparr>node_affinity := pas\<rparr>]) oe) = (w1, Ok ())"
    using assms(2) unfolding updateByNumafastAware_def
    by (auto elim!: go_bind_OkE simp: Let_def split: go.split_asm option.split_asm prod.split_asm)
  let ?n = "(oe_nodes oe ! i)\<lparr>node_affinity := pas\<rparr>"
  let ?oe = "update_spec_nodes (\<lambda>ns. ns[i := ?n]) oe"
  have i: "i < length (oe_nodes oe)" using node_index_Some [OF r(3)] by simp
  have "map node_name ((oe_nodes oe)[i := ?n]) = map node_name (oe_nodes oe)"
    using i by (simp add: map_update list_update_same_conv)
  then have idx: "node_index (ag_nodeName a) (oe_nodes ?oe) = Some i"
    using node_index_same_names r(3) by (metis oe_nodes_update)
  have now: "read_oenuma cl a w1 = Ok ?oe" "GetNumaNodes cl w1 = Ok info"
      "cl_list_pods cl w1 ''default'' NoSelector = (Some pods, None)" "GetPodAffinityRelationship cl w1 pods = Ok groups"
    using assms(1,3) w1 r unfolding reads_back_def GetNumaNodes_def GetPodAffinityRelationship_def
    by (metis oe_meta_update)+
  define oe1 where "oe1 = ?oe"
  have oe1: "oe_nodes oe1 ! i = ?n" "update_spec_nodes (\<lambda>ns. ns[i := ?n]) oe1 = oe1"
    using i unfolding oe1_def by (simp, simp add: update_spec_nodes_def)
  have "updateByNumafastAware cl a w1 = write_oenuma cl a w1 oe1"
    using oe1 now idx nf_entries_merge_again [OF r(6)]
    by (simp add: updateByNumafastAware_def oe1_def [symmetric] Let_def)
  with now(1) show ?thesis by (auto simp: oe1_def)
qed

text \<open>Two pods that the groups put on node 1, a third that has an entry of its own.\<close>

definition round_world :: world where
  "round_world = sample_world
     [\<lparr>node_name = ''n1'', node_numa = numa_entries sample_numa, node_affinity = [sample_entry 0 ''a'', sample_entry 0 ''b'']\<rparr>]
     [] sample_pods
     [\<lparr>pbg_number = 1, pbg_pods = [\<lparr>pb_containerdIDs = [], pb_uid = ''a'', pb_podName = ''a'', pb_podNamespace = ''default''\<rparr>,
        \<lparr>pb_containerdIDs = [], pb_uid = ''c'', pb_podName = ''c'', pb_podNamespace = ''default''\<rparr>]\<rparr>]"

lemma sample_write:
  "write_oenuma sample_cluster sample_agent w oe =
     (w\<lparr>wd_oenumas := AList.update (''tcs'', om_name (oe_meta oe)) oe (wd_oenumas w)\<rparr>, Ok ())"
  by (simp add: write_oenuma_def UpdateConfigCrd_def sample_cluster_def sample_agent_def world_put_def)

lemma sample_read:
  "map_of (wd_oenumas w) (''tcs'', ''podafi'') = Some oe \<Longrightarrow> read_oenuma sample_cluster sample_agent w = Ok oe"
  by (simp add: read_oenuma_def GetConfigCrd_def sample_cluster_def sample_agent_def world_get_def)

lemma round_world_reads_back: "reads_back sample_cluster sample_agent round_world"
proof -
  have "map_of (wd_oenumas round_world) (''tcs'', ''podafi'') = Some (sample_oenuma
      [\<lparr>node_name = ''n1'', node_numa = numa_entries sample_numa, node_affinity = [sample_entry 0 ''a'', sample_entry 0 ''b'']\<rparr>])"
    by (simp add: round_world_def sample_world_def)
  note read = sample_read [OF this]
  have "read_oenuma sample_cluster sample_agent w1 = Ok oe \<and> cl_numa_nodes sample_cluster w1 = cl_numa_nodes sample_cluster round_world
      \<and> cl_list_pods sample_cluster w1 = cl_list_pods sample_cluster round_world"
    if "om_name (oe_meta oe) = ''podafi''"
      "w1 = round_world\<lparr>wd_oenumas := AList.update (''tcs'', om_name (oe_meta oe)) oe (wd_oenumas round_world)\<rparr>" for w1 oe
  proof -
    have "map_of (wd_oenumas w1) (''tcs'', ''podafi'') = Some oe" using that by (simp add: update_conv')
    from sample_read [OF this] that(2) show ?thesis by (simp add: sample_cluster_def)
  qed
  then show ?thesis
    unfolding reads_back_def read sample_write by (auto simp: sample_oenuma_def)
qed

theorem numafast_round_stable_witness:
  "\<exists>w1 oe. updateByNumafastAware sample_cluster sample_agent round_world = (w1, Ok ())
     \<and> updateByNumafastAware sample_cluster sample_agent w1 = write_oenuma sample_cluster sample_agent w1 oe
     \<and> map pa_numa (node_affinity (oe_nodes oe ! 0)) = [1, 0, 1]"
proof -
  define w1 where "w1 = fst (updateByNumafastAware sample_cluster sample_agent round_world)"
  have "go_is_ok (snd (updateByNumafastAware sample_cluster sample_agent round_world))" by code_simp
  then have run: "updateByNumafastAware sample_cluster sample_agent round_world = (w1, Ok ())"
    by (cases "updateByNumafastAware sample_cluster sample_agent round_world") (auto simp: w1_def go_is_ok_iff)
  have "cl_pod_affinity sample_cluster w1 = cl_pod_affinity sample_cluster round_world"
  proof -
    have "wd_groups w1 = wd_groups round_world" unfolding w1_def by code_simp
    then show ?thesis by (simp add: sample_cluster_def)
  qed
  from numafast_round_stable [OF round_world_reads_back run this] obtain oe
    where oe: "read_oenuma sample_cluster sample_agent w1 = Ok oe"
      "updateByNumafastAware sample_cluster sample_agent w1 = write_oenuma sample_cluster sample_agent w1 oe"
    by blast
  have "(case read_oenuma sample_cluster sample_agent w1 of Ok oe \<Rightarrow> map pa_numa (node_affinity (oe_nodes oe ! 0)) | _ \<Rightarrow> [])
      = [1, 0, 1]"
    unfolding w1_def by code_simp
  with oe run show ?thesis by auto
qed

end
