(* ===== verification/SharedResource.thy ===== *)
theory SharedResource
  imports LoadBalance CrdPolicyProps
begin

text \<open>
  The agents of all nodes work on one Oenuma resource: every handler that changes it reads the
  whole resource, computes a new one from its copy, and sends the whole back. What a handler may
  change of it is the node of its own agent; this theory shows that it changes nothing else, and
  what follows for the agents of a cluster. Between the read and the write of a handler there is
  no lock: a write of another agent in that time would be undone, unless the API server refuses
  the second write; nothing here rests on such a refusal, and nothing is shown about that case.
\<close>

section \<open>What the handlers compute from their copy\<close>

text \<open>Each of the four that write, cut off from the read and the write; \<^term>\<open>None\<close> is no write.\<close>

definition place_change :: "('w, 'u) cluster \<Rightarrow> agent_cfg \<Rightarrow> 'w \<Rightarrow> oenuma \<Rightarrow> oenuma option go" where
  "place_change cl a w oe = go_bind (GetNumaNodes cl w) (\<lambda>info. Ok (Some (place_node (ag_nodeName a) info oe)))"

definition lb_change :: "('w, 'u) cluster \<Rightarrow> agent_cfg \<Rightarrow> 'w \<Rightarrow> oenuma \<Rightarrow> oenuma option go" where
  "lb_change cl a w oe =
     go_bind (GetNumaNodes cl w) (\<lambda>info.
     go_bind (case getManagedPods cl a w of
                Ok wl \<Rightarrow> Ok (whitelist_map wl)
              | Err _ \<Rightarrow> Panic NilDereference
              | Panic p \<Rightarrow> Panic p) (\<lambda>wl.
       let (tgt, oe1) = lb_target (ag_nodeName a) info oe;
           podList = fst (cl_list_pods cl w '''' (FieldSelector (''spec.nodeName='' @ ag_nodeName a)))
       in go_bind (lb_pods info wl podList) (\<lambda>pas.
            Ok (Some (snd (write_target tgt (\<lambda>n. n\<lparr>node_affinity := pas\<rparr>) oe1))))))"

definition nf_change :: "('w, 'u) cluster \<Rightarrow> agent_cfg \<Rightarrow> 'w \<Rightarrow> oenuma \<Rightarrow> oenuma option go" where
  "nf_change cl a w oe =
     go_bind (GetNumaNodes cl w) (\<lambda>info.
       case node_index (ag_nodeName a) (oe_nodes oe) of
         None \<Rightarrow> Err ''faile to get targetNode''
       | Some i \<Rightarrow>
           (case cl_list_pods cl w ''default'' NoSelector of
              (_, Some e) \<Rightarrow> Err (''get pods list error: '' @ e)
            | (None, None) \<Rightarrow> Panic NilDereference
            | (Some pods, None) \<Rightarrow>
                go_bind (GetPodAffinityRelationship cl w pods) (\<lambda>groups.
                let n = oe_nodes oe ! i
                in go_bind (nf_entries (pbi_nodes info) (node_numa n) pods (nf_merge groups (node_affinity n)))
                     (\<lambda>pas. Ok (Some (update_spec_nodes (\<lambda>ns. ns[i := n\<lparr>node_affinity := pas\<rparr>]) oe))))))"

definition gone_change :: "agent_cfg \<Rightarrow> k8s_pod \<Rightarrow> oenuma \<Rightarrow> oenuma option go" where
  "gone_change a pod oe =
     Ok (map_option (\<lambda>i. update_spec_nodes (\<lambda>ns. ns[i :=
           (ns ! i)\<lparr>node_affinity := remove_pod pod (node_affinity (ns ! i))\<rparr>]) oe)
         (node_index (ag_nodeName a) (oe_nodes oe)))"

text \<open>The handlers are these between a read and a write with nothing in between.\<close>

definition run_change ::
    "('w, 'u) cluster \<Rightarrow> agent_cfg \<Rightarrow> (oenuma \<Rightarrow> oenuma option go) \<Rightarrow> 'w \<Rightarrow> 'w \<times> unit go" where
  "run_change cl a f w =
     (case go_bind (read_oenuma cl a w) f of
        Ok None \<Rightarrow> (w, Ok ()) | Ok (Some oe) \<Rightarrow> write_oenuma cl a w oe
      | Err e \<Rightarrow> (w, Err e) | Panic p \<Rightarrow> (w, Panic p))"

lemma go_bind_Some:
  "go_bind r (\<lambda>x. Ok (Some (f x))) = go_map Some (go_bind r (\<lambda>x. Ok (f x)))"
  "go_bind r (\<lambda>x. go_map Some (g x)) = go_map Some (go_bind r g)"
  by (cases r; simp)+

lemma run_change_Some:
  assumes "go_bind (read_oenuma cl a w) f = go_map Some r"
  shows "run_change cl a f w =
    (case r of Ok oe \<Rightarrow> write_oenuma cl a w oe | Err e \<Rightarrow> (w, Err e) | Panic p \<Rightarrow> (w, Panic p))"
  unfolding run_change_def assms by (cases r) simp_all

lemma nf_change_runs: "updateByNumafastAware cl a w = run_change cl a (nf_change cl a w) w"
  unfolding updateByNumafastAware_def
  by (rule run_change_Some [symmetric])
    (cases "read_oenuma cl a w"; cases "GetNumaNodes cl w";
      simp add: nf_change_def Let_def go_bind_Some split: option.split prod.split)

lemma place_change_runs:
  "CreateConfigCrd cl w (ag_crdname a) (ag_namespace a) = (w1, Ok u) \<Longrightarrow>
   setupConfigCrd cl a w = run_change cl a (place_change cl a w1) w1"
proof -
  have "go_bind (read_oenuma cl a w1) (place_change cl a w1) = go_map Some (go_bind (read_oenuma cl a w1)
      (\<lambda>oe. go_bind (GetNumaNodes cl w1) (\<lambda>info. Ok (place_node (ag_nodeName a) info oe))))"
    by (cases "read_oenuma cl a w1") (simp_all add: place_change_def go_bind_Some)
  note run = run_change_Some [OF this]
  assume "CreateConfigCrd cl w (ag_crdname a) (ag_namespace a) = (w1, Ok u)"
  then show ?thesis by (simp add: setupConfigCrd_def run)
qed

lemma gone_change_runs:
  "deleteObsoletePodsInCr cl a (PodObject pod) w = run_change cl a (gone_change a pod) w"
  unfolding deleteObsoletePodsInCr_def run_change_def gone_change_def
  by (cases "read_oenuma cl a w") (auto split: option.split)

text \<open>The load balancing reads the resource last: of several failing inputs it reports another.\<close>

lemma lb_change_runs:
  assumes "go_is_ok (read_oenuma cl a w)"
  shows "updateByLoadBalancing cl a w = run_change cl a (lb_change cl a w) w"
  unfolding updateByLoadBalancing_def
  using assms
  by (intro run_change_Some [symmetric])
    (cases "read_oenuma cl a w"; cases "GetNumaNodes cl w"; cases "getManagedPods cl a w";
      simp add: lb_change_def Let_def go_bind_Some split: prod.split)

lemma lb_change_unread:
  assumes "\<not> go_is_ok (read_oenuma cl a w)"
  shows "fst (updateByLoadBalancing cl a w) = w" and "fst (run_change cl a (lb_change cl a w) w) = w"
  using assms
  by (cases "read_oenuma cl a w"; cases "GetNumaNodes cl w"; cases "getManagedPods cl a w";
      simp add: updateByLoadBalancing_def run_change_def)+

section \<open>A change of one's own node\<close>

text \<open>What the agents rely on of each other: all but the nodes of one name stays as it is.\<close>

definition only_own_node :: "string \<Rightarrow> oenuma \<Rightarrow> oenuma \<Rightarrow> bool" where
  "only_own_node name oe oe' \<longleftrightarrow> oe_meta oe' = oe_meta oe
     \<and> (oe_spec oe')\<lparr>spec_node := []\<rparr> = (oe_spec oe)\<lparr>spec_node := []\<rparr>
     \<and> filter (\<lambda>n. node_name n \<noteq> name) (oe_nodes oe') = filter (\<lambda>n. node_name n \<noteq> name) (oe_nodes oe)"

locale own_node_change =
  fixes f :: "oenuma \<Rightarrow> oenuma option go" and name :: string
  assumes keeps_others: "f oe = Ok (Some oe') \<Longrightarrow> only_own_node name oe oe'"
begin

lemma runs_keep_others:
  assumes "read_oenuma cl a w = Ok oe"
  shows "fst (run_change cl a f w) = w
    \<or> (\<exists>oe'. run_change cl a f w = write_oenuma cl a w oe' \<and> only_own_node name oe oe')"
proof (cases "f oe")
  case (Ok x)
  then show ?thesis
    using assms keeps_others by (cases x) (auto simp: run_change_def)
qed (simp_all add: run_change_def assms)

end

lemma only_own_node_update:
  "filter (\<lambda>n. node_name n \<noteq> name) (f (oe_nodes oe)) = filter (\<lambda>n. node_name n \<noteq> name) (oe_nodes oe) \<Longrightarrow>
   only_own_node name oe (update_spec_nodes f oe)"
  by (simp add: only_own_node_def update_spec_nodes_def oe_nodes_def)

lemma filter_update_own:
  assumes "i < length ns" and "node_name (ns ! i) = name" and "node_name x = name"
  shows "filter (\<lambda>n. node_name n \<noteq> name) (ns[i := x]) = filter (\<lambda>n. node_name n \<noteq> name) ns"
  using assms(2,3) unfolding upd_conv_take_nth_drop [OF assms(1)]
  by (subst (3) id_take_nth_drop [OF assms(1)]) simp

interpretation place: own_node_change "place_change cl a w" "ag_nodeName a" for cl a w
proof unfold_locales
  fix oe oe' assume "place_change cl a w oe = Ok (Some oe')"
  then obtain info where oe': "oe' = place_node (ag_nodeName a) info oe"
    by (auto simp: place_change_def go_simps)
  show "only_own_node (ag_nodeName a) oe oe'"
    using last_node_index_Some [of "ag_nodeName a" "oe_nodes oe"]
    by (auto simp: oe' place_node_def filter_update_own intro!: only_own_node_update split: option.split)
qed

interpretation gone: own_node_change "gone_change a pod" "ag_nodeName a" for a pod
  by unfold_locales
    (auto simp: gone_change_def filter_update_own intro!: only_own_node_update dest!: node_index_Some)

lemma nf_change_node:
  assumes "nf_change cl a w oe = Ok (Some oe')"
  shows "\<exists>i pas. node_index (ag_nodeName a) (oe_nodes oe) = Some i
    \<and> oe' = update_spec_nodes (\<lambda>ns. ns[i := (oe_nodes oe ! i)\<lparr>node_affinity := pas\<rparr>]) oe"
proof -
  obtain x e where list: "cl_list_pods cl w ''default'' NoSelector = (x, e)" by fastforce
  with assms show ?thesis
    by (cases "node_index (ag_nodeName a) (oe_nodes oe)"; cases x; cases e)
      (auto simp: nf_change_def go_simps Let_def)
qed

interpretation nf: own_node_change "nf_change cl a w" "ag_nodeName a" for cl a w
  by unfold_locales (auto dest!: nf_change_node node_index_Some simp: filter_update_own intro!: only_own_node_update)

lemma lb_change_node:
  assumes "lb_change cl a w oe = Ok (Some oe')"
  shows "(\<exists>i pas. node_index (ag_nodeName a) (oe_nodes oe) = Some i
      \<and> oe' = update_spec_nodes (\<lambda>ns. ns[i := (ns ! i)\<lparr>node_affinity := pas\<rparr>]) oe)
    \<or> (\<exists>n. node_name n = ag_nodeName a \<and> oe' = update_spec_nodes (\<lambda>ns. ns @ [n]) oe)"
proof -
  have n: "\<exists>n. node_name n = ag_nodeName a \<and> update_spec_nodes (\<lambda>ns. ns @ [m]) oe = update_spec_nodes (\<lambda>ns. ns @ [n]) oe"
    if "node_name m = ag_nodeName a" for m using that by blast
  show ?thesis
    using assms
    by (cases "getManagedPods cl a w"; cases "node_index (ag_nodeName a) (oe_nodes oe)")
      (auto simp: lb_change_def lb_target_def go_simps Let_def intro!: n)
qed

interpretation lb: own_node_change "lb_change cl a w" "ag_nodeName a" for cl a w
  by unfold_locales (auto dest!: lb_change_node node_index_Some simp: filter_update_own intro!: only_own_node_update)

section \<open>The handlers of an agent\<close>

datatype handler = SetUp | LoadBalancing | NumafastAware | PodDeleted k8s_pod

fun run_handler :: "('w, 'u) cluster \<Rightarrow> agent_cfg \<Rightarrow> handler \<Rightarrow> 'w \<Rightarrow> 'w \<times> unit go" where
  "run_handler cl a SetUp w = setupConfigCrd cl a w"
| "run_handler cl a LoadBalancing w = updateByLoadBalancing cl a w"
| "run_handler cl a NumafastAware w = updateByNumafastAware cl a w"
| "run_handler cl a (PodDeleted pod) w = deleteObsoletePodsInCr cl a (PodObject pod) w"

text \<open>The set-up writes only what it has created itself.\<close>

lemma setup_of_existing:
  assumes "read_oenuma cl a w = Ok oe"
  shows "fst (setupConfigCrd cl a w) = w"
  using assms
  by (cases "cl_get cl w ''oenumas'' (ag_namespace a) (ag_crdname a)")
    (simp_all add: read_oenuma_def GetConfigCrd_def setupConfigCrd_def CreateConfigCrd_def)

lemma handler_keeps_others:
  assumes "read_oenuma cl a w = Ok oe"
  shows "fst (run_handler cl a h w) = w
    \<or> (\<exists>oe'. run_handler cl a h w = write_oenuma cl a w oe' \<and> only_own_node (ag_nodeName a) oe oe')"
proof (cases h)
  case SetUp
  then show ?thesis using setup_of_existing [OF assms] by simp
next
  case LoadBalancing
  have ok: "go_is_ok (read_oenuma cl a w)" using assms by simp
  from lb.runs_keep_others [OF assms, of cl a w] show ?thesis
    unfolding LoadBalancing run_handler.simps lb_change_runs [OF ok] .
next
  case NumafastAware
  from nf.runs_keep_others [OF assms, of cl a w] show ?thesis
    unfolding NumafastAware run_handler.simps nf_change_runs .
next
  case (PodDeleted pod)
  from gone.runs_keep_others [OF assms, of a pod] show ?thesis
    unfolding PodDeleted run_handler.simps gone_change_runs .
qed

text \<open>What the set-up writes when it has created the resource.\<close>

lemma setup_keeps_others:
  assumes "CreateConfigCrd cl w (ag_crdname a) (ag_namespace a) = (w1, Ok u)" and "read_oenuma cl a w1 = Ok oe"
  shows "fst (setupConfigCrd cl a w) = w1
    \<or> (\<exists>oe'. setupConfigCrd cl a w = write_oenuma cl a w1 oe' \<and> only_own_node (ag_nodeName a) oe oe')"
  using place.runs_keep_others [OF assms(2), of cl a w1] unfolding place_change_runs [OF assms(1)] .

section \<open>The agents of a cluster\<close>

text \<open>Handlers of any agents, one after the other, each as a whole.\<close>

fun run_handlers :: "('w, 'u) cluster \<Rightarrow> (agent_cfg \<times> handler) list \<Rightarrow> 'w \<Rightarrow> 'w" where
  "run_handlers cl [] w = w"
| "run_handlers cl ((a, h) # runs) w = run_handlers cl runs (fst (run_handler cl a h w))"

text \<open>
  The API server: after a write that keeps the metadata, the resource under the name that was read
  is what was written, or still the old one if the write was refused.
\<close>

definition resource_stored :: "('w, 'u) cluster \<Rightarrow> agent_cfg \<Rightarrow> bool" where
  "resource_stored cl a \<longleftrightarrow> (\<forall>w oe0 oe. read_oenuma cl a w = Ok oe0 \<longrightarrow> oe_meta oe = oe_meta oe0 \<longrightarrow>
     read_oenuma cl a (fst (write_oenuma cl a w oe)) \<in> {Ok oe0, Ok oe})"

definition same_resource :: "agent_cfg \<Rightarrow> agent_cfg \<Rightarrow> bool" where
  "same_resource a b \<longleftrightarrow> ag_namespace a = ag_namespace b \<and> ag_crdname a = ag_crdname b"

lemma same_resource_access:
  assumes "same_resource a b"
  shows "read_oenuma cl a = read_oenuma cl b" and "write_oenuma cl a = write_oenuma cl b"
proof -
  have eq: "ag_namespace a = ag_namespace b" "ag_crdname a = ag_crdname b"
    using assms by (simp_all add: same_resource_def)
  show "read_oenuma cl a = read_oenuma cl b" unfolding read_oenuma_def eq by (rule refl)
  show "write_oenuma cl a = write_oenuma cl b" unfolding write_oenuma_def eq by (rule refl)
qed

text \<open>The resource but the nodes of the given names.\<close>

definition outside :: "string set \<Rightarrow> oenuma \<Rightarrow> object_meta \<times> oenuma_spec \<times> node list" where
  "outside names oe = (oe_meta oe, (oe_spec oe)\<lparr>spec_node := []\<rparr>, filter (\<lambda>n. node_name n \<notin> names) (oe_nodes oe))"

lemma only_own_node_outside:
  assumes "only_own_node name oe oe'" and "name \<in> names"
  shows "outside names oe' = outside names oe"
proof -
  have "filter (\<lambda>n. node_name n \<notin> names) ns =
      filter (\<lambda>n. node_name n \<notin> names) (filter (\<lambda>n. node_name n \<noteq> name) ns)" for ns
    using assms(2) by (auto intro: filter_cong)
  then show ?thesis using assms(1) unfolding only_own_node_def outside_def by metis
qed

lemma run_handlers_keep:
  assumes "resource_stored cl a" and "\<forall>(b, h) \<in> set runs. same_resource b a \<and> ag_nodeName b \<in> names"
    and "read_oenuma cl a w = Ok oe"
  shows "\<exists>oe'. read_oenuma cl a (run_handlers cl runs w) = Ok oe' \<and> outside names oe' = outside names oe"
  using assms(2,3)
proof (induction runs arbitrary: w oe)
  case (Cons x runs)
  obtain b h where x: "x = (b, h)" by fastforce
  have b: "same_resource b a" "ag_nodeName b \<in> names" using Cons.prems(1) by (auto simp: x)
  let ?w = "fst (run_handler cl b h w)"
  have "\<exists>oe1. read_oenuma cl a ?w = Ok oe1 \<and> outside names oe1 = outside names oe"
  proof -
    have "read_oenuma cl b w = Ok oe" using same_resource_access(1) [OF b(1), of cl] Cons.prems(2) by simp
    from handler_keeps_others [OF this, of h] consider "?w = w"
      | oe' where "run_handler cl b h w = write_oenuma cl a w oe'" "only_own_node (ag_nodeName b) oe oe'"
      using same_resource_access(2) [OF b(1), of cl] by auto
    then show ?thesis
    proof cases
      case 1
      then show ?thesis using Cons.prems(2) by simp
    next
      case 2
      have "oe_meta oe' = oe_meta oe" using 2(2) by (simp add: only_own_node_def)
      then have "read_oenuma cl a ?w \<in> {Ok oe, Ok oe'}"
        using assms(1) Cons.prems(2) 2(1) by (simp add: resource_stored_def)
      then show ?thesis using only_own_node_outside [OF 2(2) b(2)] by auto
    qed
  qed
  then obtain oe1 where oe1: "read_oenuma cl a ?w = Ok oe1" "outside names oe1 = outside names oe" by blast
  have "\<forall>(b, h) \<in> set runs. same_resource b a \<and> ag_nodeName b \<in> names" using Cons.prems(1) by simp
  from Cons.IH [OF this oe1(1)] show ?case by (simp add: x oe1(2))
qed simp

text \<open>
  C12: an agent never changes what belongs to another. However many handlers the agents of some
  nodes run, in any order, each from its read to its write without another in between, and
  whether they succeed, fail or panic: the resource can still be read, and its metadata, its other fields and the
  nodes of all other names are as they were, in the same order.
\<close>

theorem handlers_keep_other_nodes:
  assumes "resource_stored cl a" and "\<forall>(b, h) \<in> set runs. same_resource b a \<and> ag_nodeName b \<in> names"
    and "read_oenuma cl a w = Ok oe"
  shows "\<exists>oe'. read_oenuma cl a (run_handlers cl runs w) = Ok oe'
    \<and> oe_meta oe' = oe_meta oe
    \<and> (oe_spec oe')\<lparr>spec_node := []\<rparr> = (oe_spec oe)\<lparr>spec_node := []\<rparr>
    \<and> filter (\<lambda>n. node_name n \<notin> names) (oe_nodes oe') = filter (\<lambda>n. node_name n \<notin> names) (oe_nodes oe)"
  using run_handlers_keep [OF assms] by (simp add: outside_def)

text \<open>
  Three nodes share the sample resource. The agents of the first and the second run a round of the
  numafast policy and the removal of a pod, which change both nodes; the third stays.
\<close>

definition share_nodes :: "node list" where
  "share_nodes = map (\<lambda>name. \<lparr>node_name = name, node_numa = numa_entries sample_numa,
     node_affinity = [\<lparr>pa_numa = 0, pa_pod = ''a'', pa_ns = ''default'', pa_containers = []\<rparr>]\<rparr>) [''n1'', ''n2'', ''n3'']"

definition share_pod :: k8s_pod where
  "share_pod = sample_pod ''default'' ''a'' ''Guaranteed'' [1]"

definition share_world :: world where
  "share_world = sample_world share_nodes [] [share_pod] []"

definition share_runs :: "(agent_cfg \<times> handler) list" where
  "share_runs = [(sample_agent, NumafastAware), (sample_agent\<lparr>ag_nodeName := ''n2''\<rparr>, PodDeleted share_pod)]"

lemma sample_resource_stored: "resource_stored sample_cluster sample_agent"
  by (auto simp: resource_stored_def sample_cluster_def sample_agent_def read_oenuma_def write_oenuma_def GetConfigCrd_def
      UpdateConfigCrd_def world_get_def world_put_def update_conv' split: option.splits if_splits sum.splits)

theorem handlers_keep_other_nodes_witness:
  "\<exists>oe'. read_oenuma sample_cluster sample_agent (run_handlers sample_cluster share_runs share_world) = Ok oe'
     \<and> filter (\<lambda>n. node_name n \<notin> {''n1'', ''n2''}) (oe_nodes oe') = [share_nodes ! 2]
     \<and> map (\<lambda>n. map (\<lambda>pa. length (pa_containers pa)) (node_affinity n)) (oe_nodes oe') = [[1], [], [0]]"
proof -
  have h: "\<forall>(b, h) \<in> set share_runs. same_resource b sample_agent \<and> ag_nodeName b \<in> {''n1'', ''n2''}"
    "read_oenuma sample_cluster sample_agent share_world = Ok (sample_oenuma share_nodes)"
    "filter (\<lambda>n. node_name n \<notin> {''n1'', ''n2''}) (oe_nodes (sample_oenuma share_nodes)) = [share_nodes ! 2]"
    by code_simp+
  have "go_map (\<lambda>oe. map (\<lambda>n. map (\<lambda>pa. length (pa_containers pa)) (node_affinity n)) (oe_nodes oe))
      (read_oenuma sample_cluster sample_agent (run_handlers sample_cluster share_runs share_world)) = Ok [[1], [], [0]]"
    by code_simp
  with handlers_keep_other_nodes [OF sample_resource_stored h(1,2)] show ?thesis
    using h(3) by (auto simp del: share_runs_def)
qed

end
