(* ===== verification/Protocol.thy ===== *)
theory Protocol
  imports EndToEnd
begin

text \<open>
  The generated code between the agent and an affinity server: the client stubs
  (\<open>pkg/policy/numafast/proto/podaffinity_grpc.pb.go\<close>), the handlers, the service description and
  the getters of the messages (\<open>pkg/podAffinityServer/proto\<close>, where the same files are once more).
  gRPC and the encoding of messages are libraries: the connection is a parameter, what it promises a
  hypothesis. The result is what \<^verbatim>\<open>EndToEnd\<close> takes for granted, that the agent gets the answers of
  the server.
\<close>

section \<open>Messages (podaffinity.pb.go)\<close>

text \<open>
  A pointer to a message behind an interface, which may be nil; the text that the registered Go
  types have for it; the zero messages that \<^verbatim>\<open>new\<close> makes.
\<close>

datatype proto_ptr =
    NullRequestPtr "unit option"
  | NumaInfoPtr "pb_numa_info option"
  | AffinityRequestPtr "pb_pod list option"
  | AffinityResponsePtr "pb_affinity_group list option"

fun message_name :: "proto_ptr \<Rightarrow> string" where
  "message_name (NullRequestPtr _) = ''NullRequest''"
| "message_name (NumaInfoPtr _) = ''NumaInfoResponse''"
| "message_name (AffinityRequestPtr _) = ''AffinityRequest''"
| "message_name (AffinityResponsePtr _) = ''AffinityResponse''"

definition zero_numa_info :: pb_numa_info where
  "zero_numa_info = \<lparr>pbi_valid = False, pbi_nodes = []\<rparr>"

text \<open>The getters: a nil pointer has the zero value.\<close>

definition NumaNode_GetNumaNumer :: "pb_numa_node option \<Rightarrow> int" where
  "NumaNode_GetNumaNumer x = (case x of Some x \<Rightarrow> pbn_number x | None \<Rightarrow> 0)"

definition NumaNode_GetCpuset :: "pb_numa_node option \<Rightarrow> string" where
  "NumaNode_GetCpuset x = (case x of Some x \<Rightarrow> pbn_cpuset x | None \<Rightarrow> '''')"

definition NumaNode_GetMemset :: "pb_numa_node option \<Rightarrow> string" where
  "NumaNode_GetMemset x = (case x of Some x \<Rightarrow> pbn_memset x | None \<Rightarrow> '''')"

definition NumaInfoResponse_GetValid :: "pb_numa_info option \<Rightarrow> bool" where
  "NumaInfoResponse_GetValid x = (case x of Some x \<Rightarrow> pbi_valid x | None \<Rightarrow> False)"

definition NumaInfoResponse_GetNumaNodes :: "pb_numa_info option \<Rightarrow> pb_numa_node list" where
  "NumaInfoResponse_GetNumaNodes x = (case x of Some x \<Rightarrow> pbi_nodes x | None \<Rightarrow> [])"

definition Pod_GetContainerdIDs :: "pb_pod option \<Rightarrow> string list" where
  "Pod_GetContainerdIDs x = (case x of Some x \<Rightarrow> pb_containerdIDs x | None \<Rightarrow> [])"

definition Pod_GetUid :: "pb_pod option \<Rightarrow> string" where
  "Pod_GetUid x = (case x of Some x \<Rightarrow> pb_uid x | None \<Rightarrow> '''')"

definition Pod_GetPodName :: "pb_pod option \<Rightarrow> string" where
  "Pod_GetPodName x = (case x of Some x \<Rightarrow> pb_podName x | None \<Rightarrow> '''')"

definition Pod_GetPodNamespace :: "pb_pod option \<Rightarrow> string" where
  "Pod_GetPodNamespace x = (case x of Some x \<Rightarrow> pb_podNamespace x | None \<Rightarrow> '''')"

text \<open>The messages of one field are the lists of it.\<close>

definition AffinityRequest_GetPods :: "pb_pod list option \<Rightarrow> pb_pod list" where
  "AffinityRequest_GetPods x = (case x of Some x \<Rightarrow> x | None \<Rightarrow> [])"

definition AffinityGroup_GetNumaNumer :: "pb_affinity_group option \<Rightarrow> int" where
  "AffinityGroup_GetNumaNumer x = (case x of Some x \<Rightarrow> pbg_number x | None \<Rightarrow> 0)"

definition AffinityGroup_GetPods :: "pb_affinity_group option \<Rightarrow> pb_pod list" where
  "AffinityGroup_GetPods x = (case x of Some x \<Rightarrow> pbg_pods x | None \<Rightarrow> [])"

definition AffinityResponse_GetAffinityGroup :: "pb_affinity_group list option \<Rightarrow> pb_affinity_group list" where
  "AffinityResponse_GetAffinityGroup x = (case x of Some x \<Rightarrow> x | None \<Rightarrow> [])"

section \<open>The client stubs (podaffinity_grpc.pb.go)\<close>

text \<open>
  \<^verbatim>\<open>Invoke\<close> of a connection: the full name of a method, the request, and the message that it fills
  with the answer of a server in state \<open>'s\<close>. The pointer to the answer keeps its type.
\<close>

type_synonym 's invoke = "string \<Rightarrow> proto_ptr \<Rightarrow> proto_ptr \<Rightarrow> 's \<Rightarrow> 's \<times> proto_ptr go"

definition GetNumaNodeInof_FullMethodName :: string where
  "GetNumaNodeInof_FullMethodName = ''/PodAffinityAware/GetNumaNodeInof''"

definition GetPodAffinity_FullMethodName :: string where
  "GetPodAffinity_FullMethodName = ''/PodAffinityAware/GetPodAffinity''"

definition client_GetNumaNodeInof :: "'s invoke \<Rightarrow> unit option \<Rightarrow> 's \<Rightarrow> 's \<times> pb_numa_info go" where
  "client_GetNumaNodeInof cc req s =
     (let (s1, r) = cc GetNumaNodeInof_FullMethodName (NullRequestPtr req) (NumaInfoPtr (Some zero_numa_info)) s
      in (s1, go_bind r (\<lambda>p. case p of NumaInfoPtr (Some out) \<Rightarrow> Ok out | _ \<Rightarrow> Panic TypeAssertion)))"

definition client_GetPodAffinity ::
    "'s invoke \<Rightarrow> pb_pod list option \<Rightarrow> 's \<Rightarrow> 's \<times> pb_affinity_group list go" where
  "client_GetPodAffinity cc req s =
     (let (s1, r) = cc GetPodAffinity_FullMethodName (AffinityRequestPtr req) (AffinityResponsePtr (Some [])) s
      in (s1, go_bind r (\<lambda>p. case p of AffinityResponsePtr (Some out) \<Rightarrow> Ok out | _ \<Rightarrow> Panic TypeAssertion)))"

section \<open>The service and its handlers (podaffinity_grpc.pb.go)\<close>

record 's service_impl =
  svc_GetNumaNodeInof :: "unit option \<Rightarrow> 's \<Rightarrow> 's \<times> pb_numa_info go"
  svc_GetPodAffinity :: "pb_pod list option \<Rightarrow> 's \<Rightarrow> 's \<times> pb_affinity_group list go"

text \<open>
  The methods as the handlers call them, behind interfaces; an interceptor gets the request, the
  name of the method and the method.
\<close>

type_synonym 's rpc_method = "proto_ptr \<Rightarrow> 's \<Rightarrow> 's \<times> proto_ptr go"

type_synonym 's interceptor = "proto_ptr \<Rightarrow> string \<Rightarrow> 's rpc_method \<Rightarrow> 's \<Rightarrow> 's \<times> proto_ptr go"

type_synonym 's rpc_handler =
  "'s service_impl \<Rightarrow> (proto_ptr \<Rightarrow> proto_ptr go) \<Rightarrow> 's interceptor option \<Rightarrow> 's \<Rightarrow> 's \<times> proto_ptr go"

definition numa_method :: "'s service_impl \<Rightarrow> 's rpc_method" where
  "numa_method srv req s =
     (case req of
        NullRequestPtr x \<Rightarrow> map_prod id (go_map (\<lambda>i. NumaInfoPtr (Some i))) (svc_GetNumaNodeInof srv x s)
      | _ \<Rightarrow> (s, Panic TypeAssertion))"

definition affinity_method :: "'s service_impl \<Rightarrow> 's rpc_method" where
  "affinity_method srv req s =
     (case req of
        AffinityRequestPtr x \<Rightarrow> map_prod id (go_map (\<lambda>i. AffinityResponsePtr (Some i))) (svc_GetPodAffinity srv x s)
      | _ \<Rightarrow> (s, Panic TypeAssertion))"

text \<open>\<open>dec\<close> fills the new request with what has come in.\<close>

definition GetNumaNodeInof_Handler :: "'s rpc_handler" where
  "GetNumaNodeInof_Handler srv dec interceptor s =
     (case dec (NullRequestPtr (Some ())) of
        Err e \<Rightarrow> (s, Err e) | Panic p \<Rightarrow> (s, Panic p)
      | Ok req \<Rightarrow>
          (case interceptor of
             None \<Rightarrow> numa_method srv req s
           | Some f \<Rightarrow> f req GetNumaNodeInof_FullMethodName (numa_method srv) s))"

definition GetPodAffinity_Handler :: "'s rpc_handler" where
  "GetPodAffinity_Handler srv dec interceptor s =
     (case dec (AffinityRequestPtr (Some [])) of
        Err e \<Rightarrow> (s, Err e) | Panic p \<Rightarrow> (s, Panic p)
      | Ok req \<Rightarrow>
          (case interceptor of
             None \<Rightarrow> affinity_method srv req s
           | Some f \<Rightarrow> f req GetPodAffinity_FullMethodName (affinity_method srv) s))"

record 's service_desc =
  sd_serviceName :: string
  sd_methods :: "(string \<times> 's rpc_handler) list"

definition PodAffinityAware_ServiceDesc :: "'s service_desc" where
  "PodAffinityAware_ServiceDesc = \<lparr>sd_serviceName = ''PodAffinityAware'',
     sd_methods = [(''GetNumaNodeInof'', GetNumaNodeInof_Handler), (''GetPodAffinity'', GetPodAffinity_Handler)]\<rparr>"

text \<open>A registrar takes a description and an implementation.\<close>

definition RegisterPodAffinityAwareServer ::
    "('s service_desc \<Rightarrow> 's service_impl \<Rightarrow> 'g \<Rightarrow> 'g go) \<Rightarrow> 's service_impl \<Rightarrow> 'g \<Rightarrow> 'g go" where
  "RegisterPodAffinityAwareServer registerService srv = registerService PodAffinityAware_ServiceDesc srv"

text \<open>What a server has that embeds nothing else; the text is that of the status package.\<close>

definition unimplemented_method :: "string \<Rightarrow> 'r go" where
  "unimplemented_method m = Err (''rpc error: code = Unimplemented desc = method '' @ m @ '' not implemented'')"

definition UnimplementedPodAffinityAwareServer :: "'s service_impl" where
  "UnimplementedPodAffinityAwareServer = \<lparr>
     svc_GetNumaNodeInof = (\<lambda>_ s. (s, unimplemented_method ''GetNumaNodeInof'')),
     svc_GetPodAffinity = (\<lambda>_ s. (s, unimplemented_method ''GetPodAffinity''))\<rparr>"

section \<open>What gRPC promises\<close>

text \<open>What comes in of a message: its content, the zero message of a nil pointer.\<close>

fun arrives :: "proto_ptr \<Rightarrow> proto_ptr" where
  "arrives (NullRequestPtr x) = NullRequestPtr (Some ())"
| "arrives (NumaInfoPtr x) =
     NumaInfoPtr (Some \<lparr>pbi_valid = NumaInfoResponse_GetValid x, pbi_nodes = NumaInfoResponse_GetNumaNodes x\<rparr>)"
| "arrives (AffinityRequestPtr x) = AffinityRequestPtr (Some (AffinityRequest_GetPods x))"
| "arrives (AffinityResponsePtr x) = AffinityResponsePtr (Some (AffinityResponse_GetAffinityGroup x))"

declare arrives.simps [simp del]

lemma arrives_same [simp]:
  "arrives (NullRequestPtr x) = NullRequestPtr (Some ())"
  "arrives (NumaInfoPtr (Some i)) = NumaInfoPtr (Some i)"
  "arrives (AffinityRequestPtr (Some ps)) = AffinityRequestPtr (Some ps)"
  "arrives (AffinityResponsePtr (Some gs)) = AffinityResponsePtr (Some gs)"
  by (simp_all add: arrives.simps NumaInfoResponse_GetValid_def NumaInfoResponse_GetNumaNodes_def
    AffinityRequest_GetPods_def AffinityResponse_GetAffinityGroup_def)

text \<open>
  A call of a described method runs its handler, without an interceptor, on a decoder that fills a
  message of the type of the request; the answer comes back, an error as an error. Of a handler
  that panics nothing is promised, nor of messages that cannot be encoded: those that \<open>carries\<close>
  excludes.
\<close>

definition grpc_delivers :: "(proto_ptr \<Rightarrow> bool) \<Rightarrow> 's invoke \<Rightarrow> 's service_desc \<Rightarrow> 's service_impl \<Rightarrow> bool" where
  "grpc_delivers carries cc desc srv \<longleftrightarrow>
     (\<forall>(meth, handler) \<in> set (sd_methods desc). \<forall>req reply s. carries req \<longrightarrow>
        (\<exists>dec. (\<forall>m. message_name m = message_name req \<longrightarrow> dec m = Ok (arrives req))
           \<and> (let call = cc (''/'' @ sd_serviceName desc @ ''/'' @ meth) req reply s
              in case handler srv dec None s of
                   (s1, Ok resp) \<Rightarrow> carries resp \<longrightarrow> message_name resp = message_name reply \<longrightarrow> call = (s1, Ok (arrives resp))
                 | (s1, Err e) \<Rightarrow> (\<exists>e'. call = (s1, Err e'))
                 | (s1, Panic p) \<Rightarrow> True)))"

lemma grpc_deliversE:
  assumes "grpc_delivers carries cc desc srv" and "(meth, handler) \<in> set (sd_methods desc)" and "carries req"
  obtains dec where "\<And>m. message_name m = message_name req \<Longrightarrow> dec m = Ok (arrives req)"
    and "\<And>s1 resp. handler srv dec None s = (s1, Ok resp) \<Longrightarrow> carries resp \<Longrightarrow> message_name resp = message_name reply \<Longrightarrow>
      cc (''/'' @ sd_serviceName desc @ ''/'' @ meth) req reply s = (s1, Ok (arrives resp))"
    and "\<And>s1 e. handler srv dec None s = (s1, Err e) \<Longrightarrow>
      \<exists>e'. cc (''/'' @ sd_serviceName desc @ ''/'' @ meth) req reply s = (s1, Err e')"
proof -
  from bspec [OF assms(1) [unfolded grpc_delivers_def] assms(2), unfolded prod.case Let_def,
      THEN spec, THEN spec [where x = reply], THEN spec [where x = s], THEN mp, OF assms(3)]
  obtain dec where
    dec: "\<forall>m. message_name m = message_name req \<longrightarrow> dec m = Ok (arrives req)"
    and call: "case handler srv dec None s of
        (s1, Ok resp) \<Rightarrow> carries resp \<longrightarrow> message_name resp = message_name reply \<longrightarrow>
          cc (''/'' @ sd_serviceName desc @ ''/'' @ meth) req reply s = (s1, Ok (arrives resp))
      | (s1, Err e) \<Rightarrow> \<exists>e'. cc (''/'' @ sd_serviceName desc @ ''/'' @ meth) req reply s = (s1, Err e')
      | (s1, Panic p) \<Rightarrow> True"
    by (elim exE conjE) (rule that)
  show thesis
  proof (rule that)
    show "message_name m = message_name req \<Longrightarrow> dec m = Ok (arrives req)" for m using dec by blast
    show "cc (''/'' @ sd_serviceName desc @ ''/'' @ meth) req reply s = (s1, Ok (arrives resp))"
      if "handler srv dec None s = (s1, Ok resp)" "carries resp" "message_name resp = message_name reply" for s1 resp
      using call that(2,3) unfolding that(1) prod.case go.case by blast
    show "\<exists>e'. cc (''/'' @ sd_serviceName desc @ ''/'' @ meth) req reply s = (s1, Err e')"
      if "handler srv dec None s = (s1, Err e)" for s1 e
      using call unfolding that prod.case go.case .
  qed
qed

lemma method_names:
  "''/'' @ sd_serviceName PodAffinityAware_ServiceDesc @ ''/'' @ ''GetNumaNodeInof'' = GetNumaNodeInof_FullMethodName"
  "''/'' @ sd_serviceName PodAffinityAware_ServiceDesc @ ''/'' @ ''GetPodAffinity'' = GetPodAffinity_FullMethodName"
  by (simp_all add: PodAffinityAware_ServiceDesc_def GetNumaNodeInof_FullMethodName_def GetPodAffinity_FullMethodName_def)

section \<open>A call reaches the implementation\<close>

lemma client_numa_reaches:
  assumes "grpc_delivers carries cc PodAffinityAware_ServiceDesc srv" and "carries (NullRequestPtr req)"
    and "svc_GetNumaNodeInof srv (Some ()) s = (s1, r)"
  shows "r = Ok info \<Longrightarrow> carries (NumaInfoPtr (Some info)) \<Longrightarrow> client_GetNumaNodeInof cc req s = (s1, Ok info)"
    and "r = Err e \<Longrightarrow> \<exists>e'. client_GetNumaNodeInof cc req s = (s1, Err e')"
proof -
  have "(''GetNumaNodeInof'', GetNumaNodeInof_Handler) \<in> set (sd_methods PodAffinityAware_ServiceDesc)"
    by (simp add: PodAffinityAware_ServiceDesc_def)
  from grpc_deliversE [OF assms(1) this, where req = "NullRequestPtr req" and reply = "NumaInfoPtr (Some zero_numa_info)" and s = s]
  obtain dec where names: "\<And>m. message_name m = message_name (NullRequestPtr req) \<Longrightarrow> dec m = Ok (arrives (NullRequestPtr req))"
    and ok: "\<And>s1 resp. GetNumaNodeInof_Handler srv dec None s = (s1, Ok resp) \<Longrightarrow> carries resp \<Longrightarrow>
        message_name resp = message_name (NumaInfoPtr (Some zero_numa_info)) \<Longrightarrow> cc GetNumaNodeInof_FullMethodName (NullRequestPtr req) (NumaInfoPtr (Some zero_numa_info)) s = (s1, Ok (arrives resp))"
    and err: "\<And>s1 e. GetNumaNodeInof_Handler srv dec None s = (s1, Err e) \<Longrightarrow> \<exists>e'. cc GetNumaNodeInof_FullMethodName (NullRequestPtr req) (NumaInfoPtr (Some zero_numa_info)) s = (s1, Err e')"
    unfolding method_names using assms(2) by blast
  have dec: "dec (NullRequestPtr (Some ())) = Ok (NullRequestPtr (Some ()))" using names [of "NullRequestPtr (Some ())"] by simp
  have run: "GetNumaNodeInof_Handler srv dec None s = (s1, go_map (\<lambda>i. NumaInfoPtr (Some i)) r)"
    by (simp add: GetNumaNodeInof_Handler_def numa_method_def dec assms(3))
  show "r = Ok info \<Longrightarrow> carries (NumaInfoPtr (Some info)) \<Longrightarrow> client_GetNumaNodeInof cc req s = (s1, Ok info)"
    using ok [of s1 "NumaInfoPtr (Some info)"] by (simp add: run client_GetNumaNodeInof_def)
  show "r = Err e \<Longrightarrow> \<exists>e'. client_GetNumaNodeInof cc req s = (s1, Err e')"
    using err [of s1 e] by (auto simp: run client_GetNumaNodeInof_def)
qed

lemma client_affinity_reaches:
  assumes "grpc_delivers carries cc PodAffinityAware_ServiceDesc srv" and "carries (AffinityRequestPtr (Some pods))"
    and "svc_GetPodAffinity srv (Some pods) s = (s1, r)"
  shows "r = Ok groups \<Longrightarrow> carries (AffinityResponsePtr (Some groups)) \<Longrightarrow>
      client_GetPodAffinity cc (Some pods) s = (s1, Ok groups)"
    and "r = Err e \<Longrightarrow> \<exists>e'. client_GetPodAffinity cc (Some pods) s = (s1, Err e')"
proof -
  have "(''GetPodAffinity'', GetPodAffinity_Handler) \<in> set (sd_methods PodAffinityAware_ServiceDesc)"
    by (simp add: PodAffinityAware_ServiceDesc_def)
  from grpc_deliversE [OF assms(1) this, where req = "AffinityRequestPtr (Some pods)" and reply = "AffinityResponsePtr (Some [])" and s = s]
  obtain dec where names: "\<And>m. message_name m = message_name (AffinityRequestPtr (Some pods)) \<Longrightarrow> dec m = Ok (arrives (AffinityRequestPtr (Some pods)))"
    and ok: "\<And>s1 resp. GetPodAffinity_Handler srv dec None s = (s1, Ok resp) \<Longrightarrow> carries resp \<Longrightarrow>
        message_name resp = message_name (AffinityResponsePtr (Some [])) \<Longrightarrow> cc GetPodAffinity_FullMethodName (AffinityRequestPtr (Some pods)) (AffinityResponsePtr (Some [])) s = (s1, Ok (arrives resp))"
    and err: "\<And>s1 e. GetPodAffinity_Handler srv dec None s = (s1, Err e) \<Longrightarrow> \<exists>e'. cc GetPodAffinity_FullMethodName (AffinityRequestPtr (Some pods)) (AffinityResponsePtr (Some [])) s = (s1, Err e')"
    unfolding method_names using assms(2) by blast
  have dec: "dec (AffinityRequestPtr (Some [])) = Ok (AffinityRequestPtr (Some pods))" using names [of "AffinityRequestPtr (Some [])"] by simp
  have run: "GetPodAffinity_Handler srv dec None s = (s1, go_map (\<lambda>i. AffinityResponsePtr (Some i)) r)"
    by (simp add: GetPodAffinity_Handler_def affinity_method_def dec assms(3))
  show "r = Ok groups \<Longrightarrow> carries (AffinityResponsePtr (Some groups)) \<Longrightarrow>
      client_GetPodAffinity cc (Some pods) s = (s1, Ok groups)"
    using ok [of s1 "AffinityResponsePtr (Some groups)"] by (simp add: run client_GetPodAffinity_def)
  show "r = Err e \<Longrightarrow> \<exists>e'. client_GetPodAffinity cc (Some pods) s = (s1, Err e')"
    using err [of s1 e] by (auto simp: run client_GetPodAffinity_def)
qed

section \<open>The agent and the servers\<close>

definition answered :: "('r \<times> 's) go \<Rightarrow> 's \<Rightarrow> 's \<times> 'r go" where
  "answered r s = (case r of Ok (x, s1) \<Rightarrow> (s1, Ok x) | Err e \<Rightarrow> (s, Err e) | Panic p \<Rightarrow> (s, Panic p))"

text \<open>\<^verbatim>\<open>affinityRequest.Pods\<close> of a nil request is a nil dereference.\<close>

definition grpcServer_service ::
    "server_env \<Rightarrow> ((nat \<times> nat list) list \<Rightarrow> (nat \<times> nat list) list) \<Rightarrow> c_numa_node list \<Rightarrow> server_state service_impl" where
  "grpcServer_service env order nodes = \<lparr>
     svc_GetNumaNodeInof = (\<lambda>_ s. answered (GetNumaNodeInof nodes s) s),
     svc_GetPodAffinity = (\<lambda>req s. case req of
         None \<Rightarrow> (s, Panic NilDereference)
       | Some pods \<Rightarrow> answered (GetPodAffinity env order pods s) s)\<rparr>"

text \<open>
  The agent's access to the cluster with the affinity server behind a connection: it asks for the
  NUMA nodes, with a nil request, before it asks for groups.
\<close>

definition over_connection :: "'s invoke \<Rightarrow> 's \<Rightarrow> ('w, 'u) cluster \<Rightarrow> ('w, 'u) cluster" where
  "over_connection cc s cl =
     (let (s1, info) = client_GetNumaNodeInof cc None s
      in cl\<lparr>cl_numa_nodes := (\<lambda>_. info), cl_pod_affinity := (\<lambda>_ pods. snd (client_GetPodAffinity cc (Some pods) s1))\<rparr>)"

text \<open>
  C2: through the generated stubs and handlers, over a connection that delivers, the agent gets
  exactly the NUMA nodes and the groups that the server computes for the agent's pods, one call
  after the other on the state of the server.
\<close>

theorem agent_reaches_server:
  assumes "grpc_delivers carries cc PodAffinityAware_ServiceDesc (grpcServer_service env order nodes)"
    and "GetNumaNodeInof nodes s = Ok (info, s1)"
    and "GetPodAffinity env order (affinity_request pods) s1 = Ok (groups, s2)"
    and "carries (NullRequestPtr None)" and "carries (NumaInfoPtr (Some info))"
    and "carries (AffinityRequestPtr (Some (affinity_request pods)))" and "carries (AffinityResponsePtr (Some groups))"
  shows "GetNumaNodes (over_connection cc s cl) w = Ok info
    \<and> GetPodAffinityRelationship (over_connection cc s cl) w pods = Ok groups"
proof -
  have "svc_GetNumaNodeInof (grpcServer_service env order nodes) (Some ()) s = (s1, Ok info)"
    by (simp add: grpcServer_service_def answered_def assms(2))
  from client_numa_reaches(1) [OF assms(1,4) this refl assms(5)]
  have numa: "client_GetNumaNodeInof cc None s = (s1, Ok info)" .
  have "svc_GetPodAffinity (grpcServer_service env order nodes) (Some (affinity_request pods)) s1 = (s2, Ok groups)"
    by (simp add: grpcServer_service_def answered_def assms(3))
  from client_affinity_reaches(1) [OF assms(1,6) this refl assms(7)] numa show ?thesis
    by (simp add: over_connection_def GetNumaNodes_def GetPodAffinityRelationship_def)
qed

text \<open>
  A connection that carries everything therefore has the agent served by the server in the sense
  that the end-to-end property asks for.
\<close>

lemma connection_serves:
  assumes "grpc_delivers (\<lambda>_. True) cc PodAffinityAware_ServiceDesc (grpcServer_service env order nodes)"
  shows "served_by (over_connection cc s cl) w env order nodes s"
proof -
  have "cl_numa_nodes (over_connection cc s cl) w = Ok info \<and>
      (\<forall>req resp s2. GetPodAffinity env order req s1 = Ok (resp, s2) \<longrightarrow>
        cl_pod_affinity (over_connection cc s cl) w req = Ok resp)"
    if "GetNumaNodeInof nodes s = Ok (info, s1)" for info s1
  proof -
    have "svc_GetNumaNodeInof (grpcServer_service env order nodes) (Some ()) s = (s1, Ok info)"
      by (simp add: grpcServer_service_def answered_def that)
    from client_numa_reaches(1) [OF assms(1) _ this refl]
    have numa: "client_GetNumaNodeInof cc None s = (s1, Ok info)" by blast
    have "snd (client_GetPodAffinity cc (Some req) s1) = Ok resp"
      if "GetPodAffinity env order req s1 = Ok (resp, s2)" for req resp s2
    proof -
      have "svc_GetPodAffinity (grpcServer_service env order nodes) (Some req) s1 = (s2, Ok resp)"
        by (simp add: grpcServer_service_def answered_def that)
      from client_affinity_reaches(1) [OF assms(1) _ this refl] show ?thesis by simp
    qed
    with numa show ?thesis by (simp add: over_connection_def)
  qed
  then show ?thesis by (simp add: served_by_def)
qed

text \<open>A server without methods of its own: the agent's calls return errors.\<close>

lemma unimplemented_errs:
  assumes "grpc_delivers (\<lambda>_. True) cc PodAffinityAware_ServiceDesc UnimplementedPodAffinityAwareServer"
  shows "\<exists>e. GetNumaNodes (over_connection cc s cl) w = Err e"
    and "\<exists>e. GetPodAffinityRelationship (over_connection cc s cl) w pods = Err e"
proof -
  obtain e1 where numa: "client_GetNumaNodeInof cc None s = (s, Err e1)"
    using client_numa_reaches(2) [OF assms, where req = None and s = s]
    by (auto simp: UnimplementedPodAffinityAwareServer_def unimplemented_method_def)
  obtain e2 where "client_GetPodAffinity cc (Some (affinity_request pods)) s = (s, Err e2)"
    using client_affinity_reaches(2) [OF assms, where pods = "affinity_request pods" and s = s]
    by (auto simp: UnimplementedPodAffinityAwareServer_def unimplemented_method_def)
  with numa show "\<exists>e. GetNumaNodes (over_connection cc s cl) w = Err e"
    and "\<exists>e. GetPodAffinityRelationship (over_connection cc s cl) w pods = Err e"
    by (simp_all add: over_connection_def GetNumaNodes_def GetPodAffinityRelationship_def)
qed

text \<open>A connection within the process, which hands messages over as they are.\<close>

definition local_connection :: "'s service_desc \<Rightarrow> 's service_impl \<Rightarrow> 's invoke" where
  "local_connection desc srv path req reply s =
     (case map_of (map (\<lambda>(meth, h). (''/'' @ sd_serviceName desc @ ''/'' @ meth, h)) (sd_methods desc)) path of
        None \<Rightarrow> (s, Err ''unknown method'')
      | Some h \<Rightarrow> map_prod id (go_map arrives)
          (h srv (\<lambda>m. if message_name m = message_name req then Ok (arrives req) else Err ''wrong type'') None s))"

lemma local_connection_delivers:
  "grpc_delivers (\<lambda>_. True) (local_connection PodAffinityAware_ServiceDesc srv) PodAffinityAware_ServiceDesc srv"
proof -
  have "(\<exists>dec. (\<forall>m. message_name m = message_name req \<longrightarrow> dec m = Ok (arrives req))
      \<and> (let call = local_connection PodAffinityAware_ServiceDesc srv
             (''/'' @ sd_serviceName PodAffinityAware_ServiceDesc @ ''/'' @ meth) req reply s
         in case handler srv dec None s of
              (s1, Ok resp) \<Rightarrow> message_name resp = message_name reply \<longrightarrow> call = (s1, Ok (arrives resp))
            | (s1, Err e) \<Rightarrow> (\<exists>e'. call = (s1, Err e'))
            | (s1, Panic p) \<Rightarrow> True))"
    if "(meth, handler) \<in> set (sd_methods PodAffinityAware_ServiceDesc)" for meth handler req reply s
    using that
    by (intro exI [of _ "\<lambda>m. if message_name m = message_name req then Ok (arrives req) else Err ''wrong type''"] conjI)
      (auto simp: local_connection_def PodAffinityAware_ServiceDesc_def Let_def split: prod.split go.split)
  then show ?thesis by (auto simp: grpc_delivers_def)
qed

theorem agent_reaches_server_witness:
  "let cl = over_connection
         (local_connection PodAffinityAware_ServiceDesc (grpcServer_service ex_env id ex_nodes)) server_initial sample_cluster
   in GetNumaNodes cl e2e_world = Ok (topology ex_nodes)
    \<and> GetPodAffinityRelationship cl e2e_world e2e_pods =
        Ok [\<lparr>pbg_number = 0, pbg_pods = take 2 (affinity_request e2e_pods)\<rparr>]"
proof -
  have "length ex_nodes = 2" by code_simp
  then have numa: "GetNumaNodeInof ex_nodes server_initial = Ok (topology ex_nodes, server_initial\<lparr>sv_numaNums := 2\<rparr>)"
    using GetNumaNodeInof_topology [OF e2e_nodes_ok, of server_initial] by simp
  have "go_map fst (GetPodAffinity ex_env id (affinity_request e2e_pods) (server_initial\<lparr>sv_numaNums := 2\<rparr>)) =
      Ok [\<lparr>pbg_number = 0, pbg_pods = take 2 (affinity_request e2e_pods)\<rparr>]"
    by code_simp
  then obtain s2 where "GetPodAffinity ex_env id (affinity_request e2e_pods) (server_initial\<lparr>sv_numaNums := 2\<rparr>) =
      Ok ([\<lparr>pbg_number = 0, pbg_pods = take 2 (affinity_request e2e_pods)\<rparr>], s2)"
    by (auto simp: go_simps)
  from agent_reaches_server [OF local_connection_delivers numa this] show ?thesis by (simp add: Let_def)
qed

end
