(* ===== verification/ConcurrentRequests.thy ===== *)
theory ConcurrentRequests
  imports AffinityProps
begin

text \<open>
  Requests served at once. The gRPC server runs every call of \<open>GetPodAffinity\<close> in a goroutine of
  its own, and all of them work on the one union-find array of the process, without a lock. A
  request is a thread here, whose steps are the single reads and writes of the array, those inside
  the recursion of \<^verbatim>\<open>find\<close> included; what is local to a request takes no steps of its own. Reads
  and writes of a cell take effect at once and in one order for all.
\<close>

section \<open>A request as a thread\<close>

text \<open>
  The recursion of \<^verbatim>\<open>find\<close>: \<open>Enter x\<close> is the comparison of \<open>x\<close> with its cell, \<open>Again x\<close> the read
  for the recursive call, \<open>Put x v\<close> the write of its result, \<open>Leave x\<close> the read that returns. The
  callers that wait for a result are a stack.
\<close>

datatype walk = Enter nat | Again nat | Leave nat | Put nat nat

text \<open>What the result is for: the first or the second \<^verbatim>\<open>find\<close> of a join, or the group of a pod.\<close>

datatype purpose =
    First nat "(nat \<times> nat) list"
  | Second nat "(nat \<times> nat) list"
  | Member nat "(nat, nat list) go_map"

text \<open>\<open>Pairs\<close> has the pairs of pods that the double loop has not looked at.\<close>

datatype rpc =
    Init nat
  | Pairs "(nat \<times> nat) list"
  | Find walk "nat list" purpose
  | Linking nat nat "(nat \<times> nat) list"
  | Collect nat "(nat, nat list) go_map"
  | Grouped "(nat, nat list) go_map"
  | Crashed go_panic

definition index_pairs :: "nat \<Rightarrow> (nat \<times> nat) list" where
  "index_pairs n = concat (map (\<lambda>i. map (Pair i) [Suc i..<n]) [0..<n])"

text \<open>A call that panics ends the thread, and with it the process; no call here returns an error.\<close>

definition proceed :: "nat list \<Rightarrow> 'a go \<Rightarrow> ('a \<Rightarrow> rpc \<times> nat list) \<Rightarrow> rpc \<times> nat list" where
  "proceed fa r k = (case r of Ok x \<Rightarrow> k x | Err e \<Rightarrow> (Crashed (PanicError e), fa) | Panic p \<Rightarrow> (Crashed p, fa))"

fun found :: "purpose \<Rightarrow> nat \<Rightarrow> rpc" where
  "found (First j ps) rx = Find (Enter j) [] (Second rx ps)"
| "found (Second rx ps) ry = Linking rx ry ps"
| "found (Member i groups) g = Collect (Suc i) (add_to_group i g groups)"

definition return_to :: "nat list \<Rightarrow> purpose \<Rightarrow> nat \<Rightarrow> rpc" where
  "return_to stack c v = (case stack of [] \<Rightarrow> found c v | x # xs \<Rightarrow> Find (Put x v) xs c)"

text \<open>\<open>frames\<close> is how many waiting callers the stack of a goroutine has room for.\<close>

fun find_step :: "nat \<Rightarrow> walk \<Rightarrow> nat list \<Rightarrow> purpose \<Rightarrow> nat list \<Rightarrow> rpc \<times> nat list" where
  "find_step frames (Enter x) stack c fa =
     proceed fa (go_nth fa (int x)) (\<lambda>v. (Find (if x \<noteq> v then Again x else Leave x) stack c, fa))"
| "find_step frames (Again x) stack c fa =
     proceed fa (go_nth fa (int x)) (\<lambda>v.
       (if length stack < frames then Find (Enter v) (x # stack) c else Crashed StackOverflow, fa))"
| "find_step frames (Put x v) stack c fa =
     proceed fa (go_set fa (int x) v) (\<lambda>fa1. (Find (Leave x) stack c, fa1))"
| "find_step frames (Leave x) stack c fa =
     proceed fa (go_nth fa (int x)) (\<lambda>v. (return_to stack c v, fa))"

fun rpc_step ::
    "nat \<Rightarrow> (pod_info \<Rightarrow> pod_info \<Rightarrow> bool) \<Rightarrow> pod_info list \<Rightarrow> rpc \<times> nat list \<Rightarrow> rpc \<times> nat list" where
  "rpc_step frames affine infos (Init i, fa) =
     proceed fa (go_set fa (int i) i) (\<lambda>fa1.
       (if i = length infos then Pairs (index_pairs (length infos)) else Init (Suc i), fa1))"
| "rpc_step frames affine infos (Pairs [], fa) = (Collect 0 [], fa)"
| "rpc_step frames affine infos (Pairs ((i, j) # ps), fa) =
     (if affine (infos ! i) (infos ! j) then Find (Enter i) [] (First j ps) else Pairs ps, fa)"
| "rpc_step frames affine infos (Find w stack c, fa) = find_step frames w stack c fa"
| "rpc_step frames affine infos (Linking rx ry ps, fa) =
     (if rx \<noteq> ry then proceed fa (go_set fa (int rx) ry) (\<lambda>fa1. (Pairs ps, fa1)) else (Pairs ps, fa))"
| "rpc_step frames affine infos (Collect i groups, fa) =
     (if i < length infos then Find (Enter i) [] (Member i groups) else Grouped groups, fa)"
| "rpc_step frames affine infos (Grouped groups, fa) = (Grouped groups, fa)"
| "rpc_step frames affine infos (Crashed p, fa) = (Crashed p, fa)"

section \<open>The whole call\<close>

text \<open>
  The pods of the request, what the server has found out about their threads, and the order in
  which \<^verbatim>\<open>range\<close> will visit the groups.
\<close>

record request =
  rq_pods :: "pb_pod list"
  rq_infos :: "pod_info list"
  rq_order :: "(nat \<times> nat list) list \<Rightarrow> (nat \<times> nat list) list"

text \<open>
  A call lists the threads of its pods and their relationship groups, which may panic; then it is in
  its grouping phase, the thread above; then it goes through the groups, with the
  groups left, the next number and the answer so far; then it has answered. A panic of the grouping
  or of the answering ends it.
\<close>

datatype call =
    Listing
  | Unlisted go_panic
  | Grouping rpc
  | Answering "(nat \<times> nat list) list" "int \<times> pb_affinity_group list"
  | Answered "pb_affinity_group list"
  | Died go_panic

text \<open>The listing reads nothing that calls share; \<open>env\<close> is the outside as it is by then.\<close>

definition list_threads :: "server_env \<Rightarrow> request \<Rightarrow> request \<times> call" where
  "list_threads env q =
     (case getTidListForPods env (rq_pods q) of
        Ok infos \<Rightarrow> (q\<lparr>rq_infos := calculateGid env infos\<rparr>, Grouping (Init 0))
      | Err e \<Rightarrow> (q, Unlisted (PanicError e))
      | Panic p \<Rightarrow> (q, Unlisted p))"

text \<open>
  One group of the answer, with the number of NUMA nodes as the server has it by then.
\<close>

definition answer_group ::
    "pb_pod list \<Rightarrow> pod_info list \<Rightarrow> int \<Rightarrow> nat \<times> nat list \<Rightarrow> int \<times> pb_affinity_group list \<Rightarrow>
     (int \<times> pb_affinity_group list) go" where
  "answer_group pods infos numaNums = (\<lambda>(g, idxs) (numaNode, resp).
     if length idxs < 2 then Ok (numaNode, resp)
     else go_bind (go_mod (numaNode + 1) numaNums) (\<lambda>numaNode1.
       go_bind (go_for (\<lambda>idx ps. go_map (\<lambda>p. ps @ [p]) (group_pod (pods_by_uid pods) infos idx)) idxs [])
         (\<lambda>ps. Ok (numaNode1, resp @ [\<lparr>pbg_number = numaNode, pbg_pods = ps\<rparr>]))))"

definition regroup :: "rpc \<Rightarrow> call" where
  "regroup r = (case r of Crashed p \<Rightarrow> Died p | _ \<Rightarrow> Grouping r)"

fun call_step ::
    "nat \<Rightarrow> (pod_info \<Rightarrow> pod_info \<Rightarrow> bool) \<Rightarrow> int \<Rightarrow> request \<Rightarrow> call \<times> nat list \<Rightarrow> call \<times> nat list" where
  "call_step frames affine numaNums q (Grouping r, fa) =
     (case r of
        Grouped groups \<Rightarrow> (Answering (rq_order q groups) (0, []), fa)
      | _ \<Rightarrow> (let (r1, fa1) = rpc_step frames affine (rq_infos q) (r, fa) in (regroup r1, fa1)))"
| "call_step frames affine numaNums q (Answering [] (numaNode, resp), fa) = (Answered resp, fa)"
| "call_step frames affine numaNums q (Answering (grp # rest) acc, fa) =
     (case answer_group (rq_pods q) (rq_infos q) numaNums grp acc of
        Ok acc1 \<Rightarrow> (Answering rest acc1, fa)
      | Err e \<Rightarrow> (Died (PanicError e), fa)
      | Panic p \<Rightarrow> (Died p, fa))"
| "call_step frames affine numaNums q (c, fa) = (c, fa)"

section \<open>A server with several calls\<close>

text \<open>The two globals, the calls, and the panic of a call for the NUMA nodes, if there was one.\<close>

record busy_server =
  bs_fa :: "nat list"
  bs_numaNums :: int
  bs_calls :: "(request \<times> call) list"
  bs_down :: "go_panic option"

definition has_panicked :: "call \<Rightarrow> bool" where
  "has_panicked c \<longleftrightarrow> (case c of Died p \<Rightarrow> True | Unlisted p \<Rightarrow> True | _ \<Rightarrow> False)"

definition is_up :: "busy_server \<Rightarrow> bool" where
  "is_up s \<longleftrightarrow> bs_down s = None \<and> list_all (\<lambda>(q, c). \<not> has_panicked c) (bs_calls s)"

definition run_call :: "nat \<Rightarrow> (pod_info \<Rightarrow> pod_info \<Rightarrow> bool) \<Rightarrow> nat \<Rightarrow> busy_server \<Rightarrow> busy_server" where
  "run_call frames affine k s =
     (let (q, c) = bs_calls s ! k; (c1, fa1) = call_step frames affine (bs_numaNums s) q (c, bs_fa s)
      in s\<lparr>bs_fa := fa1, bs_calls := (bs_calls s)[k := (q, c1)]\<rparr>)"

definition count_nodes :: "c_numa_node list \<Rightarrow> busy_server \<Rightarrow> busy_server" where
  "count_nodes nodes s =
     (case GetNumaNodeInof nodes \<lparr>sv_numaNums = bs_numaNums s, sv_fa = bs_fa s\<rparr> of
        Ok (info, st) \<Rightarrow> s\<lparr>bs_numaNums := sv_numaNums st\<rparr>
      | Err e \<Rightarrow> s
      | Panic p \<Rightarrow> s\<lparr>bs_down := Some p\<rparr>)"

text \<open>
  A panic of any call ends the process, and with it all steps. A call for the NUMA nodes is one
  step, as it only writes the number of nodes, at its end.
\<close>

inductive serve_step ::
    "nat \<Rightarrow> (pod_info \<Rightarrow> pod_info \<Rightarrow> bool) \<Rightarrow> busy_server \<Rightarrow> busy_server \<Rightarrow> bool" for frames affine where
  arrive: "is_up s \<Longrightarrow> range_order order \<Longrightarrow> q = \<lparr>rq_pods = pods, rq_infos = [], rq_order = order\<rparr> \<Longrightarrow>
    serve_step frames affine s (s\<lparr>bs_calls := bs_calls s @ [(q, Listing)]\<rparr>)"
| lists: "is_up s \<Longrightarrow> k < length (bs_calls s) \<Longrightarrow> bs_calls s ! k = (q, Listing) \<Longrightarrow>
    serve_step frames affine s (s\<lparr>bs_calls := (bs_calls s)[k := list_threads env q]\<rparr>)"
| run: "is_up s \<Longrightarrow> k < length (bs_calls s) \<Longrightarrow> serve_step frames affine s (run_call frames affine k s)"
| numa: "is_up s \<Longrightarrow> serve_step frames affine s (count_nodes nodes s)"

definition server_idle :: busy_server where
  "server_idle = \<lparr>bs_fa = fa_initial, bs_numaNums = 0, bs_calls = [], bs_down = None\<rparr>"

inductive serves :: "nat \<Rightarrow> (pod_info \<Rightarrow> pod_info \<Rightarrow> bool) \<Rightarrow> busy_server \<Rightarrow> bool" for frames affine where
  start: "serves frames affine server_idle"
| step: "serves frames affine s \<Longrightarrow> serve_step frames affine s t \<Longrightarrow> serves frames affine t"

section \<open>A request alone\<close>

text \<open>Steps of a request that no other request comes between.\<close>

definition reaches ::
    "nat \<Rightarrow> (pod_info \<Rightarrow> pod_info \<Rightarrow> bool) \<Rightarrow> pod_info list \<Rightarrow> rpc \<times> nat list \<Rightarrow> rpc \<times> nat list \<Rightarrow> bool" where
  "reaches frames affine infos c d \<longleftrightarrow> (\<exists>k. (rpc_step frames affine infos ^^ k) c = d)"

lemma reaches_refl: "reaches frames affine infos c c"
  unfolding reaches_def by (rule exI [of _ 0]) simp

lemma reaches_refl_ex: "\<exists>fa'. reaches frames affine infos (r, fa) (r, fa')"
  using reaches_refl by blast

lemma reaches_step:
  "reaches frames affine infos (rpc_step frames affine infos c) d \<Longrightarrow> reaches frames affine infos c d"
  unfolding reaches_def by (metis funpow_Suc_right o_apply)

lemma reaches_trans:
  "reaches frames affine infos c d \<Longrightarrow> reaches frames affine infos d e \<Longrightarrow> reaches frames affine infos c e"
proof -
  assume "reaches frames affine infos c d" "reaches frames affine infos d e"
  then obtain k l where "(rpc_step frames affine infos ^^ k) c = d" "(rpc_step frames affine infos ^^ l) d = e"
    by (auto simp: reaches_def)
  then have "(rpc_step frames affine infos ^^ (l + k)) c = e" by (simp add: funpow_add)
  then show "reaches frames affine infos c e" unfolding reaches_def by blast
qed

text \<open>
  Where the thread is after a loop of the handler: at its end, or crashed as it is. A \<^verbatim>\<open>find\<close> without
  an end crashes when the stack is full; that is shown for itself, below.
\<close>

definition ends_as ::
    "nat \<Rightarrow> (pod_info \<Rightarrow> pod_info \<Rightarrow> bool) \<Rightarrow> pod_info list \<Rightarrow> rpc \<times> nat list \<Rightarrow> 'a go \<Rightarrow> ('a \<Rightarrow> rpc \<times> nat list) \<Rightarrow>
     bool" where
  "ends_as frames affine infos c r f \<longleftrightarrow>
     (case r of Ok x \<Rightarrow> reaches frames affine infos c (f x)
      | Err e \<Rightarrow> \<exists>fa. reaches frames affine infos c (Crashed (PanicError e), fa)
      | Panic p \<Rightarrow> p \<noteq> StackOverflow \<longrightarrow> (\<exists>fa. reaches frames affine infos c (Crashed p, fa)))"

lemma ends_as_step:
  "ends_as frames affine infos (rpc_step frames affine infos c) r f \<Longrightarrow> ends_as frames affine infos c r f"
proof -
  have "reaches frames affine infos (rpc_step frames affine infos c) d \<Longrightarrow> reaches frames affine infos c d" for d
    by (rule reaches_step)
  then show "ends_as frames affine infos (rpc_step frames affine infos c) r f \<Longrightarrow> ends_as frames affine infos c r f"
    unfolding ends_as_def by (cases r) (simp_all, blast+)
qed

lemma ends_as_proceed:
  assumes "rpc_step frames affine infos c = proceed fa m k"
    and "\<And>x. m = Ok x \<Longrightarrow> ends_as frames affine infos (k x) (g x) f"
  shows "ends_as frames affine infos c (go_bind m g) f"
proof (rule ends_as_step)
  show "ends_as frames affine infos (rpc_step frames affine infos c) (go_bind m g) f"
    using assms(2) unfolding assms(1) proceed_def
    by (cases m) (simp_all add: ends_as_def reaches_refl_ex)
qed

lemma ends_as_bind:
  assumes "ends_as frames affine infos c m k"
    and "\<And>x. m = Ok x \<Longrightarrow> ends_as frames affine infos (k x) (g x) f"
  shows "ends_as frames affine infos c (go_bind m g) f"
proof (cases m)
  case (Ok x)
  then have "reaches frames affine infos c (k x)" "ends_as frames affine infos (k x) (g x) f"
    using assms by (simp_all add: ends_as_def)
  with Ok show ?thesis by (cases "g x") (auto simp: ends_as_def intro: reaches_trans)
qed (use assms(1) in \<open>simp_all add: ends_as_def\<close>)

text \<open>The recursion.\<close>

lemma uf_find_fuel_length: "uf_find_fuel k fa x = Ok (r, fa1) \<Longrightarrow> length fa1 = length fa"
proof (induction k arbitrary: x r fa1)
  case (Suc k)
  then show ?case by (auto simp: Let_def go_simps split: if_splits)
qed simp

text \<open>A node that is out of range, or a root.\<close>

lemma find_alone_root:
  assumes "\<not> (x < length fa \<and> fa ! x \<noteq> x)"
  shows "ends_as frames affine infos (Find (Enter x) stack c, fa) (uf_find_fuel (Suc k) fa x)
     (\<lambda>(r, fa1). (return_to stack c r, fa1))"
proof (cases "x < length fa")
  case True
  show ?thesis
    by (rule ends_as_step, rule ends_as_step) (use True assms in \<open>simp add: proceed_def ends_as_def reaches_refl\<close>)
next
  case False
  then show ?thesis by - (rule ends_as_step, simp add: proceed_def ends_as_def reaches_refl_ex)
qed

lemma find_alone_fuel:
  "length stack + k \<le> frames \<Longrightarrow>
   ends_as frames affine infos (Find (Enter x) stack c, fa) (uf_find_fuel (Suc k) fa x)
     (\<lambda>(r, fa1). (return_to stack c r, fa1))"
proof (induction k arbitrary: x stack)
  case 0
  show ?case
  proof (cases "x < length fa \<and> fa ! x \<noteq> x")
    case True
    then show ?thesis by (auto simp: ends_as_def)
  next
    case False
    then show ?thesis by (rule find_alone_root)
  qed
next
  case (Suc k)
  show ?case
  proof (cases "x < length fa \<and> fa ! x \<noteq> x")
    case False
    then show ?thesis by (rule find_alone_root)
  next
    case True
    have room: "length stack < frames" using Suc.prems by simp
    have again: "rpc_step frames affine infos (rpc_step frames affine infos (Find (Enter x) stack c, fa)) =
        (Find (Enter (fa ! x)) (x # stack) c, fa)"
      using True room by (simp add: proceed_def)
    have inner: "ends_as frames affine infos (Find (Enter (fa ! x)) (x # stack) c, fa)
        (uf_find_fuel (Suc k) fa (fa ! x)) (\<lambda>(r, fa1). (Find (Put x r) stack c, fa1))"
      using Suc.IH [of "x # stack" "fa ! x"] Suc.prems by (simp add: return_to_def)
    have outer: "uf_find_fuel (Suc (Suc k)) fa x =
        go_bind (uf_find_fuel (Suc k) fa (fa ! x)) (\<lambda>(r, fa1). Ok (fa1[x := r] ! x, fa1[x := r]))"
      using True by (subst uf_find_fuel.simps) (auto simp: Let_def intro!: go_bind_cong)
    show ?thesis
    proof (rule ends_as_step, rule ends_as_step, unfold again outer, rule ends_as_bind [OF inner])
      fix p assume p: "uf_find_fuel (Suc k) fa (fa ! x) = Ok p"
      obtain r fa1 where rf: "p = (r, fa1)" by fastforce
      have x1: "x < length fa1" using uf_find_fuel_length [of "Suc k" fa "fa ! x" r fa1] p rf True by simp
      have "rpc_step frames affine infos (rpc_step frames affine infos (Find (Put x r) stack c, fa1)) =
          (return_to stack c (fa1[x := r] ! x), fa1[x := r])"
        using x1 by (simp add: proceed_def)
      then show "ends_as frames affine infos (case p of (r, fa1) \<Rightarrow> (Find (Put x r) stack c, fa1))
          (case p of (r, fa1) \<Rightarrow> Ok (fa1[x := r] ! x, fa1[x := r])) (\<lambda>(r, fa1). (return_to stack c r, fa1))"
        unfolding rf prod.case by - (rule ends_as_step, rule ends_as_step, simp add: ends_as_def reaches_refl)
    qed
  qed
qed

lemma find_alone:
  "length fa \<le> frames \<Longrightarrow>
   ends_as frames affine infos (Find (Enter x) [] c, fa) (uf_find fa x) (\<lambda>(r, fa1). (found c r, fa1))"
  using find_alone_fuel [of "[]" "length fa" frames affine infos x c fa]
  by (simp only: uf_find_def return_to_def list.case list.size)

lemma init_alone:
  assumes "i \<le> length infos"
  shows "ends_as frames affine infos (Init i, fa)
    (go_for (\<lambda>i fa. go_set fa (int i) i) [i..<Suc (length infos)] fa)
    (\<lambda>fa1. (Pairs (index_pairs (length infos)), fa1))"
  using assms
proof (induction "length infos - i" arbitrary: i fa)
  case 0
  then have "i = length infos" by simp
  then show ?case
    by (simp del: rpc_step.simps go_bind_Ok_right go_set_nat)
      (rule ends_as_step, simp add: proceed_def ends_as_def reaches_refl reaches_refl_ex split: go.split)
next
  case (Suc m)
  then have upt: "[i..<Suc (length infos)] = i # [Suc i..<Suc (length infos)]" by (intro upt_conv_Cons) simp
  have ne: "(i = length infos) = False" using Suc.hyps(2) by simp
  have IH: "ends_as frames affine infos (Init (Suc i), fa1)
      (go_for (\<lambda>i fa. go_set fa (int i) i) [Suc i..<Suc (length infos)] fa1)
      (\<lambda>fa1. (Pairs (index_pairs (length infos)), fa1))" for fa1
    using Suc by (intro Suc.hyps(1)) auto
  show ?case
    unfolding upt go_for.simps
    by (rule ends_as_proceed [OF rpc_step.simps(1)]) (simp only: ne if_False IH)
qed

text \<open>The operations keep the length of the array.\<close>

lemma go_set_length: "go_set fa i v = Ok fa1 \<Longrightarrow> length fa1 = length fa"
  by (auto simp: go_set_def split: if_splits)

lemma uf_find_length: "uf_find fa x = Ok (r, fa1) \<Longrightarrow> length fa1 = length fa"
  unfolding uf_find_def by (rule uf_find_fuel_length)

lemma uf_join_length: "uf_join fa i j = Ok fa1 \<Longrightarrow> length fa1 = length fa"
  by (auto simp: uf_join_def go_simps simp del: go_set_nat split: if_splits dest!: uf_find_length go_set_length)

lemma init_length: "go_for (\<lambda>i fa. go_set fa (int i) i) is fa = Ok fa1 \<Longrightarrow> length fa1 = length fa"
  by (induction "is" arbitrary: fa) (auto simp: go_simps simp del: go_set_nat dest!: go_set_length)

lemma pairs_length:
  "go_for (\<lambda>(i, j) fa. if test i j then uf_join fa i j else Ok fa) ps fa = Ok fa1 \<Longrightarrow> length fa1 = length fa"
  by (induction ps arbitrary: fa) (auto simp: go_simps split: if_splits dest!: uf_join_length)

lemma join_alone:
  assumes "length fa \<le> frames"
  shows "ends_as frames affine infos (Find (Enter i) [] (First j ps), fa) (uf_join fa i j) (\<lambda>fa1. (Pairs ps, fa1))"
  unfolding uf_join_def
proof (rule ends_as_bind [OF find_alone [OF assms]])
  fix p assume p: "uf_find fa i = Ok p"
  obtain rx fa1 where rx: "p = (rx, fa1)" by fastforce
  have le: "length fa1 \<le> frames" using uf_find_length [of fa i rx fa1] p rx assms by simp
  show "ends_as frames affine infos (case p of (r, fa1) \<Rightarrow> (found (First j ps) r, fa1))
    (case p of (rx, fa1) \<Rightarrow> go_bind (uf_find fa1 j) (\<lambda>(ry, fa2).
       if rx \<noteq> ry then go_set fa2 (int rx) ry else Ok fa2)) (\<lambda>fa1. (Pairs ps, fa1))"
    unfolding rx prod.case found.simps
  proof (rule ends_as_bind [OF find_alone [OF le]])
    show "ends_as frames affine infos (case q of (r, fa1) \<Rightarrow> (found (Second rx ps) r, fa1))
      (case q of (ry, fa2) \<Rightarrow> if rx \<noteq> ry then go_set fa2 (int rx) ry else Ok fa2) (\<lambda>fa1. (Pairs ps, fa1))" for q
      by (cases q, rule ends_as_step)
        (simp add: proceed_def ends_as_def reaches_refl reaches_refl_ex split: go.split)
  qed
qed

lemma pairs_alone:
  "length fa \<le> frames \<Longrightarrow> ends_as frames affine infos (Pairs ps, fa)
    (go_for (\<lambda>(i, j) fa. if affine (infos ! i) (infos ! j) then uf_join fa i j else Ok fa) ps fa)
    (\<lambda>fa1. (Collect 0 [], fa1))"
proof (induction ps arbitrary: fa)
  case Nil
  then show ?case by - (rule ends_as_step, simp add: ends_as_def reaches_refl)
next
  case (Cons p ps)
  obtain i j where p: "p = (i, j)" by fastforce
  show ?case
  proof (cases "affine (infos ! i) (infos ! j)")
    case False
    then show ?thesis using Cons.IH [OF Cons.prems] by - (rule ends_as_step, simp add: p)
  next
    case True
    have "ends_as frames affine infos (Pairs (p # ps), fa) (uf_join fa i j) (\<lambda>fa1. (Pairs ps, fa1))"
      by (rule ends_as_step) (use True join_alone [OF Cons.prems] in \<open>simp add: p\<close>)
    moreover have "ends_as frames affine infos (Pairs ps, fa1)
      (go_for (\<lambda>(i, j) fa. if affine (infos ! i) (infos ! j) then uf_join fa i j else Ok fa) ps fa1)
      (\<lambda>fa1. (Collect 0 [], fa1))" if "uf_join fa i j = Ok fa1" for fa1
      by (rule Cons.IH) (simp add: uf_join_length [OF that] Cons.prems)
    ultimately show ?thesis
      unfolding go_for.simps p prod.case if_P [OF True] by (rule ends_as_bind)
  qed
qed

lemma collect_alone:
  "length fa \<le> frames \<Longrightarrow> ends_as frames affine infos (Collect i groups, fa)
    (go_for (\<lambda>i (groups, fa). go_bind (uf_find fa i) (\<lambda>(g, fa1). Ok (add_to_group i g groups, fa1)))
       [i..<length infos] (groups, fa))
    (\<lambda>(groups, fa1). (Grouped groups, fa1))"
proof (induction "length infos - i" arbitrary: i groups fa)
  case 0
  then show ?case by - (rule ends_as_step, simp add: ends_as_def reaches_refl)
next
  case (Suc m)
  then have upt: "[i..<length infos] = i # [Suc i..<length infos]" by (intro upt_conv_Cons) simp
  have step: "rpc_step frames affine infos (Collect i groups, fa) = (Find (Enter i) [] (Member i groups), fa)"
  proof -
    have "i < length infos" using Suc.hyps(2) by linarith
    then show ?thesis by simp
  qed
  have IH: "ends_as frames affine infos (Collect (Suc i) (add_to_group i g groups), fa1)
      (go_for (\<lambda>i (groups, fa). go_bind (uf_find fa i) (\<lambda>(g, fa1). Ok (add_to_group i g groups, fa1)))
       [Suc i..<length infos] (add_to_group i g groups, fa1))
      (\<lambda>(groups, fa1). (Grouped groups, fa1))" if "uf_find fa i = Ok (g, fa1)" for g fa1
    using Suc.hyps(2) Suc.prems uf_find_length [OF that] by (intro Suc.hyps(1)) auto
  show ?case
    unfolding upt go_for.simps prod.case go_bind_assoc
    by (rule ends_as_step, unfold step, rule ends_as_bind [OF find_alone [OF Suc.prems]])
      (simp only: split_paired_all prod.case go_bind.simps found.simps IH)
qed

lemma init_pairs_collect:
  assumes "length fa \<le> frames"
  shows "ends_as frames affine infos (Init 0, fa)
     (go_bind (join_related affine infos fa) (collect_groups (length infos)))
     (\<lambda>(groups, fa1). (Grouped groups, fa1))"
  unfolding join_related_def init_unionFindSet_def go_bind_assoc go_for_nested
    index_pairs_def [symmetric] collect_groups_def
proof (rule ends_as_bind)
  show "ends_as frames affine infos (Init 0, fa) (go_for (\<lambda>i fa. go_set fa (int i) i) [0..<Suc (length infos)] fa)
      (\<lambda>fa1. (Pairs (index_pairs (length infos)), fa1))"
    by (rule init_alone) simp
  fix fa1 assume "go_for (\<lambda>i fa. go_set fa (int i) i) [0..<Suc (length infos)] fa = Ok fa1"
  then have le: "length fa1 \<le> frames" using init_length assms by fastforce
  show "ends_as frames affine infos (Pairs (index_pairs (length infos)), fa1)
     (go_bind (go_for (\<lambda>(i, j) fa. if affine (infos ! i) (infos ! j) then uf_join fa i j else Ok fa)
         (index_pairs (length infos)) fa1)
       (\<lambda>fa. go_for (\<lambda>i (groups, fa). go_bind (uf_find fa i) (\<lambda>(g, fa1). Ok (add_to_group i g groups, fa1)))
         [0..<length infos] ([], fa)))
     (\<lambda>(groups, fa1). (Grouped groups, fa1))"
  proof (rule ends_as_bind [OF pairs_alone [OF le] collect_alone])
    fix fa2 assume "go_for (\<lambda>(i, j) fa. if affine (infos ! i) (infos ! j) then uf_join fa i j else Ok fa)
         (index_pairs (length infos)) fa1 = Ok fa2"
    then show "length fa2 \<le> frames" using pairs_length le by fastforce
  qed
qed

text \<open>The steps of the grouping are steps of the call.\<close>

lemma grouping_steps:
  "(rpc_step frames affine (rq_infos q) ^^ k) (r, fa) = (r1, fa1) \<Longrightarrow>
     \<exists>l. (call_step frames affine numaNums q ^^ l) (regroup r, fa) = (regroup r1, fa1)"
proof (induction k arbitrary: r fa)
  case 0
  then show ?case by (intro exI [of _ 0]) simp
next
  case (Suc k)
  obtain r2 fa2 where step: "rpc_step frames affine (rq_infos q) (r, fa) = (r2, fa2)" by fastforce
  have "(rpc_step frames affine (rq_infos q) ^^ k) (r2, fa2) = (r1, fa1)"
    using Suc.prems by (simp only: funpow_Suc_right o_apply step)
  from Suc.IH [OF this] obtain l where
    l: "(call_step frames affine numaNums q ^^ l) (regroup r2, fa2) = (regroup r1, fa1)" by blast
  show ?case
  proof (cases "(\<exists>groups. r = Grouped groups) \<or> (\<exists>p. r = Crashed p)")
    case True
    then have "r2 = r" "fa2 = fa" using step by auto
    with l show ?thesis by blast
  next
    case False
    then have "call_step frames affine numaNums q (regroup r, fa) = (regroup r2, fa2)"
      using step by (cases r) (auto simp: regroup_def)
    then have "(call_step frames affine numaNums q ^^ Suc l) (regroup r, fa) = (regroup r1, fa1)"
      using l by (simp only: funpow_Suc_right o_apply)
    then show ?thesis by blast
  qed
qed

definition call_ends ::
    "nat \<Rightarrow> (pod_info \<Rightarrow> pod_info \<Rightarrow> bool) \<Rightarrow> int \<Rightarrow> request \<Rightarrow> call \<times> nat list \<Rightarrow> call \<times> nat list \<Rightarrow> bool" where
  "call_ends frames affine numaNums q c d \<longleftrightarrow> (\<exists>k. (call_step frames affine numaNums q ^^ k) c = d)"

lemma call_ends_trans:
  assumes "call_ends frames affine numaNums q c d" and "call_ends frames affine numaNums q d e"
  shows "call_ends frames affine numaNums q c e"
proof -
  from assms obtain k l where "(call_step frames affine numaNums q ^^ k) c = d"
    "(call_step frames affine numaNums q ^^ l) d = e" by (auto simp: call_ends_def)
  then have "(call_step frames affine numaNums q ^^ (l + k)) c = e" by (simp add: funpow_add)
  then show ?thesis unfolding call_ends_def by blast
qed

lemma call_ends_step:
  "call_step frames affine numaNums q c = d \<Longrightarrow> call_ends frames affine numaNums q c d"
  unfolding call_ends_def by (rule exI [of _ 1]) simp

text \<open>The answer.\<close>

lemma affinity_groups_loop:
  "affinity_groups order numaNums pods infos groups =
     go_map snd (go_for (answer_group pods infos numaNums) (order groups) (0, []))"
  by (simp add: affinity_groups_def answer_group_def Let_def)

lemma answering_ends:
  "case go_for (answer_group (rq_pods q) (rq_infos q) numaNums) groups acc of
     Ok acc1 \<Rightarrow> call_ends frames affine numaNums q (Answering groups acc, fa) (Answered (snd acc1), fa)
   | Err e \<Rightarrow> call_ends frames affine numaNums q (Answering groups acc, fa) (Died (PanicError e), fa)
   | Panic p \<Rightarrow> call_ends frames affine numaNums q (Answering groups acc, fa) (Died p, fa)"
proof (induction groups arbitrary: acc)
  case Nil
  then show ?case by (cases acc) (simp add: call_ends_step)
next
  case (Cons grp groups)
  show ?case
  proof (cases "answer_group (rq_pods q) (rq_infos q) numaNums grp acc")
    case (Ok acc1)
    then have "call_ends frames affine numaNums q (Answering (grp # groups) acc, fa) (Answering groups acc1, fa)"
      by (intro call_ends_step) simp
    with Cons.IH [of acc1] Ok show ?thesis
      by (auto intro: call_ends_trans split: go.splits)
  qed (simp_all add: call_ends_step)
qed

text \<open>
  C6: A request that no other request comes between computes what the sequential handler does,
  when the stack has room for a caller per cell: its grouping ends with the groups and the array that
  the double loop followed by the collecting loop return, and crashes where they read or write
  outside the array; and the call as a whole ends with the answer of the handler, or with its
  panic.
\<close>

theorem request_alone:
  assumes "length fa \<le> frames"
  shows "(case go_bind (join_related affine infos fa) (collect_groups (length infos)) of
     Ok (groups, fa1) \<Rightarrow> \<exists>k. (rpc_step frames affine infos ^^ k) (Init 0, fa) = (Grouped groups, fa1)
   | Err e \<Rightarrow> \<exists>k fa1. (rpc_step frames affine infos ^^ k) (Init 0, fa) = (Crashed (PanicError e), fa1)
   | Panic p \<Rightarrow> p = StackOverflow \<or> (\<exists>k fa1. (rpc_step frames affine infos ^^ k) (Init 0, fa) = (Crashed p, fa1)))
   \<and> (case go_bind (join_related affine (rq_infos q) fa) (\<lambda>fa1.
             getPodsAffinity (rq_order q) (rq_pods q) (rq_infos q) \<lparr>sv_numaNums = numaNums, sv_fa = fa1\<rparr>) of
     Ok (resp, st) \<Rightarrow> \<exists>k. (call_step frames affine numaNums q ^^ k) (Grouping (Init 0), fa) = (Answered resp, sv_fa st)
   | Err e \<Rightarrow> \<exists>k fa1. (call_step frames affine numaNums q ^^ k) (Grouping (Init 0), fa) = (Died (PanicError e), fa1)
   | Panic p \<Rightarrow> p = StackOverflow
        \<or> (\<exists>k fa1. (call_step frames affine numaNums q ^^ k) (Grouping (Init 0), fa) = (Died p, fa1)))"
proof
  show "case go_bind (join_related affine infos fa) (collect_groups (length infos)) of
     Ok (groups, fa1) \<Rightarrow> \<exists>k. (rpc_step frames affine infos ^^ k) (Init 0, fa) = (Grouped groups, fa1)
   | Err e \<Rightarrow> \<exists>k fa1. (rpc_step frames affine infos ^^ k) (Init 0, fa) = (Crashed (PanicError e), fa1)
   | Panic p \<Rightarrow> p = StackOverflow \<or> (\<exists>k fa1. (rpc_step frames affine infos ^^ k) (Init 0, fa) = (Crashed p, fa1))"
    using init_pairs_collect [OF assms, of affine infos]
    by (auto simp: ends_as_def reaches_def split: go.split_asm go.split)
next
  let ?ends = "call_ends frames affine numaNums q (Grouping (Init 0), fa)"
  let ?groups = "go_bind (join_related affine (rq_infos q) fa) (collect_groups (length (rq_infos q)))"
  let ?answer = "affinity_groups (rq_order q) numaNums (rq_pods q) (rq_infos q)"
  have grouping: "?ends (regroup r1, fa1)" if "reaches frames affine (rq_infos q) (Init 0, fa) (r1, fa1)" for r1 fa1
    using grouping_steps [where q = q and r = "Init 0" and fa = fa and frames = frames and affine = affine and numaNums = numaNums] that
    by (auto simp: reaches_def call_ends_def regroup_def)
  note alone = init_pairs_collect [OF assms, of affine "rq_infos q", unfolded ends_as_def]
  have whole: "go_bind (join_related affine (rq_infos q) fa) (\<lambda>fa1.
      getPodsAffinity (rq_order q) (rq_pods q) (rq_infos q) \<lparr>sv_numaNums = numaNums, sv_fa = fa1\<rparr>) =
    go_bind ?groups (\<lambda>(groups, fa1).
      go_map (\<lambda>resp. (resp, \<lparr>sv_numaNums = numaNums, sv_fa = fa1\<rparr>)) (?answer groups))"
    by (simp add: getPodsAffinity_def go_bind_assoc split_beta)
  have "case go_bind ?groups (\<lambda>(groups, fa1).
      go_map (\<lambda>resp. (resp, \<lparr>sv_numaNums = numaNums, sv_fa = fa1\<rparr>)) (?answer groups)) of
     Ok (resp, st) \<Rightarrow> ?ends (Answered resp, sv_fa st)
   | Err e \<Rightarrow> \<exists>fa1. ?ends (Died (PanicError e), fa1)
   | Panic p \<Rightarrow> p = StackOverflow \<or> (\<exists>fa1. ?ends (Died p, fa1))"
  proof (cases ?groups)
    case (Ok x)
    obtain groups fa1 where x: "x = (groups, fa1)" by fastforce
    have "?ends (Grouping (Grouped groups), fa1)"
      using grouping [of "Grouped groups" fa1] alone Ok x by (simp add: regroup_def)
    moreover have "call_ends frames affine numaNums q (Grouping (Grouped groups), fa1)
        (Answering (rq_order q groups) (0, []), fa1)"
      by (rule call_ends_step) simp
    ultimately have start: "?ends (Answering (rq_order q groups) (0, []), fa1)" by (rule call_ends_trans)
    show ?thesis
      using answering_ends [where q = q and numaNums = numaNums and groups = "rq_order q groups" and acc = "(0, [])" and frames = frames and affine = affine and fa = fa1] call_ends_trans [OF start]
      by (auto simp: Ok x affinity_groups_loop split: go.split_asm)
  next
    case (Err e)
    then show ?thesis using grouping alone by (fastforce simp: regroup_def)
  next
    case (Panic p)
    then show ?thesis using grouping alone by (fastforce simp: regroup_def)
  qed
  then show "case go_bind (join_related affine (rq_infos q) fa) (\<lambda>fa1.
             getPodsAffinity (rq_order q) (rq_pods q) (rq_infos q) \<lparr>sv_numaNums = numaNums, sv_fa = fa1\<rparr>) of
     Ok (resp, st) \<Rightarrow> \<exists>k. (call_step frames affine numaNums q ^^ k) (Grouping (Init 0), fa) = (Answered resp, sv_fa st)
   | Err e \<Rightarrow> \<exists>k fa1. (call_step frames affine numaNums q ^^ k) (Grouping (Init 0), fa) = (Died (PanicError e), fa1)
   | Panic p \<Rightarrow> p = StackOverflow
        \<or> (\<exists>k fa1. (call_step frames affine numaNums q ^^ k) (Grouping (Init 0), fa) = (Died p, fa1))"
    unfolding whole call_ends_def by (auto split: go.split_asm go.split)
qed

section \<open>What requests keep of each other\<close>

text \<open>
  The array keeps its length and its values stay below it, whatever the order of the steps. Its
  forest does not: \<open>uf_inv\<close> is no invariant here.
\<close>

definition cells_ok :: "nat list \<Rightarrow> bool" where
  "cells_ok fa \<longleftrightarrow> length fa = 1024 \<and> list_all (\<lambda>v. v < 1024) fa"

definition lists_pods :: "nat \<Rightarrow> (nat, nat list) go_map \<Rightarrow> bool" where
  "lists_pods n groups \<longleftrightarrow> mset (concat (map snd groups)) = mset [0..<n]"

definition pairs_below :: "nat \<Rightarrow> (nat \<times> nat) list \<Rightarrow> bool" where
  "pairs_below n ps \<longleftrightarrow> list_all (\<lambda>(i, j). i < n \<and> j < n) ps"

fun walk_ok :: "walk \<Rightarrow> bool" where
  "walk_ok (Enter x) = (x < 1024)"
| "walk_ok (Again x) = (x < 1024)"
| "walk_ok (Leave x) = (x < 1024)"
| "walk_ok (Put x v) = (x < 1024 \<and> v < 1024)"

fun purpose_ok :: "nat \<Rightarrow> purpose \<Rightarrow> bool" where
  "purpose_ok n (First j ps) = (j < n \<and> pairs_below n ps)"
| "purpose_ok n (Second rx ps) = (rx < 1024 \<and> pairs_below n ps)"
| "purpose_ok n (Member i groups) = (i < n \<and> lists_pods i groups)"

fun rpc_ok :: "nat \<Rightarrow> rpc \<Rightarrow> bool" where
  "rpc_ok n (Init i) = (i \<le> n)"
| "rpc_ok n (Pairs ps) = pairs_below n ps"
| "rpc_ok n (Find w stack c) = (walk_ok w \<and> list_all (\<lambda>x. x < 1024) stack \<and> purpose_ok n c)"
| "rpc_ok n (Linking rx ry ps) = (rx < 1024 \<and> ry < 1024 \<and> pairs_below n ps)"
| "rpc_ok n (Collect i groups) = (i \<le> n \<and> lists_pods i groups)"
| "rpc_ok n (Grouped groups) = lists_pods n groups"
| "rpc_ok n (Crashed p) = (p = StackOverflow)"

lemma pairs_below_simps [simp]:
  "pairs_below n []"
  "pairs_below n ((i, j) # ps) \<longleftrightarrow> i < n \<and> j < n \<and> pairs_below n ps"
  "pairs_below n (index_pairs n)"
  by (auto simp: pairs_below_def list_all_iff index_pairs_def)

lemma cells_ok_length: "cells_ok fa \<Longrightarrow> length fa = 1024"
  by (simp add: cells_ok_def)

lemma cells_ok_nth: "cells_ok fa \<Longrightarrow> x < 1024 \<Longrightarrow> fa ! x < 1024"
  by (simp add: cells_ok_def list_all_length)

lemma cells_ok_update: "cells_ok fa \<Longrightarrow> v < 1024 \<Longrightarrow> cells_ok (fa[x := v])"
  by (cases "x < length fa") (auto simp: cells_ok_def list_all_length nth_list_update)

lemma add_to_group_pods: "lists_pods i groups \<Longrightarrow> lists_pods (Suc i) (add_to_group i g groups)"
proof -
  have "mset (concat (map snd (AList.update g ((case map_of m g of None \<Rightarrow> [] | Some is \<Rightarrow> is) @ [i]) m)))
      = add_mset i (mset (concat (map snd m)))" for m
    by (induction m) (auto split: option.splits)
  then show "lists_pods i groups \<Longrightarrow> lists_pods (Suc i) (add_to_group i g groups)"
    by (simp add: lists_pods_def add_to_group_def)
qed

lemma found_ok: "n < 1024 \<Longrightarrow> purpose_ok n c \<Longrightarrow> v < 1024 \<Longrightarrow> rpc_ok n (found c v)"
  by (cases c) (auto simp: add_to_group_pods)

lemma return_to_ok:
  "n < 1024 \<Longrightarrow> purpose_ok n c \<Longrightarrow> list_all (\<lambda>x. x < 1024) stack \<Longrightarrow> v < 1024 \<Longrightarrow> rpc_ok n (return_to stack c v)"
  by (cases stack) (simp_all add: return_to_def found_ok)

lemma find_step_ok:
  assumes "n < 1024" and "cells_ok fa" and "rpc_ok n (Find w stack c)"
    and "find_step frames w stack c fa = (r1, fa1)"
  shows "cells_ok fa1 \<and> rpc_ok n r1"
  using assms(2-4) return_to_ok [OF assms(1), of c stack]
  by (cases w) (auto simp: proceed_def cells_ok_length cells_ok_nth cells_ok_update split: if_splits)

lemma rpc_step_ok:
  assumes "length infos < 1024" and "cells_ok fa" and "rpc_ok (length infos) r"
    and "rpc_step frames affine infos (r, fa) = (r1, fa1)"
  shows "cells_ok fa1 \<and> rpc_ok (length infos) r1"
proof (cases r)
  case (Init i)
  with assms show ?thesis by (auto simp: proceed_def cells_ok_update cells_ok_length split: if_splits)
next
  case (Pairs ps)
  with assms show ?thesis
    by (cases "(frames, affine, infos, r, fa)" rule: rpc_step.cases) (auto simp: lists_pods_def split: if_splits)
next
  case (Find w stack c)
  with assms find_step_ok [OF assms(1,2), of w stack c frames r1 fa1] show ?thesis by simp
next
  case (Linking rx ry ps)
  with assms show ?thesis by (auto simp: proceed_def cells_ok_update cells_ok_length split: if_splits)
next
  case (Collect i groups)
  with assms show ?thesis by (auto split: if_splits)
qed (use assms in auto)

text \<open>The answer so far, when the groups \<open>done\<close> have been gone through: those of two pods and more.\<close>

definition splits_pods :: "nat \<Rightarrow> nat list list \<Rightarrow> bool" where
  "splits_pods n cs \<longleftrightarrow> mset (concat cs) = mset [0..<n]"

definition answers :: "pb_pod list \<Rightarrow> nat list list \<Rightarrow> pb_affinity_group list \<Rightarrow> bool" where
  "answers pods cs resp \<longleftrightarrow> map (\<lambda>g. map pb_uid (pbg_pods g)) resp =
     map (map (\<lambda>i. pb_uid (pods ! i))) (filter (\<lambda>c. 2 \<le> length c) cs)"

definition listed_ok :: "request \<Rightarrow> bool" where
  "listed_ok q \<longleftrightarrow> map pi_uid (rq_infos q) = map pb_uid (rq_pods q)"

fun call_ok :: "int \<Rightarrow> request \<Rightarrow> call \<Rightarrow> bool" where
  "call_ok numaNums q (Grouping r) \<longleftrightarrow> listed_ok q \<and> rpc_ok (length (rq_pods q)) r"
| "call_ok numaNums q (Answering groups acc) \<longleftrightarrow> listed_ok q
     \<and> (\<exists>cs. splits_pods (length (rq_pods q)) (cs @ map snd groups) \<and> answers (rq_pods q) cs (snd acc))"
| "call_ok numaNums q (Answered resp) \<longleftrightarrow>
     (\<exists>cs. splits_pods (length (rq_pods q)) cs \<and> answers (rq_pods q) cs resp)"
| "call_ok numaNums q (Died p) \<longleftrightarrow> p = StackOverflow \<or> p = DivideByZero \<and> numaNums = 0"
| "call_ok numaNums q c \<longleftrightarrow> True"

lemma listed_ok_length: "listed_ok q \<Longrightarrow> length (rq_infos q) = length (rq_pods q)"
  unfolding listed_ok_def by (metis length_map)

text \<open>Every pod of a request is found by its UID; of several with one UID, one is.\<close>

lemma pods_by_uid_some:
  assumes "p \<in> set pods"
  shows "map_of (pods_by_uid pods) (pb_uid p) \<noteq> None"
proof -
  have "map_of (fold (\<lambda>pod pp. AList.update (pb_uid pod) pod pp) ps m) u \<noteq> None"
    if "u \<in> pb_uid ` set ps \<or> map_of m u \<noteq> None" for ps m u
    using that by (induction ps arbitrary: m) (auto simp: update_conv')
  then show ?thesis using assms by (simp only: pods_by_uid_def) blast
qed

lemma group_pod_uid:
  assumes "listed_ok q" and "i < length (rq_pods q)"
  shows "\<exists>p. group_pod (pods_by_uid (rq_pods q)) (rq_infos q) i = Ok p \<and> pb_uid p = pb_uid (rq_pods q ! i)"
proof -
  have "pi_uid (rq_infos q ! i) = pb_uid (rq_pods q ! i)"
    using assms listed_ok_length [OF assms(1)] unfolding listed_ok_def by (metis nth_map)
  moreover obtain p where "map_of (pods_by_uid (rq_pods q)) (pb_uid (rq_pods q ! i)) = Some p"
    using pods_by_uid_some [OF nth_mem [OF assms(2)]] by blast
  ultimately show ?thesis
    using assms listed_ok_length [OF assms(1)] by (simp add: group_pod_def)
qed

lemma group_pods_uids:
  assumes "listed_ok q" and "\<forall>i \<in> set idxs. i < length (rq_pods q)"
  shows "\<exists>ps'. go_for (\<lambda>idx ps. go_map (\<lambda>p. ps @ [p]) (group_pod (pods_by_uid (rq_pods q)) (rq_infos q) idx)) idxs ps
      = Ok ps' \<and> map pb_uid ps' = map pb_uid ps @ map (\<lambda>i. pb_uid (rq_pods q ! i)) idxs"
  using assms(2)
proof (induction idxs arbitrary: ps)
  case (Cons i idxs)
  obtain p where p: "group_pod (pods_by_uid (rq_pods q)) (rq_infos q) i = Ok p" "pb_uid p = pb_uid (rq_pods q ! i)"
    using group_pod_uid [OF assms(1), of i] Cons.prems by auto
  with Cons.IH [of "ps @ [p]"] Cons.prems show ?case by auto
qed simp

lemma answer_group_ok:
  assumes "listed_ok q" and "\<forall>i \<in> set idxs. i < length (rq_pods q)" and "answers (rq_pods q) cs (snd acc)"
  shows "case answer_group (rq_pods q) (rq_infos q) numaNums (g, idxs) acc of
     Ok acc1 \<Rightarrow> answers (rq_pods q) (cs @ [idxs]) (snd acc1)
   | Err e \<Rightarrow> False
   | Panic p \<Rightarrow> p = DivideByZero \<and> numaNums = 0"
proof (cases "length idxs < 2")
  case True
  then show ?thesis using assms(3) by (cases acc) (simp add: answer_group_def answers_def)
next
  case False
  obtain n resp where acc: "acc = (n, resp)" by fastforce
  obtain ps where ps: "go_for (\<lambda>idx ps. go_map (\<lambda>p. ps @ [p]) (group_pod (pods_by_uid (rq_pods q)) (rq_infos q) idx)) idxs []
      = Ok ps" "map pb_uid ps = map (\<lambda>i. pb_uid (rq_pods q ! i)) idxs"
    using group_pods_uids [OF assms(1,2), of "[]"] by auto
  show ?thesis
    using assms(3) False by (simp add: acc answer_group_def ps answers_def go_mod_def)
qed

lemma range_order_splits:
  assumes "range_order order" and "lists_pods n groups"
  shows "splits_pods n (map snd (order groups))"
proof -
  have "mset (map (mset \<circ> snd) (order groups)) = mset (map (mset \<circ> snd) groups)"
    using assms(1) by (simp add: range_order_def)
  then have "sum_list (map (mset \<circ> snd) (order groups)) = sum_list (map (mset \<circ> snd) groups)"
    by (metis sum_mset_sum_list)
  then show ?thesis
    using assms(2) unfolding splits_pods_def lists_pods_def by (simp add: mset_concat comp_def)
qed

lemma call_step_ok:
  assumes "length (rq_pods q) < 1024" and "range_order (rq_order q)" and "cells_ok fa" and "call_ok numaNums q c"
    and "call_step frames affine numaNums q (c, fa) = (c1, fa1)"
  shows "cells_ok fa1 \<and> call_ok numaNums q c1"
proof (cases c)
  case (Grouping r)
  then have ok: "listed_ok q" "rpc_ok (length (rq_pods q)) r" using assms(4) by auto
  show ?thesis
  proof (cases "\<exists>groups. r = Grouped groups")
    case True
    then obtain groups where r: "r = Grouped groups" by blast
    have "splits_pods (length (rq_pods q)) ([] @ map snd (rq_order q groups))"
      using range_order_splits [OF assms(2)] ok(2) r by simp
    moreover have "answers (rq_pods q) [] []" by (simp add: answers_def)
    ultimately have "call_ok numaNums q (Answering (rq_order q groups) (0, []))"
      unfolding call_ok.simps snd_conv using ok(1) by blast
    then show ?thesis using assms(3,5) Grouping r by auto
  next
    case False
    obtain r1 fa2 where step: "rpc_step frames affine (rq_infos q) (r, fa) = (r1, fa2)" by fastforce
    then have c1: "c1 = regroup r1" "fa1 = fa2"
      using assms(5) False Grouping by (auto split: rpc.split_asm)
    have "cells_ok fa2 \<and> rpc_ok (length (rq_pods q)) r1"
      using rpc_step_ok [OF _ assms(3) _ step] ok assms(1) listed_ok_length [OF ok(1)] by simp
    then show ?thesis using ok(1) unfolding c1 by (cases r1) (simp_all add: regroup_def)
  qed
next
  case (Answering groups acc)
  then obtain cs where cs: "listed_ok q" "splits_pods (length (rq_pods q)) (cs @ map snd groups)"
    "answers (rq_pods q) cs (snd acc)"
    using assms(4) by auto
  show ?thesis
  proof (cases groups)
    case Nil
    with cs Answering assms(3,5) show ?thesis by (cases acc) auto
  next
    case (Cons grp rest)
    obtain g idxs where grp: "grp = (g, idxs)" by fastforce
    have "set idxs \<subseteq> set_mset (mset (concat (cs @ map snd groups)))" by (auto simp: Cons grp)
    also have "\<dots> = set_mset (mset [0..<length (rq_pods q)])"
      using cs(2) by (simp only: splits_pods_def)
    finally have "\<forall>i \<in> set idxs. i < length (rq_pods q)" by auto
    note one = answer_group_ok [OF cs(1) this cs(3), of numaNums g]
    have split: "splits_pods (length (rq_pods q)) ((cs @ [idxs]) @ map snd rest)" using cs(2) by (simp add: Cons grp)
    show ?thesis
    proof (cases "answer_group (rq_pods q) (rq_infos q) numaNums grp acc")
      case (Ok acc1)
      then have "c1 = Answering rest acc1" "fa1 = fa" "answers (rq_pods q) (cs @ [idxs]) (snd acc1)"
        using assms(5) one by (simp_all add: Answering Cons grp)
      moreover from this have "call_ok numaNums q (Answering rest acc1)"
        unfolding call_ok.simps using cs(1) split by blast
      ultimately show ?thesis using assms(3) by simp
    qed (use one assms(3,5) in \<open>auto simp: Answering Cons grp\<close>)
  qed
qed (use assms in auto)

text \<open>No call starts from pods without their threads listed.\<close>

lemma list_threads_ok: "list_threads env q = (q1, c) \<Longrightarrow> call_ok numaNums q1 c \<and> rq_pods q1 = rq_pods q \<and> rq_order q1 = rq_order q"
proof -
  assume run: "list_threads env q = (q1, c)"
  show ?thesis
  proof (cases "getTidListForPods env (rq_pods q)")
    case (Ok infos)
    have "map pi_uid (calculateGid env infos) = map pi_uid infos" by (simp add: calculateGid_def)
    then show ?thesis
      using run getTidListForPods_uids [OF Ok] by (auto simp: list_threads_def Ok listed_ok_def)
  qed (use run in \<open>auto simp: list_threads_def\<close>)
qed

definition small_requests :: "busy_server \<Rightarrow> bool" where
  "small_requests s \<longleftrightarrow> list_all (\<lambda>(q, c). length (rq_pods q) < 1024) (bs_calls s)"

definition busy_ok :: "busy_server \<Rightarrow> bool" where
  "busy_ok s \<longleftrightarrow> cells_ok (bs_fa s)
     \<and> list_all (\<lambda>(q, c). range_order (rq_order q) \<and> call_ok (bs_numaNums s) q c) (bs_calls s)"

lemma busy_ok_call:
  "busy_ok s \<Longrightarrow> k < length (bs_calls s) \<Longrightarrow> bs_calls s ! k = (q, c) \<Longrightarrow>
     range_order (rq_order q) \<and> call_ok (bs_numaNums s) q c"
  by (fastforce simp: busy_ok_def list_all_length)

lemma busy_ok_update:
  assumes "busy_ok s" and "cells_ok fa" and "range_order (rq_order q)" and "call_ok (bs_numaNums s) q c"
  shows "busy_ok (s\<lparr>bs_fa := fa, bs_calls := (bs_calls s)[k := (q, c)]\<rparr>)"
  using assms by (auto simp: busy_ok_def list_all_iff dest!: set_update_subset_insert [THEN subsetD])

lemma run_call_ok:
  assumes "busy_ok s" and "small_requests s" and "k < length (bs_calls s)"
  shows "busy_ok (run_call frames affine k s)"
proof -
  obtain q c where k: "bs_calls s ! k = (q, c)" by fastforce
  obtain c1 fa1 where step: "call_step frames affine (bs_numaNums s) q (c, bs_fa s) = (c1, fa1)" by fastforce
  have "length (rq_pods q) < 1024" "cells_ok (bs_fa s)"
    using assms k by (auto simp: busy_ok_def small_requests_def list_all_length)
  with call_step_ok [OF _ _ _ _ step] busy_ok_call [OF assms(1,3) k] have "cells_ok fa1" "call_ok (bs_numaNums s) q c1"
    by blast+
  then show ?thesis
    using busy_ok_update [OF assms(1), of fa1 q c1 k] busy_ok_call [OF assms(1,3) k] by (simp add: run_call_def k step)
qed

text \<open>Nothing changes the pods of a request.\<close>

definition requested :: "busy_server \<Rightarrow> pb_pod list list" where
  "requested s = map (\<lambda>(q, c). rq_pods q) (bs_calls s)"

lemma small_requested: "small_requests s \<longleftrightarrow> list_all (\<lambda>pods. length pods < 1024) (requested s)"
  by (simp add: small_requests_def requested_def list_all_iff split_beta)

lemma requested_update:
  assumes "k < length (bs_calls s)" and "rq_pods q = rq_pods (fst (bs_calls s ! k))"
  shows "map (\<lambda>(q, c). rq_pods q) ((bs_calls s)[k := (q, c)]) = requested s"
proof -
  have "map (\<lambda>(q, c). rq_pods q) ((bs_calls s)[k := (q, c)]) = (requested s)[k := rq_pods q]"
    by (simp add: map_update requested_def)
  also have "\<dots> = requested s"
    using assms by (simp add: requested_def list_update_same_conv split_beta)
  finally show ?thesis .
qed

lemma requested_run_call [simp]: "k < length (bs_calls s) \<Longrightarrow> requested (run_call frames affine k s) = requested s"
proof -
  assume k: "k < length (bs_calls s)"
  obtain q c where q: "bs_calls s ! k = (q, c)" by fastforce
  obtain c1 fa1 where step: "call_step frames affine (bs_numaNums s) q (c, bs_fa s) = (c1, fa1)" by fastforce
  have "map (\<lambda>(q, c). rq_pods q) ((bs_calls s)[k := (q, c1)]) = requested s"
    by (rule requested_update [OF k]) (simp add: q)
  then show ?thesis by (simp add: run_call_def q step) (simp add: requested_def)
qed

lemma requested_lists:
  assumes "k < length (bs_calls s)" and "bs_calls s ! k = (q, Listing)"
  shows "requested (s\<lparr>bs_calls := (bs_calls s)[k := list_threads env q]\<rparr>) = requested s"
proof -
  obtain q1 c where l: "list_threads env q = (q1, c)" by fastforce
  from list_threads_ok [OF this] requested_update [OF assms(1), of q1 c] assms(2) show ?thesis
    by (simp add: l) (simp add: requested_def)
qed

lemma is_up_call_ok:
  assumes "busy_ok s" and "is_up s"
  shows "busy_ok (s\<lparr>bs_numaNums := n\<rparr>)"
proof -
  have "call_ok n q c" if "call_ok (bs_numaNums s) q c" "\<not> has_panicked c" for q c
    using that by (cases c) (auto simp: has_panicked_def)
  then show ?thesis using assms by (fastforce simp: busy_ok_def is_up_def list_all_iff)
qed

lemma serves_ok: "serves frames affine s \<Longrightarrow> small_requests s \<Longrightarrow> busy_ok s"
proof (induction rule: serves.induct)
  case start
  show ?case by (simp add: busy_ok_def server_idle_def cells_ok_def fa_initial_def list_all_length)
next
  case (step s t)
  from step.hyps(2) show ?case
  proof cases
    case (arrive order q pods)
    with step show ?thesis by (simp add: busy_ok_def small_requests_def)
  next
    case (lists k q env)
    obtain q1 c where l: "list_threads env q = (q1, c)" by fastforce
    have "busy_ok s"
      using step requested_lists [OF lists(3,4)] unfolding lists(1) small_requested by simp
    moreover from this have "cells_ok (bs_fa s)" by (simp add: busy_ok_def)
    moreover have "range_order (rq_order q1) \<and> call_ok (bs_numaNums s) q1 c"
      using busy_ok_call [OF \<open>busy_ok s\<close> lists(3,4)] list_threads_ok [OF l] by simp
    ultimately show ?thesis
      using busy_ok_update [of s "bs_fa s" q1 c k] by (simp add: lists(1) l)
  next
    case (run k)
    with step show ?thesis by (simp add: run_call_ok small_requested)
  next
    case (numa nodes)
    have "requested t = requested s"
      unfolding numa(1) by (simp add: count_nodes_def requested_def split: go.split prod.split)
    then have ok: "busy_ok s" using step by (simp add: small_requested)
    have "busy_ok (s\<lparr>bs_down := d\<rparr>)" for d using ok by (simp add: busy_ok_def)
    then show ?thesis
      unfolding numa(1) using ok is_up_call_ok [OF ok numa(2)] by (auto simp: count_nodes_def split: go.split)
  qed
qed

text \<open>
  C7: However the steps of concurrent calls interleave, with fewer than 1024 pods in each, the
  union-find array keeps its 1024 cells and no call ever reads or writes outside it. Once the
  threads of its pods are listed, a call panics for two reasons only: a full stack, of a recursion
  of \<^verbatim>\<open>find\<close> too deep for it, or a division by the number of NUMA nodes while that is 0. A call
  that answers has split its pods into groups, each pod into exactly one, and its answer has those
  of at least two pods, in some order; so no pod is in two groups of an answer, or twice in one.
\<close>

theorem concurrent_requests_safe:
  assumes "serves frames affine s" and "small_requests s" and "(q, c) \<in> set (bs_calls s)"
  shows "length (bs_fa s) = 1024
    \<and> (case c of
         Died p \<Rightarrow> p = StackOverflow \<or> p = DivideByZero \<and> bs_numaNums s = 0
       | Answered resp \<Rightarrow> (\<exists>cs. mset (concat cs) = mset [0..<length (rq_pods q)]
           \<and> map (\<lambda>g. map pb_uid (pbg_pods g)) resp =
             map (map (\<lambda>i. pb_uid (rq_pods q ! i))) (filter (\<lambda>c. 2 \<le> length c) cs))
       | _ \<Rightarrow> True)"
proof -
  have "busy_ok s" using assms(1,2) by (rule serves_ok)
  then have "cells_ok (bs_fa s)" and "call_ok (bs_numaNums s) q c"
    using assms(3) by (auto simp: busy_ok_def list_all_iff)
  then show ?thesis
    by (cases c) (auto simp: cells_ok_length splits_pods_def answers_def)
qed

section \<open>What requests do to each other\<close>

text \<open>A schedule names the call that goes on next; it fails where the server is down.\<close>

fun run_schedule ::
    "nat \<Rightarrow> (pod_info \<Rightarrow> pod_info \<Rightarrow> bool) \<Rightarrow> nat list \<Rightarrow> busy_server \<Rightarrow> busy_server option" where
  "run_schedule frames affine [] s = Some s"
| "run_schedule frames affine (k # ks) s =
     (if is_up s \<and> k < length (bs_calls s) then run_schedule frames affine ks (run_call frames affine k s) else None)"

lemma run_schedule_serves:
  "run_schedule frames affine ks s = Some t \<Longrightarrow> serves frames affine s \<Longrightarrow> serves frames affine t"
  by (induction ks arbitrary: s) (auto split: if_splits intro: serves.step serve_step.run)

lemma run_schedule_requested: "run_schedule frames affine ks s = Some t \<Longrightarrow> requested t = requested s"
  by (induction ks arbitrary: s) (auto split: if_splits)

text \<open>
  Two requests of four pods, each pod with one container and each container with one process, named
  by the container's ID; process 20 has a second thread, 24. The kernel relates thread 12 to 13,
  and the threads 20, 21 and 24 to 21, 22 and 23: so of the first request only the last two pods are
  related; of the second the first with the second and the fourth, and the second with the third.
\<close>

definition busy_env :: server_env where
  "busy_env = \<lparr>ev_crictl = Ok, ev_yaml_pid = strconv_Atoi,
     ev_ps = (\<lambda>pid. if pid = 20 then Ok ''root 20 24 20 0 app'' else Err ''exit status 1''),
     ev_get_gid = (\<lambda>tid. if tid = 12 then 13 else if tid = 20 then 21 else if tid = 21 then 22
       else if tid = 24 then 23 else -1)\<rparr>"

definition busy_pods :: "string list \<Rightarrow> pb_pod list" where
  "busy_pods = map (\<lambda>cid. \<lparr>pb_containerdIDs = [''containerd://'' @ cid], pb_uid = cid, pb_podName = cid,
     pb_podNamespace = ''default''\<rparr>)"

definition ex_pods_a :: "pb_pod list" where
  "ex_pods_a = busy_pods [''10'', ''11'', ''12'', ''13'']"

definition ex_pods_b :: "pb_pod list" where
  "ex_pods_b = busy_pods [''20'', ''21'', ''22'', ''23'']"

definition busy_info :: "string \<Rightarrow> int list \<Rightarrow> int list \<Rightarrow> pod_info" where
  "busy_info uid tids gids = \<lparr>pi_uid = uid, pi_tids = tids, pi_gids = gids\<rparr>"

definition ex_request_a :: request where
  "ex_request_a = \<lparr>rq_pods = ex_pods_a, rq_infos = [busy_info ''10'' [10] [-1], busy_info ''11'' [11] [-1],
     busy_info ''12'' [12] [13], busy_info ''13'' [13] [-1]], rq_order = id\<rparr>"

definition ex_request_b :: request where
  "ex_request_b = \<lparr>rq_pods = ex_pods_b, rq_infos = [busy_info ''20'' [20, 24] [21, 23], busy_info ''21'' [21] [22],
     busy_info ''22'' [22] [-1], busy_info ''23'' [23] [-1]], rq_order = id\<rparr>"

text \<open>The server has counted its NUMA nodes, and listed the threads of both requests.\<close>

definition ex_busy :: busy_server where
  "ex_busy = \<lparr>bs_fa = fa_initial, bs_numaNums = 2,
     bs_calls = [(ex_request_a, Grouping (Init 0)), (ex_request_b, Grouping (Init 0))], bs_down = None\<rparr>"

lemma ex_listed:
  "list_threads busy_env \<lparr>rq_pods = ex_pods_a, rq_infos = [], rq_order = id\<rparr> = (ex_request_a, Grouping (Init 0))"
  "list_threads busy_env \<lparr>rq_pods = ex_pods_b, rq_infos = [], rq_order = id\<rparr> = (ex_request_b, Grouping (Init 0))"
proof -
  have "(case getTidListForPods busy_env ex_pods_a of Ok infos \<Rightarrow> calculateGid busy_env infos | _ \<Rightarrow> []) = rq_infos ex_request_a"
    "(case getTidListForPods busy_env ex_pods_b of Ok infos \<Rightarrow> calculateGid busy_env infos | _ \<Rightarrow> []) = rq_infos ex_request_b"
    by code_simp+
  then show "list_threads busy_env \<lparr>rq_pods = ex_pods_a, rq_infos = [], rq_order = id\<rparr> = (ex_request_a, Grouping (Init 0))"
    "list_threads busy_env \<lparr>rq_pods = ex_pods_b, rq_infos = [], rq_order = id\<rparr> = (ex_request_b, Grouping (Init 0))"
    by (auto simp: list_threads_def ex_request_a_def ex_request_b_def split: go.splits)
qed

lemma ex_counted: "count_nodes ex_nodes server_idle = server_idle\<lparr>bs_numaNums := 2\<rparr>"
proof -
  have "(case GetNumaNodeInof ex_nodes \<lparr>sv_numaNums = 0, sv_fa = fa_initial\<rparr> of
      Ok (info, st) \<Rightarrow> Some (sv_numaNums st) | _ \<Rightarrow> None) = Some 2"
    by code_simp
  then show ?thesis by (auto simp: count_nodes_def server_idle_def split: go.splits prod.splits)
qed

lemma ex_busy_serves: "serves frames affine ex_busy"
proof -
  let ?q = "\<lambda>pods. \<lparr>rq_pods = pods, rq_infos = [], rq_order = id\<rparr>"
  let ?s = "\<lambda>calls. \<lparr>bs_fa = fa_initial, bs_numaNums = 2, bs_calls = calls, bs_down = None\<rparr>"
  have up: "is_up (?s calls)" if "list_all (\<lambda>(q, c). \<not> has_panicked c) calls" for calls
    using that by (simp add: is_up_def)
  have alive [simp]: "\<not> has_panicked Listing" "\<not> has_panicked (Grouping r)" for r
    by (simp_all add: has_panicked_def)
  have "serve_step frames affine server_idle (count_nodes ex_nodes server_idle)"
    by (rule serve_step.numa) (simp add: is_up_def server_idle_def)
  then have "serves frames affine (?s [])"
    unfolding ex_counted using serves.intros by (metis (no_types, lifting) busy_server.update_convs(2) server_idle_def)
  moreover have "serve_step frames affine (?s []) (?s [(?q ex_pods_a, Listing)])"
    using serve_step.arrive [OF up range_order_id refl, of "[]" frames affine ex_pods_a] by simp
  moreover have "serve_step frames affine (?s [(?q ex_pods_a, Listing)]) (?s [(ex_request_a, Grouping (Init 0))])"
    using serve_step.lists [of "?s [(?q ex_pods_a, Listing)]" 0 "?q ex_pods_a" frames affine busy_env] up
    by (simp add: ex_listed)
  moreover have "serve_step frames affine (?s [(ex_request_a, Grouping (Init 0))])
      (?s [(ex_request_a, Grouping (Init 0)), (?q ex_pods_b, Listing)])"
    using serve_step.arrive [OF up range_order_id refl, of "[(ex_request_a, Grouping (Init 0))]" frames affine ex_pods_b]
    by simp
  moreover have "serve_step frames affine (?s [(ex_request_a, Grouping (Init 0)), (?q ex_pods_b, Listing)]) ex_busy"
    using serve_step.lists [of "?s [(ex_request_a, Grouping (Init 0)), (?q ex_pods_b, Listing)]" 1 "?q ex_pods_b"
        frames affine busy_env] up
    by (simp add: ex_listed ex_busy_def)
  ultimately show ?thesis by (meson serves.step)
qed

text \<open>Both stop between their second \<^verbatim>\<open>find\<close> and their write; then both write.\<close>

definition ex_cycle_schedule :: "nat list" where
  "ex_cycle_schedule = replicate 5 0 @ replicate 5 1 @ replicate 10 0 @ replicate 26 1 @ [0, 1, 0]"

text \<open>The second request initialises the array before the first collects its groups.\<close>

definition ex_lost_schedule :: "nat list" where
  "ex_lost_schedule = replicate 17 0 @ replicate 5 1 @ replicate 19 0"

lemma ex_cycle_run:
  "map_option (\<lambda>s. (map snd (bs_calls s), length (bs_fa s), take 4 (bs_fa s)))
     (run_schedule (Suc m) hasPodAffinity ex_cycle_schedule ex_busy) =
   Some ([Grouping (Collect 0 []), Grouping (Pairs [(1, 3), (2, 3)])], 1024, [1, 3, 3, 2])"
  by code_simp

lemma ex_lost_run:
  "map_option (\<lambda>s. snd (bs_calls s ! 0)) (run_schedule (Suc m) hasPodAffinity ex_lost_schedule ex_busy) =
   Some (Answered [])"
  by code_simp

text \<open>The requests behind the calls are still the two.\<close>

lemma call_fst: "k < length (bs_calls s) \<Longrightarrow> map fst (bs_calls (run_call frames affine k s)) = map fst (bs_calls s)"
  by (cases "bs_calls s ! k")
    (simp add: run_call_def map_update list_update_same_conv split: prod.split)

lemma run_schedule_fst: "run_schedule frames affine ks s = Some t \<Longrightarrow> map fst (bs_calls t) = map fst (bs_calls s)"
  by (induction ks arbitrary: s) (auto simp: call_fst split: if_splits)

lemma ex_call:
  assumes "run_schedule frames affine ks ex_busy = Some s"
  shows "bs_calls s = [(ex_request_a, snd (bs_calls s ! 0)), (ex_request_b, snd (bs_calls s ! Suc 0))]"
  using run_schedule_fst [OF assms] by (auto simp: ex_busy_def map_eq_Cons_conv)

lemma ex_calls:
  assumes "run_schedule frames affine ks ex_busy = Some s" and "map snd (bs_calls s) = [c, d]"
  shows "bs_calls s = [(ex_request_a, c), (ex_request_b, d)]"
  using run_schedule_fst [OF assms(1)] assms(2) by (auto simp: ex_busy_def map_eq_Cons_conv)

text \<open>Cells that lead to each other and to no root: a \<^verbatim>\<open>find\<close> that meets them fills its stack.\<close>

definition rootless :: "nat set \<Rightarrow> nat list \<Rightarrow> bool" where
  "rootless S fa \<longleftrightarrow> (\<forall>x \<in> S. x < length fa \<and> fa ! x \<in> S \<and> fa ! x \<noteq> x)"

lemma is_up_update:
  "is_up s \<Longrightarrow> \<not> has_panicked c \<Longrightarrow> is_up (s\<lparr>bs_calls := (bs_calls s)[k := (q, c)]\<rparr>)"
  by (auto simp: is_up_def list_all_iff dest!: set_update_subset_insert [THEN subsetD])

lemma serves_read:
  assumes "serves frames affine s" and "is_up s" and "k < length (bs_calls s)" and "bs_calls s ! k = (q, Grouping r)"
    and "rpc_step frames affine (rq_infos q) (r, bs_fa s) = (r1, bs_fa s)" and "\<forall>groups. r \<noteq> Grouped groups"
  shows "serves frames affine (s\<lparr>bs_calls := (bs_calls s)[k := (q, regroup r1)]\<rparr>)"
proof -
  have "call_step frames affine (bs_numaNums s) q (Grouping r, bs_fa s) = (regroup r1, bs_fa s)"
    using assms(5,6) by (cases r) auto
  then have "run_call frames affine k s = s\<lparr>bs_calls := (bs_calls s)[k := (q, regroup r1)]\<rparr>"
    using assms(4) by (simp add: run_call_def)
  with serve_step.run [OF assms(2,3), of frames affine] assms(1) show ?thesis by (metis serves.step)
qed

lemma rootless_overflow:
  assumes "serves frames affine s" and "is_up s" and "k < length (bs_calls s)"
    and "bs_calls s ! k = (q, Grouping (Find (Enter x) stack c))"
    and "rootless S (bs_fa s)" and "x \<in> S"
  shows "\<exists>t. serves frames affine t \<and> bs_calls t ! k = (q, Died StackOverflow)"
  using assms
proof (induction "frames - length stack" arbitrary: s x stack rule: less_induct)
  case less
  let ?at = "\<lambda>s c. s\<lparr>bs_calls := (bs_calls s)[k := (q, c)]\<rparr>"
  let ?v = "bs_fa s ! x"
  define r2 where "r2 = (if length stack < frames then Find (Enter ?v) (x # stack) c else Crashed StackOverflow)"
  define s1 where "s1 = ?at s (Grouping (Find (Again x) stack c))"
  define s2 where "s2 = ?at s1 (regroup r2)"
  have x: "x < length (bs_fa s)" "?v \<in> S" "?v \<noteq> x"
    using less.prems(5,6) by (auto simp: rootless_def)
  have "serves frames affine (?at s (regroup (Find (Again x) stack c)))"
    by (rule serves_read [OF less.prems(1-4)]) (use x in \<open>auto simp: proceed_def\<close>)
  then have s1: "serves frames affine s1" "is_up s1"
    unfolding s1_def using less.prems(2) by (auto intro!: is_up_update simp: has_panicked_def regroup_def)
  have at1: "bs_calls s1 ! k = (q, Grouping (Find (Again x) stack c))" "k < length (bs_calls s1)" "bs_fa s1 = bs_fa s"
    using less.prems(3) by (simp_all add: s1_def)
  have s2: "serves frames affine s2"
    unfolding s2_def by (rule serves_read [OF s1 at1(2,1)]) (use at1 x in \<open>auto simp: proceed_def r2_def\<close>)
  have at2: "bs_calls s2 ! k = (q, regroup r2)" "k < length (bs_calls s2)" "bs_fa s2 = bs_fa s"
    using less.prems(3) by (simp_all add: s2_def s1_def)
  show ?case
  proof (cases "length stack < frames")
    case False
    with s2 at2 show ?thesis by (auto simp: r2_def regroup_def)
  next
    case True
    then have r2: "regroup r2 = Grouping (Find (Enter ?v) (x # stack) c)" by (simp add: r2_def regroup_def)
    have "is_up s2" unfolding s2_def r2 using s1 by (auto intro!: is_up_update simp: has_panicked_def)
    moreover have "frames - length (x # stack) < frames - length stack" using True by simp
    ultimately show ?thesis
      using less.hyps [of "x # stack" s2 ?v] s2 at2 less.prems(5) x(2) r2 by simp
  qed
qed

lemma ex_crash:
  obtains s where "serves (Suc m) hasPodAffinity s" "bs_calls s ! 0 = (ex_request_a, Died StackOverflow)"
proof -
  from ex_cycle_run [of m] obtain s where s: "run_schedule (Suc m) hasPodAffinity ex_cycle_schedule ex_busy = Some s"
    "map snd (bs_calls s) = [Grouping (Collect 0 []), Grouping (Pairs [(1, 3), (2, 3)])]"
    "length (bs_fa s) = 1024" "take 4 (bs_fa s) = [1, 3, 3, 2]"
    by (auto simp: map_option_case split: option.splits)
  have calls: "bs_calls s = [(ex_request_a, Grouping (Collect 0 [])), (ex_request_b, Grouping (Pairs [(1, 3), (2, 3)]))]"
    by (rule ex_calls [OF s(1,2)])
  define t where "t = s\<lparr>bs_calls := (bs_calls s)[0 := (ex_request_a, Grouping (Find (Enter 0) [] (Member 0 [])))]\<rparr>"
  have cells: "bs_fa s ! i = [1, 3, 3, 2] ! i" if "i < 4" for i
    using that s(4) nth_take [of i 4 "bs_fa s"] by simp
  have "rootless {0, 1, 2, 3} (bs_fa t)"
    using cells [of 0] cells [of 1] cells [of 2] cells [of 3] s(3) by (auto simp: rootless_def t_def)
  moreover have up: "is_up s"
  proof -
    have "bs_down t = bs_down s'" if "run_schedule f a ks s' = Some t" for f a ks s' t
      using that by (induction ks arbitrary: s') (auto simp: run_call_def split: if_splits prod.splits)
    from this [OF s(1)] show ?thesis by (simp add: is_up_def calls has_panicked_def ex_busy_def)
  qed
  moreover have "serves (Suc m) hasPodAffinity t"
  proof -
    have "serves (Suc m) hasPodAffinity
        (s\<lparr>bs_calls := (bs_calls s)[0 := (ex_request_a, regroup (Find (Enter 0) [] (Member 0 [])))]\<rparr>)"
      by (rule serves_read [OF run_schedule_serves [OF s(1) ex_busy_serves] up, where r = "Collect 0 []"])
        (simp_all add: calls ex_request_a_def)
    then show ?thesis by (simp add: t_def regroup_def)
  qed
  moreover have "is_up t" using up unfolding t_def by (intro is_up_update) (simp_all add: has_panicked_def)
  moreover have "bs_calls t ! 0 = (ex_request_a, Grouping (Find (Enter 0) [] (Member 0 [])))" "0 < length (bs_calls t)"
    by (simp_all add: t_def calls)
  ultimately show thesis
    using that rootless_overflow [of "Suc m" hasPodAffinity t 0 ex_request_a 0 "[]" "Member 0 []" "{0, 1, 2, 3}"]
    by blast
qed

lemma ex_alone_run:
  "(case GetPodAffinity busy_env id ex_pods_a \<lparr>sv_numaNums = 2, sv_fa = fa_initial\<rparr> of
     Ok (resp, st) \<Rightarrow> Some resp | _ \<Rightarrow> None) = Some [\<lparr>pbg_number = 0, pbg_pods = [ex_pods_a ! 2, ex_pods_a ! 3]\<rparr>]"
  by code_simp

text \<open>
  C8: The union-find array is shared without a lock, and two requests served at once can ruin each
  other; both are requests that the server lists itself, from the containers of their pods. In one
  order of their steps the roots they link form a cycle and the next \<^verbatim>\<open>find\<close>
  recurses until its stack is full, however large that is, which kills the server; in another the
  initialisation of the second request wipes out the classes of the first, which is answered that
  no pods are related. Alone, the same request is answered with the group of its last two pods.
\<close>

theorem concurrent_requests_interfere:
  "(\<exists>s. serves (Suc m) hasPodAffinity s \<and> bs_calls s ! 0 = (ex_request_a, Died StackOverflow))
   \<and> (\<exists>s. serves (Suc m) hasPodAffinity s \<and> bs_calls s ! 0 = (ex_request_a, Answered []))
   \<and> (\<exists>st. GetPodAffinity busy_env (rq_order ex_request_a) (rq_pods ex_request_a) \<lparr>sv_numaNums = 2, sv_fa = fa_initial\<rparr>
        = Ok ([\<lparr>pbg_number = 0, pbg_pods = [ex_pods_a ! 2, ex_pods_a ! 3]\<rparr>], st))"
proof (intro conjI)
  show "\<exists>s. serves (Suc m) hasPodAffinity s \<and> bs_calls s ! 0 = (ex_request_a, Died StackOverflow)"
    using ex_crash by blast
  from ex_lost_run [of m] obtain s where
    s: "run_schedule (Suc m) hasPodAffinity ex_lost_schedule ex_busy = Some s" "snd (bs_calls s ! 0) = Answered []"
    by (auto simp: map_option_case split: option.splits)
  have "bs_calls s ! 0 = (ex_request_a, Answered [])"
    by (subst ex_call [OF s(1)]) (simp add: s(2))
  then show "\<exists>s. serves (Suc m) hasPodAffinity s \<and> bs_calls s ! 0 = (ex_request_a, Answered [])"
    using run_schedule_serves [OF s(1) ex_busy_serves] by blast
  have "rq_order ex_request_a = id" "rq_pods ex_request_a = ex_pods_a" by (simp_all add: ex_request_a_def)
  then show "\<exists>st. GetPodAffinity busy_env (rq_order ex_request_a) (rq_pods ex_request_a)
      \<lparr>sv_numaNums = 2, sv_fa = fa_initial\<rparr> = Ok ([\<lparr>pbg_number = 0, pbg_pods = [ex_pods_a ! 2, ex_pods_a ! 3]\<rparr>], st)"
    using ex_alone_run by (auto split: go.splits)
qed

text \<open>The second request answered alone after the first has crossed it: a group of all its pods.\<close>

definition ex_answer_schedule :: "nat list" where
  "ex_answer_schedule = replicate 17 0 @ replicate 83 1"

theorem concurrent_requests_safe_witness:
  "\<exists>s resp cs. serves 1024 hasPodAffinity s \<and> (ex_request_b, Answered resp) \<in> set (bs_calls s) \<and> length (bs_fa s) = 1024
     \<and> map (\<lambda>g. map pb_uid (pbg_pods g)) resp = [[''20'', ''21'', ''22'', ''23'']]
     \<and> mset (concat cs) = mset [0..<4] \<and> length (filter (\<lambda>c. 2 \<le> length c) cs) = 1"
proof -
  have "map_option (\<lambda>s. case snd (bs_calls s ! 1) of
        Answered resp \<Rightarrow> Some (map (\<lambda>g. map pb_uid (pbg_pods g)) resp) | _ \<Rightarrow> None)
      (run_schedule (Suc 1023) hasPodAffinity ex_answer_schedule ex_busy) = Some (Some [[''20'', ''21'', ''22'', ''23'']])"
    by code_simp
  moreover have "Suc 1023 = 1024" by simp
  ultimately obtain s resp where
    s: "run_schedule 1024 hasPodAffinity ex_answer_schedule ex_busy = Some s" "snd (bs_calls s ! 1) = Answered resp"
    "map (\<lambda>g. map pb_uid (pbg_pods g)) resp = [[''20'', ''21'', ''22'', ''23'']]"
    by (auto simp: map_option_case split: option.splits call.splits)
  have "requested ex_busy = [ex_pods_a, ex_pods_b]" by (simp add: requested_def ex_busy_def ex_request_a_def ex_request_b_def)
  moreover have "length ex_pods_a = 4" "length ex_pods_b = 4" by (simp_all add: ex_pods_a_def ex_pods_b_def busy_pods_def)
  ultimately have small: "small_requests s"
    using run_schedule_requested [OF s(1)] by (simp add: small_requested)
  have "bs_calls s ! 1 = (ex_request_b, Answered resp)" using s(2) by (subst ex_call [OF s(1)]) simp
  then have mem: "(ex_request_b, Answered resp) \<in> set (bs_calls s)"
    using arg_cong [where f = length, OF ex_call [OF s(1)]] nth_mem [of 1 "bs_calls s"] by simp
  have serves: "serves 1024 hasPodAffinity s" by (rule run_schedule_serves [OF s(1) ex_busy_serves])
  from concurrent_requests_safe [OF this small mem] obtain cs where cs: "length (bs_fa s) = 1024"
    "mset (concat cs) = mset [0..<length (rq_pods ex_request_b)]"
    "map (\<lambda>g. map pb_uid (pbg_pods g)) resp =
       map (map (\<lambda>i. pb_uid (rq_pods ex_request_b ! i))) (filter (\<lambda>c. 2 \<le> length c) cs)" by auto
  have "length (rq_pods ex_request_b) = 4" by (simp add: ex_request_b_def \<open>length ex_pods_b = 4\<close>)
  with cs(2) have "mset (concat cs) = mset [0..<4]" by (simp only:)
  moreover have "length (filter (\<lambda>c. 2 \<le> length c) cs) = 1"
    using arg_cong [where f = length, OF cs(3)] arg_cong [where f = length, OF s(3)]
    by (simp only: length_map list.size)
  ultimately show ?thesis using serves mem cs(1) s(3) by (intro exI [of _ s] exI [of _ resp] exI [of _ cs] conjI) assumption+
qed

theorem request_alone_witness:
  "length fa_initial \<le> 1024
   \<and> (\<exists>k fa1. (call_step 1024 hasPodAffinity 2 ex_request_a ^^ k) (Grouping (Init 0), fa_initial)
        = (Answered [\<lparr>pbg_number = 0, pbg_pods = [ex_pods_a ! 2, ex_pods_a ! 3]\<rparr>], fa1))"
proof
  show le: "length fa_initial \<le> 1024" by (simp add: fa_initial_def)
  have "(case go_bind (join_related hasPodAffinity (rq_infos ex_request_a) fa_initial) (\<lambda>fa1.
        getPodsAffinity (rq_order ex_request_a) (rq_pods ex_request_a) (rq_infos ex_request_a)
          \<lparr>sv_numaNums = 2, sv_fa = fa1\<rparr>) of
      Ok (resp, st) \<Rightarrow> Some resp | _ \<Rightarrow> None) = Some [\<lparr>pbg_number = 0, pbg_pods = [ex_pods_a ! 2, ex_pods_a ! 3]\<rparr>]"
    by code_simp
  then obtain st where "go_bind (join_related hasPodAffinity (rq_infos ex_request_a) fa_initial) (\<lambda>fa1.
        getPodsAffinity (rq_order ex_request_a) (rq_pods ex_request_a) (rq_infos ex_request_a)
          \<lparr>sv_numaNums = 2, sv_fa = fa1\<rparr>)
      = Ok ([\<lparr>pbg_number = 0, pbg_pods = [ex_pods_a ! 2, ex_pods_a ! 3]\<rparr>], st)"
    by (auto split: go.splits)
  with conjunct2 [OF request_alone [OF le, where affine = hasPodAffinity and infos = "[]" and q = ex_request_a and numaNums = 2]]
  show "\<exists>k fa1. (call_step 1024 hasPodAffinity 2 ex_request_a ^^ k) (Grouping (Init 0), fa_initial)
      = (Answered [\<lparr>pbg_number = 0, pbg_pods = [ex_pods_a ! 2, ex_pods_a ! 3]\<rparr>], fa1)"
    by (simp only: go.case prod.case) blast
qed

end
