(* ===== verification/SyncInterleaved.thy ===== *)
theory SyncInterleaved
  imports ResctrlTasksProps
begin

text \<open>
  The goroutines of \<open>SyncResCtrlGroupTasks\<close>, one per pod, with their system calls interleaved. A
  goroutine is the work that its recursion has left, a list of jobs; a job is one system call (a
  file is read in one step) and leaves the jobs that follow it. No depth is needed: a goroutine
  ends when it has no jobs left.
\<close>

declare filepath_Join.simps [simp del]

section \<open>A goroutine\<close>

text \<open>
  \<open>Search\<close> is a call of \<open>findPodAndAssign\<close> for a directory and a UID, \<open>Assign\<close> one of
  \<open>assignMPAMControlGroup\<close>; the others are the calls for the tasks file of a directory: \<^verbatim>\<open>Lstat\<close>,
  \<open>ReadPids\<close>, the opening of the group's tasks file and one write per process ID.
\<close>

datatype job =
    Search string string
  | Assign string
  | Stat string
  | Read string
  | Open "string list"
  | Write "string list"

definition found_job :: "string \<Rightarrow> string \<Rightarrow> file_info \<Rightarrow> job" where
  "found_job dir uid fi =
     (let path = filepath_Join [dir, fi_name fi]
      in if strings_Contains (fi_name fi) uid then Assign path else Search path uid)"

definition assign_job :: "string \<Rightarrow> file_info \<Rightarrow> job" where
  "assign_job dir fi = Assign (filepath_Join [dir, fi_name fi])"

fun job_step :: "'w os \<Rightarrow> string \<Rightarrow> job \<Rightarrow> 'w \<Rightarrow> job list \<times> 'w" where
  "job_step os file (Search dir uid) w =
     (case os_readdir os w dir of
        Fail _ \<Rightarrow> ([], w)
      | Done fis \<Rightarrow> (map (found_job dir uid) (filter fi_dir fis), w))"
| "job_step os file (Assign dir) w =
     (case os_readdir os w dir of
        Fail _ \<Rightarrow> ([], w)
      | Done fis \<Rightarrow> (Stat dir # map (assign_job dir) (filter fi_dir fis), w))"
| "job_step os file (Stat dir) w =
     (if (case os_lstat os w (filepath_Join [dir, TasksFileName]) of Done _ \<Rightarrow> True | Fail e \<Rightarrow> os_IsExist e)
      then ([Read dir], w) else ([], w))"
| "job_step os file (Read dir) w =
     (case ReadPids os (filepath_Join [dir, TasksFileName]) w of Ok pids \<Rightarrow> ([Open pids], w) | _ \<Rightarrow> ([], w))"
| "job_step os file (Open pids) w =
     (case os_writable os w file of Fail _ \<Rightarrow> ([], w) | Done _ \<Rightarrow> ([Write pids], w))"
| "job_step os file (Write []) w = ([], w)"
| "job_step os file (Write (pid # pids)) w =
     (case os_put os w file pid of
        (w1, Done _) \<Rightarrow> ([Write pids], w1)
      | (w1, Fail e) \<Rightarrow> (if e \<noteq> NoSuchProcess then ([], w1) else ([Write pids], w1)))"

text \<open>A goroutine with the group's tasks file it writes to; \<open>AssignControlGroup\<close> searches twice.\<close>

type_synonym goroutine = "string \<times> job list"

definition spawn :: "string \<Rightarrow> string \<times> string \<Rightarrow> goroutine" where
  "spawn root = (\<lambda>(uid, rcgroup). (filepath_Join [root, rcgroup, TasksFileName],
     [Search CgroupCpusetRootPath (strings_ReplaceAll uid (CHR ''-'') (CHR ''_'')),
      Search CgroupCpusetRootPath uid]))"

section \<open>All goroutines\<close>

text \<open>\<^verbatim>\<open>wg.Wait\<close> returns when no goroutine has work left.\<close>

inductive sync_step :: "'w os \<Rightarrow> goroutine list \<times> 'w \<Rightarrow> goroutine list \<times> 'w \<Rightarrow> bool" for os where
  job: "k < length gs \<Longrightarrow> gs ! k = (file, j # js) \<Longrightarrow> job_step os file j w = (js1, w1) \<Longrightarrow>
    sync_step os (gs, w) (gs[k := (file, js1 @ js)], w1)"

inductive_cases sync_stepE: "sync_step os (gs, w) (gs1, w1)"

definition all_done :: "goroutine list \<Rightarrow> bool" where
  "all_done gs \<longleftrightarrow> list_all (\<lambda>(file, js). js = []) gs"

section \<open>One after the other\<close>

text \<open>The jobs of one goroutine, run without a break.\<close>

inductive runs :: "'w os \<Rightarrow> string \<Rightarrow> job list \<times> 'w \<Rightarrow> job list \<times> 'w \<Rightarrow> bool" for os f where
  refl: "runs os f c c"
| step: "job_step os f j w = (js1, w1) \<Longrightarrow> runs os f (js1 @ js, w1) c \<Longrightarrow> runs os f (j # js, w) c"

lemma runs_trans: "runs os f c d \<Longrightarrow> runs os f d e \<Longrightarrow> runs os f c e"
  by (induction rule: runs.induct) (auto intro: runs.step)

lemma runs_one: "job_step os f j w = ([], w1) \<Longrightarrow> runs os f (j # js, w) (js, w1)"
  using runs.step [of os f j w "[]" w1 js] by (simp add: runs.refl)

lemma runs_next: "job_step os f j w = ([j1], w1) \<Longrightarrow> runs os f (j1 # js, w1) c \<Longrightarrow> runs os f (j # js, w) c"
  using runs.step [of os f j w "[j1]" w1 js c] by simp

lemma runs_write: "runs os f (Write pids # js, w) (js, fst (write_pids os f pids w))"
proof (induction pids arbitrary: w)
  case Nil
  then show ?case by (simp add: runs_one)
next
  case (Cons pid pids)
  obtain w1 r where put: "os_put os w f pid = (w1, r)" by fastforce
  show ?case
  proof (cases "\<exists>e. r = Fail e \<and> e \<noteq> NoSuchProcess")
    case True
    then show ?thesis using put by (auto intro!: runs_one)
  next
    case False
    then have "job_step os f (Write (pid # pids)) w = ([Write pids], w1)"
      "write_pids os f (pid # pids) w = write_pids os f pids w1"
      using put by (auto split: os_result.split)
    with Cons.IH [of w1] show ?thesis by (simp only: runs_next)
  qed
qed

lemma runs_stat: "runs os (group_file root g) (Stat dir # js, w) (js, move_tasks os root dir g w)"
proof -
  let ?f = "group_file root g"
  have "runs os ?f (Open pids # js, w) (js, fst (WritePids os ?f pids w))" for pids
    by (auto simp: WritePids_def runs_write intro: runs_one runs_next split: os_result.split)
  then have "runs os ?f (Read dir # js, w)
      (js, case ReadPids os (tasks_of dir) w of Ok pids \<Rightarrow> fst (WritePids os ?f pids w) | _ \<Rightarrow> w)"
    by (auto simp: tasks_of_def intro: runs_one runs_next split: go.split)
  then show ?thesis
    unfolding move_tasks_def Let_def tasks_of_def [symmetric] group_file_def [symmetric]
    by (auto simp: tasks_of_def intro: runs_one runs_next)
qed

text \<open>A loop over directory entries, when each body is the run of a job.\<close>

lemma runs_entries:
  assumes "for_entries body fis w = Some w1"
    and "\<And>fi v v1 js. fi \<in> set fis \<Longrightarrow> fi_dir fi \<Longrightarrow> body fi v = Some v1 \<Longrightarrow>
           runs os f (job_of fi # js, v) (js, v1)"
    and "\<And>fi v. \<not> fi_dir fi \<Longrightarrow> body fi v = Some v"
  shows "runs os f (map job_of (filter fi_dir fis) @ js, w) (js, w1)"
  using assms(1,2)
proof (induction fis arbitrary: w)
  case Nil
  then show ?case by (simp add: runs.refl)
next
  case (Cons fi fis)
  obtain v where v: "body fi w = Some v" "for_entries body fis v = Some w1"
    using Cons.prems(1) by (auto split: option.splits)
  have rest: "runs os f (map job_of (filter fi_dir fis) @ js, v) (js, w1)"
    by (rule Cons.IH [OF v(2)]) (simp add: Cons.prems(2))
  show ?case
  proof (cases "fi_dir fi")
    case True
    then have "runs os f (job_of fi # map job_of (filter fi_dir fis) @ js, w)
        (map job_of (filter fi_dir fis) @ js, v)"
      using Cons.prems(2) v(1) by simp
    with rest True show ?thesis by (auto intro: runs_trans)
  next
    case False
    with assms(3) v(1) rest show ?thesis by simp
  qed
qed

lemma runs_assign:
  "assignMPAMControlGroup depth os root dir g w = Some w1 \<Longrightarrow>
     runs os (group_file root g) (Assign dir # js, w) (js, w1)"
proof (induction depth arbitrary: dir w w1 js)
  case (Suc depth)
  show ?case
  proof (cases "os_readdir os w dir")
    case (Fail e)
    with Suc.prems show ?thesis by (simp add: runs_one)
  next
    case (Done fis)
    let ?jobs = "map (assign_job dir) (filter fi_dir fis)"
    have "runs os (group_file root g) (?jobs @ js, move_tasks os root dir g w) (js, w1)"
    proof (rule runs_entries)
      show "for_entries (\<lambda>fi w. if fi_dir fi
              then assignMPAMControlGroup depth os root (filepath_Join [dir, fi_name fi]) g w
              else Some w) fis (move_tasks os root dir g w) = Some w1"
        using Suc.prems Done by simp
    qed (use Suc.IH in \<open>simp_all add: assign_job_def\<close>)
    moreover have "runs os (group_file root g) (Stat dir # ?jobs @ js, w) (?jobs @ js, move_tasks os root dir g w)"
      by (rule runs_stat)
    ultimately show ?thesis using Done by (intro runs.step [of os _ "Assign dir" w]) (simp, auto intro: runs_trans)
  qed
qed simp

lemma runs_search:
  "findPodAndAssign depth os root dir uid g w = Some w1 \<Longrightarrow>
     runs os (group_file root g) (Search dir uid # js, w) (js, w1)"
proof (induction depth arbitrary: dir w w1 js)
  case (Suc depth)
  show ?case
  proof (cases "os_readdir os w dir")
    case (Fail e)
    with Suc.prems show ?thesis by (simp add: runs_one)
  next
    case (Done fis)
    have "runs os (group_file root g) (map (found_job dir uid) (filter fi_dir fis) @ js, w) (js, w1)"
    proof (rule runs_entries)
      show "for_entries (\<lambda>fi w. if \<not> fi_dir fi then Some w
              else if strings_Contains (fi_name fi) uid
              then assignMPAMControlGroup depth os root (filepath_Join [dir, fi_name fi]) g w
              else findPodAndAssign depth os root (filepath_Join [dir, fi_name fi]) uid g w) fis w = Some w1"
        using Suc.prems Done by simp
    qed (use Suc.IH runs_assign in \<open>simp_all add: found_job_def Let_def split: if_splits\<close>)
    with Done show ?thesis by (auto intro: runs.step)
  qed
qed simp

lemma runs_sync:
  assumes "runs os f c d" and "k < length gs" and "gs ! k = (f, fst c)"
  shows "(sync_step os)\<^sup>*\<^sup>* (gs, snd c) (gs[k := (f, fst d)], snd d)"
  using assms
proof (induction arbitrary: gs rule: runs.induct)
  case (refl c)
  then have "gs[k := (f, fst c)] = gs" by (simp add: list_update_same_conv)
  then show ?case by simp
next
  case (step j w js1 w1 js c)
  let ?gs = "gs[k := (f, js1 @ js)]"
  have "sync_step os (gs, w) (?gs, w1)"
    using step.prems step.hyps(1) by (intro sync_step.job) simp_all
  moreover have "(sync_step os)\<^sup>*\<^sup>* (?gs, w1) (?gs[k := (f, fst c)], snd c)"
    using step.IH [of ?gs] step.prems by simp
  ultimately show ?case by (simp add: converse_rtranclp_into_rtranclp)
qed


lemma runs_spawn:
  assumes "AssignControlGroup depth os root uid g w = Some w1"
  shows "runs os (group_file root g) (snd (spawn root (uid, g)), w) ([], w1)"
proof -
  obtain v where "findPodAndAssign depth os root CgroupCpusetRootPath
      (strings_ReplaceAll uid (CHR ''-'') (CHR ''_'')) g w = Some v"
    "findPodAndAssign depth os root CgroupCpusetRootPath uid g v = Some w1"
    using assms by (auto simp: AssignControlGroup_def split: option.splits)
  from this [THEN runs_search] show ?thesis by (auto simp: spawn_def intro: runs_trans)
qed

lemma fst_spawn [simp]: "fst (spawn root p) = group_file root (snd p)"
  by (simp add: spawn_def group_file_def split: prod.split)

lemma assign_all_runs:
  "assign_all depth os root ps w = Some w1 \<Longrightarrow>
     (sync_step os)\<^sup>*\<^sup>* (ended @ map (spawn root) ps, w) (ended @ map (\<lambda>p. (group_file root (snd p), [])) ps, w1)"
proof (induction ps arbitrary: ended w)
  case (Cons p ps)
  obtain uid g where p: "p = (uid, g)" by fastforce
  obtain v where v: "AssignControlGroup depth os root uid g w = Some v" "assign_all depth os root ps v = Some w1"
    using Cons.prems by (auto simp: p split: option.splits)
  let ?done = "(group_file root g, [])"
  have "spawn root p = (group_file root g, snd (spawn root (uid, g)))"
    using fst_spawn [of root p] by (simp add: p prod_eq_iff)
  then have "(sync_step os)\<^sup>*\<^sup>* (ended @ map (spawn root) (p # ps), w) ((ended @ [?done]) @ map (spawn root) ps, v)"
    using runs_sync [OF runs_spawn [OF v(1)], of "length ended" "ended @ map (spawn root) (p # ps)"]
    by (simp add: list_update_append)
  also have "(sync_step os)\<^sup>*\<^sup>* ((ended @ [?done]) @ map (spawn root) ps, v)
      ((ended @ [?done]) @ map (\<lambda>p. (group_file root (snd p), [])) ps, w1)"
    by (rule Cons.IH [OF v(2)])
  finally show ?case by (simp add: p)
qed simp

text \<open>
  Assigning the pods one after the other, each search to its end, is one of the ways in which
  the goroutines can run: every state that the sequential synchronisation ends in is reached by
  interleaved system calls, with no goroutine left at work.
\<close>

theorem sequential_sync_interleaves:
  assumes "assign_all depth os root ps w = Some w1"
  shows "\<exists>gs. (sync_step os)\<^sup>*\<^sup>* (map (spawn root) ps, w) (gs, w1) \<and> all_done gs"
proof (intro exI conjI)
  show "(sync_step os)\<^sup>*\<^sup>* (map (spawn root) ps, w) (map (\<lambda>p. (group_file root (snd p), [])) ps, w1)"
    using assign_all_runs [OF assms, of "[]"] by simp
qed (simp add: all_done_def list_all_iff)

section \<open>What the kernel does\<close>

text \<open>A process is in a group when the group's tasks file lists it.\<close>

definition in_group :: "'w os \<Rightarrow> 'w \<Rightarrow> string \<Rightarrow> string \<Rightarrow> bool" where
  "in_group os w pid f \<longleftrightarrow>
     (case os_read os w f of Done (content, None) \<Rightarrow> pid \<in> set (fst (bufio_Scan content)) | _ \<Rightarrow> False)"

definition groups_of :: "'w os \<Rightarrow> string set \<Rightarrow> 'w \<Rightarrow> string \<Rightarrow> string set" where
  "groups_of os files w pid = {f \<in> files. in_group os w pid f}"

text \<open>
  What resctrl documents of the tasks file of a group, in the states in which the groups exist, for
  the process IDs \<open>procs\<close> that the goroutines may write: it can be opened; a write of the ID of a
  process that is alive adds the process to the group and takes it out of the other groups, whose
  files list it no more; \<^verbatim>\<open>ESRCH\<close> is the answer for one that is gone. Nothing is said of other
  strings.
\<close>

definition moves_processes ::
    "'w os \<Rightarrow> string set \<Rightarrow> ('w \<Rightarrow> bool) \<Rightarrow> ('w \<Rightarrow> string \<Rightarrow> bool) \<Rightarrow> string set \<Rightarrow> bool" where
  "moves_processes os files ok live procs \<longleftrightarrow> (\<forall>w. ok w \<longrightarrow> (\<forall>f \<in> files. os_writable os w f = Done ()
     \<and> (\<forall>pid \<in> procs. let (w1, r) = os_put os w f pid in live w1 = live w
         \<and> (if live w pid
            then r = Done () \<and> groups_of os files w1 = (groups_of os files w)(pid := {f})
            else r = Fail NoSuchProcess \<and> groups_of os files w1 = groups_of os files w))))"

section \<open>What a goroutine will do\<close>

text \<open>
  As no write changes what a goroutine reads, its steps and the process IDs that it has left to
  write can be told from the first state.
\<close>

inductive plan :: "'w os \<Rightarrow> string set \<Rightarrow> string \<Rightarrow> 'w \<Rightarrow> job list \<Rightarrow> string list \<Rightarrow> nat \<Rightarrow> bool"
  for os reads f w0 where
  over: "plan os reads f w0 [] [] 0"
| search: "plan os reads f w0 (fst (job_step os f (Search d uid) w0) @ js) pids n \<Longrightarrow>
    plan os reads f w0 (Search d uid # js) pids (Suc n)"
| assign: "plan os reads f w0 (fst (job_step os f (Assign d) w0) @ js) pids n \<Longrightarrow>
    plan os reads f w0 (Assign d # js) pids (Suc n)"
| stat: "plan os reads f w0 (fst (job_step os f (Stat d) w0) @ js) pids n \<Longrightarrow>
    plan os reads f w0 (Stat d # js) pids (Suc n)"
| read: "tasks_of d \<in> reads \<Longrightarrow> plan os reads f w0 (fst (job_step os f (Read d) w0) @ js) pids n \<Longrightarrow>
    plan os reads f w0 (Read d # js) pids (Suc n)"
| opened: "plan os reads f w0 (Write ps # js) pids n \<Longrightarrow> plan os reads f w0 (Open ps # js) pids (Suc n)"
| wrote: "plan os reads f w0 js pids n \<Longrightarrow> plan os reads f w0 (Write [] # js) pids (Suc n)"
| writes: "plan os reads f w0 (Write ps # js) pids n \<Longrightarrow> plan os reads f w0 (Write (p # ps) # js) (p # pids) (Suc n)"

inductive_simps plan_Nil [simp]: "plan os reads f w0 [] pids n"

lemma plan_write: "plan os reads f w0 js qs n \<Longrightarrow> plan os reads f w0 (Write ps # js) (ps @ qs) (Suc (length ps) + n)"
  by (induction ps) (simp_all add: plan.intros)

text \<open>The plan of a step: the same answers as in the first state, or a write of the next process.\<close>

lemma plan_step:
  assumes "plan os reads f w0 (j # js) pids n" and "same_reads os reads ok w0 w" and "f \<in> files"
    and "moves_processes os files ok live procs" and "tree_stable os files reads ok" and "set pids \<subseteq> procs"
    and "job_step os f j w = (js1, w1)"
  obtains (same) n' where "n = Suc n'" "plan os reads f w0 (js1 @ js) pids n'" "w1 = w"
    | (writing) p pids' n' where "n = Suc n'" "pids = p # pids'" "plan os reads f w0 (js1 @ js) pids' n'"
        "same_reads os reads ok w0 w1" "live w1 = live w"
        "groups_of os files w1 = (if live w p then (groups_of os files w)(p := {f}) else groups_of os files w)"
proof -
  have eq: "os_readdir os w = os_readdir os w0" "os_lstat os w = os_lstat os w0"
    "\<And>p. p \<in> reads \<Longrightarrow> os_read os w p = os_read os w0 p" and ok: "ok w"
    using assms(2) by (simp_all add: same_reads_def)
  note K = bspec [OF mp [OF spec [OF assms(4) [unfolded moves_processes_def], of w] ok] assms(3)]
  from assms(1) show thesis
  proof (cases rule: plan.cases)
    case (search d uid n')
    then show ?thesis using assms(7) same [of n'] by (auto simp: eq split: os_result.splits)
  next
    case (assign d n')
    then show ?thesis using assms(7) same [of n'] by (auto simp: eq split: os_result.splits)
  next
    case (stat d n')
    then show ?thesis using assms(7) same [of n'] by (auto simp: eq split: if_splits)
  next
    case (read d n')
    then have "ReadPids os (filepath_Join [d, TasksFileName]) w = ReadPids os (filepath_Join [d, TasksFileName]) w0"
      using eq(3) by (simp add: ReadPids_def tasks_of_def)
    with read show ?thesis using assms(7) same [of n'] by (auto split: go.splits)
  next
    case (opened ps n')
    then show ?thesis using assms(7) same [of n'] K by auto
  next
    case (wrote n')
    then show ?thesis using assms(7) same [of n'] by auto
  next
    case (writes ps pids' n' p)
    obtain w2 r where put: "os_put os w f p = (w2, r)" by fastforce
    have "p \<in> procs" using assms(6) writes by simp
    then have "live w2 = live w" "r = Done () \<or> r = Fail NoSuchProcess"
      "groups_of os files w2 = (if live w p then (groups_of os files w)(p := {f}) else groups_of os files w)"
      using bspec [OF conjunct2 [OF K], of p] put by (auto split: if_splits)
    moreover have "same_reads os reads ok w0 w2"
      using same_reads_put [OF assms(5,3,2), of p] by (simp add: put)
    ultimately show ?thesis using assms(7) writing [of n' p pids'] writes put by auto
  qed
qed

lemma plan_append:
  "plan os reads f w0 xs ps n \<Longrightarrow> plan os reads f w0 ys qs m \<Longrightarrow> plan os reads f w0 (xs @ ys) (ps @ qs) (n + m)"
  by (induction rule: plan.induct) (simp_all add: plan.intros)

text \<open>The process IDs that the tasks files of directories list.\<close>

definition listed :: "'w os \<Rightarrow> 'w \<Rightarrow> string list \<Rightarrow> string list" where
  "listed os w ds = concat (map (\<lambda>d. case dir_pids os w d of Some pids \<Rightarrow> pids | None \<Rightarrow> []) ds)"

lemma listed_simps [simp]:
  "listed os w [] = []"
  "listed os w (xs @ ys) = listed os w xs @ listed os w ys"
  by (simp_all add: listed_def)

lemma plan_stat:
  assumes "tasks_of d \<in> reads"
  shows "\<exists>n. plan os reads f w0 [Stat d] (listed os w0 [d]) n"
proof -
  have open_plan: "plan os reads f w0 [Open pids] pids (Suc (Suc (length pids)))" for pids
    using plan.opened [OF plan_write [OF plan.over, of os reads f w0 pids]] by simp
  have "\<exists>n. plan os reads f w0 [Read d] (case ReadPids os (tasks_of d) w0 of Ok pids \<Rightarrow> pids | _ \<Rightarrow> []) n"
    using assms by (cases "ReadPids os (tasks_of d) w0")
      (auto simp: tasks_of_def intro!: plan.read exI [of _ "Suc _"] intro: open_plan plan.over)
  then obtain n where "plan os reads f w0 [Read d] (case ReadPids os (tasks_of d) w0 of Ok pids \<Rightarrow> pids | _ \<Rightarrow> []) n"
    by blast
  then show ?thesis
    by (cases "case os_lstat os w0 (tasks_of d) of Done _ \<Rightarrow> True | Fail e \<Rightarrow> os_IsExist e")
      (auto simp: listed_def dir_pids_def tasks_of_def intro: plan.stat plan.over intro!: exI [of _ "Suc _"] split: go.splits)
qed

lemma plan_entries:
  assumes "those (map g fis) = Some dss"
    and "\<And>fi ds. fi \<in> set fis \<Longrightarrow> g fi = Some ds \<Longrightarrow> ds \<in> set dss \<Longrightarrow>
           \<exists>n. plan os reads f w0 [job_of fi] (listed os w0 ds) n"
  shows "\<exists>n. plan os reads f w0 (map job_of fis) (listed os w0 (concat dss)) n"
  using assms
proof (induction fis arbitrary: dss)
  case Nil
  then show ?case by (auto intro: plan.over)
next
  case (Cons fi fis)
  obtain ds rest where e: "g fi = Some ds" "those (map g fis) = Some rest" "dss = ds # rest"
    using Cons.prems(1) by (auto split: option.splits)
  have "\<exists>n. plan os reads f w0 (map job_of fis) (listed os w0 (concat rest)) n"
    by (rule Cons.IH [OF e(2)]) (simp add: Cons.prems(2) e(3))
  moreover have "\<exists>n. plan os reads f w0 [job_of fi] (listed os w0 ds) n"
    by (rule Cons.prems(2)) (simp_all add: e)
  ultimately show ?case
    using plan_append [of os reads f w0 "[job_of fi]"] e(3) by fastforce
qed

lemma plan_assign:
  "subtree depth os w0 dir = Some ds \<Longrightarrow> \<forall>d \<in> set ds. tasks_of d \<in> reads \<Longrightarrow>
     \<exists>n. plan os reads f w0 [Assign dir] (listed os w0 ds) n"
proof (induction depth arbitrary: dir ds)
  case (Suc depth)
  show ?case
  proof (cases "os_readdir os w0 dir")
    case (Fail e)
    then show ?thesis using Suc.prems by (auto intro!: exI [of _ "Suc 0"] plan.assign)
  next
    case (Done fis)
    let ?sub = "\<lambda>fi. subtree depth os w0 (filepath_Join [dir, fi_name fi])"
    obtain dss where dss: "those (map ?sub (filter fi_dir fis)) = Some dss" "ds = dir # concat dss"
      using Suc.prems(1) Done by auto
    have "\<exists>n. plan os reads f w0 (map (assign_job dir) (filter fi_dir fis)) (listed os w0 (concat dss)) n"
      by (rule plan_entries [OF dss(1)]) (use Suc.IH Suc.prems(2) dss(2) in \<open>auto simp: assign_job_def\<close>)
    moreover have "\<exists>n. plan os reads f w0 [Stat dir] (listed os w0 [dir]) n"
      using Suc.prems(2) dss(2) by (intro plan_stat) simp
    ultimately obtain n where "plan os reads f w0 (Stat dir # map (assign_job dir) (filter fi_dir fis)) (listed os w0 ds) n"
      using plan_append [of os reads f w0 "[Stat dir]"] dss(2) listed_simps(2) [of os w0 "[dir]" "concat dss"] by fastforce
    with Done show ?thesis by (auto intro!: exI [of _ "Suc n"] plan.assign)
  qed
qed simp

lemma plan_search:
  "targets depth os w0 dir uid = Some ds \<Longrightarrow> \<forall>d \<in> set ds. tasks_of d \<in> reads \<Longrightarrow>
     \<exists>n. plan os reads f w0 [Search dir uid] (listed os w0 ds) n"
proof (induction depth arbitrary: dir ds)
  case (Suc depth)
  show ?case
  proof (cases "os_readdir os w0 dir")
    case (Fail e)
    then show ?thesis using Suc.prems by (auto intro!: exI [of _ "Suc 0"] plan.search)
  next
    case (Done fis)
    let ?sub = "\<lambda>fi. if strings_Contains (fi_name fi) uid
      then subtree depth os w0 (filepath_Join [dir, fi_name fi])
      else targets depth os w0 (filepath_Join [dir, fi_name fi]) uid"
    obtain dss where dss: "those (map ?sub (filter fi_dir fis)) = Some dss" "ds = concat dss"
      using Suc.prems(1) Done by auto
    have "\<exists>n. plan os reads f w0 (map (found_job dir uid) (filter fi_dir fis)) (listed os w0 (concat dss)) n"
    proof (rule plan_entries [OF dss(1)])
      fix fi :: file_info and es
      assume h: "?sub fi = Some es" "es \<in> set dss"
      have ok: "\<forall>d \<in> set es. tasks_of d \<in> reads" using Suc.prems(2) dss(2) h(2) by auto
      show "\<exists>n. plan os reads f w0 [found_job dir uid fi] (listed os w0 es) n"
        using h(1) Suc.IH [OF _ ok] plan_assign [OF _ ok] by (simp add: found_job_def Let_def split: if_splits)
    qed
    then obtain n where "plan os reads f w0 (map (found_job dir uid) (filter fi_dir fis)) (listed os w0 ds) n"
      using dss(2) by blast
    with Done show ?thesis by (auto intro!: exI [of _ "Suc n"] plan.search)
  qed
qed simp


section \<open>The interleaved run\<close>

text \<open>
  Where the synchronisation is: \<open>P k\<close> and \<open>N k\<close> are what goroutine \<open>k\<close> has left to write and to
  do, \<open>P0\<close> what it had at the start. A process that is alive is where it was and all its writes are
  to come, or it is in a group that some goroutine assigns it, and in no other.
\<close>

definition sync_inv ::
    "'w os \<Rightarrow> string set \<Rightarrow> string set \<Rightarrow> ('w \<Rightarrow> bool) \<Rightarrow> ('w \<Rightarrow> string \<Rightarrow> bool) \<Rightarrow> string set \<Rightarrow> 'w \<Rightarrow> (nat \<Rightarrow> string) \<Rightarrow>
     (nat \<Rightarrow> string list) \<Rightarrow> (nat \<Rightarrow> string list) \<Rightarrow> (nat \<Rightarrow> nat) \<Rightarrow> goroutine list \<Rightarrow> 'w \<Rightarrow> bool" where
  "sync_inv os files reads ok live procs w0 F P0 P N gs w \<longleftrightarrow>
     same_reads os reads ok w0 w \<and> live w = live w0
     \<and> (\<forall>k < length gs. fst (gs ! k) = F k \<and> F k \<in> files \<and> set (P k) \<subseteq> set (P0 k) \<and> set (P0 k) \<subseteq> procs
          \<and> plan os reads (F k) w0 (snd (gs ! k)) (P k) (N k))
     \<and> (\<forall>pid. live w0 pid \<longrightarrow>
          groups_of os files w pid = groups_of os files w0 pid \<and> (\<forall>k < length gs. pid \<in> set (P0 k) \<longrightarrow> pid \<in> set (P k))
          \<or> (\<exists>k < length gs. pid \<in> set (P0 k) \<and> groups_of os files w pid = {F k}))"

lemma sync_inv_step:
  assumes inv: "sync_inv os files reads ok live procs w0 F P0 P N gs w"
    and step: "sync_step os (gs, w) (gs1, w1)"
    and kernel: "moves_processes os files ok live procs" "tree_stable os files reads ok"
  shows "\<exists>P1 N1. sync_inv os files reads ok live procs w0 F P0 P1 N1 gs1 w1 \<and> length gs1 = length gs
    \<and> Suc (\<Sum>k < length gs. N1 k) = (\<Sum>k < length gs. N k)"
proof -
  obtain k f j js js1 where job: "k < length gs" "gs ! k = (f, j # js)" "job_step os f j w = (js1, w1)"
    "gs1 = gs[k := (f, js1 @ js)]"
    using step by (elim sync_stepE) auto
  note I = inv [unfolded sync_inv_def]
  have k: "f = F k" "F k \<in> files" "set (P k) \<subseteq> set (P0 k)" "set (P0 k) \<subseteq> procs"
    "plan os reads (F k) w0 (j # js) (P k) (N k)"
    using I job by auto
  have sum: "Suc (\<Sum>i < length gs. (N(k := n)) i) = (\<Sum>i < length gs. N i)" if "N k = Suc n" for n
    using that job by (simp add: sum.remove [of "{..<length gs}" k])
  have same: "same_reads os reads ok w0 w" and live: "live w = live w0" using I by blast+
  have procs: "set (P k) \<subseteq> procs" using k(3,4) by blast
  from job k(1) have js: "job_step os (F k) j w = (js1, w1)" by simp
  show ?thesis
  proof (rule plan_step [OF k(5) same k(2) kernel procs js])
    fix n' assume h: "N k = Suc n'" "plan os reads (F k) w0 (js1 @ js) (P k) n'" "w1 = w"
    have "sync_inv os files reads ok live procs w0 F P0 P (N(k := n')) gs1 w1"
      unfolding sync_inv_def using I job k h by (simp add: nth_list_update)
    with sum [OF h(1)] job show ?thesis by (intro exI [of _ P] exI [of _ "N(k := n')"]) simp
  next
    fix p pids' n'
    assume h: "N k = Suc n'" "P k = p # pids'" "plan os reads (F k) w0 (js1 @ js) pids' n'"
      "same_reads os reads ok w0 w1" "live w1 = live w"
      "groups_of os files w1 = (if live w p then (groups_of os files w)(p := {F k}) else groups_of os files w)"
    have "sync_inv os files reads ok live procs w0 F P0 (P(k := pids')) (N(k := n')) gs1 w1"
      unfolding sync_inv_def
    proof (intro conjI allI impI)
      fix pid assume alive: "live w0 pid"
      show "groups_of os files w1 pid = groups_of os files w0 pid
            \<and> (\<forall>i < length gs1. pid \<in> set (P0 i) \<longrightarrow> pid \<in> set ((P(k := pids')) i))
          \<or> (\<exists>i < length gs1. pid \<in> set (P0 i) \<and> groups_of os files w1 pid = {F i})"
      proof (cases "pid = p")
        case True
        with h(2) k(3) alive live h(6) job show ?thesis by (intro disjI2 exI [of _ k]) auto
      next
        case False
        moreover have "groups_of os files w pid = groups_of os files w0 pid
              \<and> (\<forall>i < length gs. pid \<in> set (P0 i) \<longrightarrow> pid \<in> set (P i))
            \<or> (\<exists>i < length gs. pid \<in> set (P0 i) \<and> groups_of os files w pid = {F i})"
          using I alive by blast
        moreover have "length gs1 = length gs" using job by simp
        moreover have "groups_of os files w1 pid = groups_of os files w pid" using False h(6) by simp
        ultimately show ?thesis using h(2) by (metis fun_upd_apply set_ConsD)
      qed
    qed (use I job k h in \<open>auto simp: nth_list_update\<close>)
    with sum [OF h(1)] job show ?thesis by (intro exI [of _ "P(k := pids')"] exI [of _ "N(k := n')"]) simp
  qed
qed

text \<open>Any number of steps; \<open>m\<close> steps take \<open>m\<close> off the work.\<close>

lemma sync_inv_steps:
  assumes "(sync_step os ^^ m) (gs, w) (gs1, w1)" and "sync_inv os files reads ok live procs w0 F P0 P N gs w"
    and "moves_processes os files ok live procs" and "tree_stable os files reads ok"
  shows "\<exists>P1 N1. sync_inv os files reads ok live procs w0 F P0 P1 N1 gs1 w1 \<and> length gs1 = length gs
    \<and> (\<Sum>k < length gs. N1 k) + m = (\<Sum>k < length gs. N k)"
  using assms(1)
proof (induction m arbitrary: gs1 w1)
  case 0
  with assms(2) show ?case by auto
next
  case (Suc m)
  then obtain gs2 w2 where s: "(sync_step os ^^ m) (gs, w) (gs2, w2)" "sync_step os (gs2, w2) (gs1, w1)"
    by auto
  from Suc.IH [OF s(1)] obtain P2 N2 where i: "sync_inv os files reads ok live procs w0 F P0 P2 N2 gs2 w2"
    "length gs2 = length gs" "(\<Sum>k < length gs. N2 k) + m = (\<Sum>k < length gs. N k)" by blast
  from sync_inv_step [OF i(1) s(2) assms(3,4)] i(2,3) show ?case by (metis add_Suc_right add_Suc)
qed

text \<open>The processes of a pod: those listed below the directories of both spellings of its UID.\<close>

definition pod_dirs :: "nat \<Rightarrow> 'w os \<Rightarrow> 'w \<Rightarrow> string \<Rightarrow> string list option" where
  "pod_dirs depth os w uid =
     (case (targets depth os w CgroupCpusetRootPath (strings_ReplaceAll uid (CHR ''-'') (CHR ''_'')),
            targets depth os w CgroupCpusetRootPath uid) of
        (Some ds1, Some ds2) \<Rightarrow> Some (ds1 @ ds2) | _ \<Rightarrow> None)"

definition pod_pids :: "nat \<Rightarrow> 'w os \<Rightarrow> 'w \<Rightarrow> string \<Rightarrow> string list" where
  "pod_pids depth os w uid = (case pod_dirs depth os w uid of None \<Rightarrow> [] | Some ds \<Rightarrow> listed os w ds)"

definition group_files :: "string \<Rightarrow> (string \<times> string) list \<Rightarrow> string set" where
  "group_files root ps = group_file root ` snd ` set ps"

text \<open>The tasks files and the processes of all pods.\<close>

definition cgroup_tasks :: "nat \<Rightarrow> 'w os \<Rightarrow> (string \<times> string) list \<Rightarrow> 'w \<Rightarrow> string set" where
  "cgroup_tasks depth os ps w = (\<Union>(uid, g) \<in> set ps. tasks_of ` set (the (pod_dirs depth os w uid)))"

definition listed_procs :: "nat \<Rightarrow> 'w os \<Rightarrow> (string \<times> string) list \<Rightarrow> 'w \<Rightarrow> string set" where
  "listed_procs depth os ps w = (\<Union>(uid, g) \<in> set ps. set (pod_pids depth os w uid))"

text \<open>The cgroup tree is no deeper than \<open>depth\<close>.\<close>

definition tree_fits :: "nat \<Rightarrow> 'w os \<Rightarrow> (string \<times> string) list \<Rightarrow> 'w \<Rightarrow> bool" where
  "tree_fits depth os ps w \<longleftrightarrow> list_all (\<lambda>(uid, g). pod_dirs depth os w uid \<noteq> None) ps"

lemma plan_spawn:
  assumes "tree_fits depth os ps w" and "p \<in> set ps"
  shows "\<exists>n. plan os (cgroup_tasks depth os ps w) (group_file root (snd p)) w (snd (spawn root p))
    (pod_pids depth os w (fst p)) n"
proof -
  let ?uid = "strings_ReplaceAll (fst p) (CHR ''-'') (CHR ''_'')" and ?reads = "cgroup_tasks depth os ps w"
  have "pod_dirs depth os w (fst p) \<noteq> None"
    using assms by (auto simp: tree_fits_def list_all_iff)
  then obtain ds1 ds2 where ds: "targets depth os w CgroupCpusetRootPath ?uid = Some ds1"
    "targets depth os w CgroupCpusetRootPath (fst p) = Some ds2" "pod_dirs depth os w (fst p) = Some (ds1 @ ds2)"
    by (auto simp: pod_dirs_def split: option.splits)
  have reads: "\<forall>d \<in> set (ds1 @ ds2). tasks_of d \<in> ?reads"
    unfolding cgroup_tasks_def using assms(2) ds(3) by (intro ballI UN_I [of p]) (auto split: prod.split)
  from plan_search [OF ds(1)] plan_search [OF ds(2)] reads
  obtain n m where "plan os ?reads (group_file root (snd p)) w
      [Search CgroupCpusetRootPath ?uid] (listed os w ds1) n"
    "plan os ?reads (group_file root (snd p)) w
      [Search CgroupCpusetRootPath (fst p)] (listed os w ds2) m"
    by (metis Un_iff set_append)
  from plan_append [OF this] ds(3) show ?thesis
    by (auto simp: spawn_def pod_pids_def split: prod.split)
qed

lemma sync_inv_start:
  assumes "tree_fits depth os ps w" and "ok w"
  obtains N where "sync_inv os (group_files root ps) (cgroup_tasks depth os ps w) ok live (listed_procs depth os ps w) w
    (\<lambda>k. group_file root (snd (ps ! k)))
    (\<lambda>k. pod_pids depth os w (fst (ps ! k))) (\<lambda>k. pod_pids depth os w (fst (ps ! k))) N (map (spawn root) ps) w"
proof -
  have "\<forall>k. \<exists>n. k < length ps \<longrightarrow> plan os (cgroup_tasks depth os ps w) (group_file root (snd (ps ! k))) w
      (snd (spawn root (ps ! k))) (pod_pids depth os w (fst (ps ! k))) n"
    using plan_spawn [OF assms(1)] by (metis nth_mem)
  then obtain N where N: "\<forall>k < length ps. plan os (cgroup_tasks depth os ps w) (group_file root (snd (ps ! k))) w
      (snd (spawn root (ps ! k))) (pod_pids depth os w (fst (ps ! k))) (N k)"
    by metis
  have "set (pod_pids depth os w (fst (ps ! k))) \<subseteq> listed_procs depth os ps w" if "k < length ps" for k
    unfolding listed_procs_def using nth_mem [OF that] by (intro subsetI UN_I [of "ps ! k"]) (auto split: prod.split)
  with N have "sync_inv os (group_files root ps) (cgroup_tasks depth os ps w) ok live (listed_procs depth os ps w) w
    (\<lambda>k. group_file root (snd (ps ! k)))
    (\<lambda>k. pod_pids depth os w (fst (ps ! k))) (\<lambda>k. pod_pids depth os w (fst (ps ! k))) N (map (spawn root) ps) w"
    by (simp add: sync_inv_def same_reads_refl assms(2) group_files_def)
  then show thesis by (rule that)
qed

text \<open>
  C25: Whatever the order in which the goroutines make their system calls, when the synchronisation
  has ended a process that lives is in a group that some pod listing it is assigned, and in no
  other of the pods' groups; a process listed by pods of one group only is in that group, and a
  process that no pod lists has not moved. The kernel is assumed to behave as resctrl is documented:
  writes move processes and leave the cgroup tree alone; that no process or directory comes or goes
  meanwhile is part of it.
\<close>

theorem interleaved_sync_moves:
  assumes "tree_stable os (group_files root ps) (cgroup_tasks depth os ps w) ok"
    and "moves_processes os (group_files root ps) ok live (listed_procs depth os ps w)"
    and "tree_fits depth os ps w" and "ok w"
    and "(sync_step os)\<^sup>*\<^sup>* (map (spawn root) ps, w) (gs, w1)" and "all_done gs" and "live w pid"
  shows "let groups = {g. \<exists>uid. (uid, g) \<in> set ps \<and> pid \<in> set (pod_pids depth os w uid)};
      now = groups_of os (group_files root ps) w1 pid
    in if groups = {} then now = groups_of os (group_files root ps) w pid
       else \<exists>g \<in> groups. now = {group_file root g}"
proof -
  let ?F = "\<lambda>k. group_file root (snd (ps ! k))" and ?P = "\<lambda>k. pod_pids depth os w (fst (ps ! k))"
  let ?G = "groups_of os (group_files root ps)"
  obtain N where start: "sync_inv os (group_files root ps) (cgroup_tasks depth os ps w) ok live
      (listed_procs depth os ps w) w ?F ?P ?P N (map (spawn root) ps) w"
    by (rule sync_inv_start [where ok = ok and live = live, OF assms(3,4)])
  from assms(5) obtain m where "(sync_step os ^^ m) (map (spawn root) ps, w) (gs, w1)"
    by (auto simp: rtranclp_power)
  from sync_inv_steps [OF this start assms(2,1)] obtain P N1 where
    fin: "sync_inv os (group_files root ps) (cgroup_tasks depth os ps w) ok live
      (listed_procs depth os ps w) w ?F ?P P N1 gs w1" "length gs = length ps" by auto
  note I = fin(1) [unfolded sync_inv_def fin(2)]
  have over: "P k = []" if "k < length ps" for k
  proof -
    have "snd (gs ! k) = []" using assms(6) that fin(2) by (simp add: all_done_def list_all_length split_beta)
    with I that show ?thesis by (metis plan_Nil)
  qed
  have "?G w1 pid = ?G w pid \<and> (\<forall>k < length ps. pid \<in> set (?P k) \<longrightarrow> pid \<in> set (P k))
      \<or> (\<exists>k < length ps. pid \<in> set (?P k) \<and> ?G w1 pid = {?F k})"
    using I assms(7) by (elim conjE) (erule allE [where x = pid], erule mp)
  then have "?G w1 pid = ?G w pid \<and> (\<forall>k < length ps. pid \<notin> set (?P k))
      \<or> (\<exists>k < length ps. pid \<in> set (?P k) \<and> ?G w1 pid = {?F k})"
    using over by (metis empty_iff list.set(1))
  then show ?thesis
  proof
    assume "?G w1 pid = ?G w pid \<and> (\<forall>k < length ps. pid \<notin> set (?P k))"
    then show ?thesis by (force simp: Let_def in_set_conv_nth)
  next
    assume "\<exists>k < length ps. pid \<in> set (?P k) \<and> ?G w1 pid = {?F k}"
    then obtain k where "k < length ps" "pid \<in> set (?P k)" "?G w1 pid = {?F k}" by blast
    moreover from this have "(fst (ps ! k), snd (ps ! k)) \<in> set ps" by simp
    ultimately show ?thesis unfolding Let_def by (metis (mono_tags, lifting) empty_iff mem_Collect_eq)
  qed
qed

lemma plan_done: "plan os files f w0 js pids n \<Longrightarrow> n = 0 \<longleftrightarrow> js = []"
  by (cases rule: plan.cases) auto

text \<open>
  C26: The synchronisation ends under every schedule, after a number of system calls that depends
  on the tree and the pods alone; until then some goroutine can always go on.
\<close>

theorem interleaved_sync_ends:
  assumes "tree_stable os (group_files root ps) (cgroup_tasks depth os ps w) ok"
    and "moves_processes os (group_files root ps) ok live (listed_procs depth os ps w)"
    and "tree_fits depth os ps w" and "ok w"
  shows "\<exists>N. \<forall>m gs w1. (sync_step os ^^ m) (map (spawn root) ps, w) (gs, w1) \<longrightarrow>
    m \<le> N \<and> (all_done gs \<longleftrightarrow> m = N) \<and> (m < N \<longrightarrow> (\<exists>s. sync_step os (gs, w1) s))"
proof -
  let ?F = "\<lambda>k. group_file root (snd (ps ! k))" and ?P = "\<lambda>k. pod_pids depth os w (fst (ps ! k))"
  obtain N where start: "sync_inv os (group_files root ps) (cgroup_tasks depth os ps w) ok live
      (listed_procs depth os ps w) w ?F ?P ?P N (map (spawn root) ps) w"
    by (rule sync_inv_start [where ok = ok and live = live, OF assms(3,4)])
  show ?thesis
  proof (intro exI allI impI)
    fix m gs w1 assume "(sync_step os ^^ m) (map (spawn root) ps, w) (gs, w1)"
    from sync_inv_steps [OF this start assms(2,1)] obtain P N1 where
      fin: "sync_inv os (group_files root ps) (cgroup_tasks depth os ps w) ok live
        (listed_procs depth os ps w) w ?F ?P P N1 gs w1" "length gs = length ps"
        "(\<Sum>k < length ps. N1 k) + m = (\<Sum>k < length ps. N k)" by auto
    have "N1 k = 0 \<longleftrightarrow> snd (gs ! k) = []" if "k < length gs" for k
      using fin(1) that plan_done unfolding sync_inv_def by fastforce
    then have done_iff: "all_done gs \<longleftrightarrow> (\<Sum>k < length ps. N1 k) = 0"
      using fin(2) by (auto simp: all_done_def list_all_length split_beta)
    have "\<exists>s. sync_step os (gs, w1) s" if "\<not> all_done gs"
    proof -
      from that obtain k where k: "k < length gs" "snd (gs ! k) \<noteq> []"
        by (auto simp: all_done_def list_all_length split_beta)
      then obtain f j js where "gs ! k = (f, j # js)" by (metis list.exhaust prod.collapse)
      with k(1) show ?thesis by (metis sync_step.job surj_pair)
    qed
    then show "m \<le> (\<Sum>k < length ps. N k) \<and> (all_done gs \<longleftrightarrow> m = (\<Sum>k < length ps. N k))
        \<and> (m < (\<Sum>k < length ps. N k) \<longrightarrow> (\<exists>s. sync_step os (gs, w1) s))"
      using done_iff fin(3) by auto
  qed
qed


section \<open>A concrete synchronisation\<close>

text \<open>
  Processes 7 and 8 belong to the first pod, 9, which is gone, to the second; process 1 belongs to
  none. At the start all are in the default group.
\<close>

definition sample_pods :: "(string \<times> string) list" where
  "sample_pods = [(''a-b'', ''gold''), (''other'', ''silver'')]"

definition sample_ok :: "resctrl_world \<Rightarrow> bool" where
  "sample_ok w \<longleftrightarrow> same_groups sample_state w \<and> plain_groups w"

definition sample_live :: "resctrl_world \<Rightarrow> string \<Rightarrow> bool" where
  "sample_live w pid \<longleftrightarrow> pid \<in> set (rw_live w)"

abbreviation sample_files :: "string set" where
  "sample_files \<equiv> group_files ''/sys/fs/resctrl'' sample_pods"

lemma sample_files_set: "f \<in> sample_files \<Longrightarrow> f \<in> fst ` set (rw_groups sample_state)"
proof -
  have "list_all (\<lambda>p. group_file ''/sys/fs/resctrl'' (snd p) \<in> set (map fst (rw_groups sample_state))) sample_pods"
    by code_simp
  then show "f \<in> sample_files \<Longrightarrow> f \<in> fst ` set (rw_groups sample_state)"
    by (auto simp: group_files_def list_all_iff)
qed

lemma sample_ok_put:
  assumes "sample_ok w"
  shows "sample_ok (fst (os_put resctrl_os w f s))"
proof -
  have "list_all plain_line (rw_live sample_state)" by code_simp
  then have "\<forall>pid \<in> set (rw_live w). plain_line pid"
    using assms by (simp add: sample_ok_def same_groups_def list_all_iff)
  then show ?thesis
    using assms plain_groups_put resctrl_os_put_keeps(1) by (simp add: sample_ok_def)
qed

lemma sample_tasks: "p \<in> cgroup_tasks 5 resctrl_os sample_pods sample_state \<Longrightarrow> p \<notin> fst ` set (rw_groups sample_state)"
proof -
  have "list_all (\<lambda>p. p \<notin> set (map fst (rw_groups sample_state)))
      (concat (map (\<lambda>(uid, g). map tasks_of (the (pod_dirs 5 resctrl_os sample_state uid))) sample_pods))"
    by code_simp
  moreover have "cgroup_tasks 5 resctrl_os sample_pods sample_state =
      set (concat (map (\<lambda>(uid, g). map tasks_of (the (pod_dirs 5 resctrl_os sample_state uid))) sample_pods))"
    by (auto simp: cgroup_tasks_def)
  ultimately show "p \<in> cgroup_tasks 5 resctrl_os sample_pods sample_state \<Longrightarrow> p \<notin> fst ` set (rw_groups sample_state)"
    unfolding list_all_iff by (metis list.set_map)
qed

lemma sample_stable: "tree_stable resctrl_os sample_files (cgroup_tasks 5 resctrl_os sample_pods sample_state) sample_ok"
  unfolding tree_stable_def keeps_dirs_def
  using sample_ok_put resctrl_os_put_keeps(2-4) sample_tasks by (metis sample_ok_def)

lemma sample_in_group:
  assumes "sample_ok w" and "f \<in> sample_files"
  shows "in_group resctrl_os w pid f \<longleftrightarrow> pid \<in> set (the (map_of (rw_groups w) f))"
proof -
  have "fst ` set (rw_groups w) = fst ` set (rw_groups sample_state)"
    using assms(1) same_groups_names by (simp add: sample_ok_def)
  then obtain pids where pids: "map_of (rw_groups w) f = Some pids"
    using sample_files_set [OF assms(2)] by (metis map_of_eq_None_iff option.exhaust)
  then have "(f, pids) \<in> set (rw_groups w)" by (rule map_of_SomeD)
  then have "\<forall>p \<in> set pids. plain_line p"
    using assms(1) unfolding sample_ok_def plain_groups_def list_all_iff by blast
  then show ?thesis by (simp add: in_group_def resctrl_os_calls pids scan_tasks)
qed

lemma sample_procs: "listed_procs 5 resctrl_os sample_pods sample_state = {''7'', ''8'', ''9''}"
proof -
  have "map (\<lambda>(uid, g). pod_pids 5 resctrl_os sample_state uid) sample_pods = [[''7'', ''8''], [''9'', ''9'']]"
    by code_simp
  moreover have "listed_procs 5 resctrl_os sample_pods sample_state =
      set (concat (map (\<lambda>(uid, g). pod_pids 5 resctrl_os sample_state uid) sample_pods))"
    by (auto simp: listed_procs_def)
  ultimately show ?thesis by simp
qed

lemma sample_moves:
  "moves_processes resctrl_os sample_files sample_ok sample_live (listed_procs 5 resctrl_os sample_pods sample_state)"
  unfolding moves_processes_def
proof (intro allI impI ballI conjI)
  fix w f assume ok: "sample_ok w" and f: "f \<in> sample_files"
  have names: "fst ` set (rw_groups w) = fst ` set (rw_groups sample_state)"
    using ok same_groups_names by (simp add: sample_ok_def)
  with sample_files_set [OF f] have fw: "f \<in> fst ` set (rw_groups w)" by simp
  then show "os_writable resctrl_os w f = Done ()" by (simp add: resctrl_os_def)
  fix pid assume "pid \<in> listed_procs 5 resctrl_os sample_pods sample_state"
  then have "pid \<in> set [''7'', ''8'', ''9'']" by (simp add: sample_procs)
  moreover have "list_all (\<lambda>pid. go_is_ok (strconv_Atoi pid)) [''7'', ''8'', ''9'']" by code_simp
  ultimately have number: "go_is_ok (strconv_Atoi pid)" unfolding list_all_iff by blast
  obtain w1 r where put: "os_put resctrl_os w f pid = (w1, r)" by fastforce
  then have ok1: "sample_ok w1" using sample_ok_put [OF ok, of f pid] by simp
  have res: "if sample_live w pid then r = Done () \<and> w1 = w\<lparr>rw_groups := move_process f pid (rw_groups w)\<rparr>
      else r = Fail NoSuchProcess \<and> w1 = w"
    using put fw number by (auto simp: resctrl_os_def sample_live_def split: if_splits)
  have "groups_of resctrl_os sample_files w1 = (groups_of resctrl_os sample_files w)(pid := {f})"
    if "sample_live w pid"
  proof (rule ext)
    fix q
    have "in_group resctrl_os w1 q g \<longleftrightarrow> (if q = pid then g = f else in_group resctrl_os w q g)"
      if g: "g \<in> sample_files" for g
    proof -
      obtain pids where "map_of (rw_groups w) g = Some pids"
        using sample_files_set [OF g] names by (metis map_of_eq_None_iff option.exhaust)
      then show ?thesis
        using res \<open>sample_live w pid\<close> sample_in_group [OF ok g] sample_in_group [OF ok1 g]
        by (auto simp: map_of_move_process)
    qed
    then show "groups_of resctrl_os sample_files w1 q = ((groups_of resctrl_os sample_files w)(pid := {f})) q"
      using f by (auto simp: groups_of_def)
  qed
  moreover have "sample_live w1 = sample_live w"
    using res by (auto simp: sample_live_def fun_eq_iff split: if_splits)
  ultimately show "let (w1, r) = os_put resctrl_os w f pid in sample_live w1 = sample_live w
      \<and> (if sample_live w pid
         then r = Done () \<and> groups_of resctrl_os sample_files w1 = (groups_of resctrl_os sample_files w)(pid := {f})
         else r = Fail NoSuchProcess \<and> groups_of resctrl_os sample_files w1 = groups_of resctrl_os sample_files w)"
    using res by (auto simp: put)
qed

lemma sample_tree_fits: "tree_fits 5 resctrl_os sample_pods sample_state"
  by code_simp

lemma sample_ok_start: "sample_ok sample_state"
  by code_simp

lemma sample_sync: "assign_all 5 resctrl_os ''/sys/fs/resctrl'' sample_pods sample_state = Some sample_moved"
  by code_simp

lemma sample_pids: "pod_pids 5 resctrl_os sample_state ''a-b'' = [''7'', ''8'']"
  "pod_pids 5 resctrl_os sample_state ''other'' = [''9'', ''9'']"
  by code_simp+

lemma synced_run:
  obtains gs m where "(sync_step resctrl_os ^^ m) (map (spawn ''/sys/fs/resctrl'') sample_pods, sample_state) (gs, sample_moved)"
    "all_done gs"
proof -
  from assign_all_runs [OF sample_sync, of "[]"] have
    "(sync_step resctrl_os)\<^sup>*\<^sup>* (map (spawn ''/sys/fs/resctrl'') sample_pods, sample_state)
      (map (\<lambda>p. (group_file ''/sys/fs/resctrl'' (snd p), [])) sample_pods, sample_moved)"
    by simp
  moreover have "all_done (map (\<lambda>p. (group_file ''/sys/fs/resctrl'' (snd p), [])) sample_pods)"
    by (simp add: all_done_def list_all_iff)
  ultimately show thesis using that by (auto simp: rtranclp_power)
qed

theorem sequential_sync_interleaves_witness:
  "\<exists>gs. (sync_step resctrl_os)\<^sup>*\<^sup>* (map (spawn ''/sys/fs/resctrl'') sample_pods, sample_state) (gs, sample_moved)
     \<and> all_done gs"
  by (rule sequential_sync_interleaves [OF sample_sync])

theorem interleaved_sync_moves_witness:
  "\<exists>gs w1. (sync_step resctrl_os)\<^sup>*\<^sup>* (map (spawn ''/sys/fs/resctrl'') sample_pods, sample_state) (gs, w1)
     \<and> all_done gs
     \<and> groups_of resctrl_os sample_files w1 ''7'' = {group_file ''/sys/fs/resctrl'' ''gold''}
     \<and> groups_of resctrl_os sample_files w1 ''1'' = groups_of resctrl_os sample_files sample_state ''1''"
proof -
  obtain gs m where run: "(sync_step resctrl_os ^^ m)
      (map (spawn ''/sys/fs/resctrl'') sample_pods, sample_state) (gs, sample_moved)" "all_done gs"
    using synced_run .
  then have star: "(sync_step resctrl_os)\<^sup>*\<^sup>*
      (map (spawn ''/sys/fs/resctrl'') sample_pods, sample_state) (gs, sample_moved)"
    by (auto simp: rtranclp_power)
  note moves = interleaved_sync_moves [OF sample_stable sample_moves sample_tree_fits sample_ok_start star run(2)]
  have live: "sample_live sample_state ''7''" "sample_live sample_state ''1''" by code_simp+
  have "{g. \<exists>uid. (uid, g) \<in> set sample_pods \<and> ''7'' \<in> set (pod_pids 5 resctrl_os sample_state uid)} = {''gold''}"
    "{g. \<exists>uid. (uid, g) \<in> set sample_pods \<and> ''1'' \<in> set (pod_pids 5 resctrl_os sample_state uid)} = {}"
    by (auto simp: sample_pods_def sample_pids)
  with moves [OF live(1)] moves [OF live(2)] star run(2) show ?thesis
    by (intro exI [of _ gs] exI [of _ sample_moved]) simp
qed

theorem interleaved_sync_ends_witness:
  "\<exists>N gs w1. (sync_step resctrl_os ^^ N) (map (spawn ''/sys/fs/resctrl'') sample_pods, sample_state) (gs, w1)
     \<and> all_done gs"
proof -
  obtain N where N: "\<forall>m gs w1. (sync_step resctrl_os ^^ m)
      (map (spawn ''/sys/fs/resctrl'') sample_pods, sample_state) (gs, w1) \<longrightarrow>
      m \<le> N \<and> (all_done gs \<longleftrightarrow> m = N) \<and> (m < N \<longrightarrow> (\<exists>s. sync_step resctrl_os (gs, w1) s))"
    using interleaved_sync_ends [OF sample_stable sample_moves sample_tree_fits sample_ok_start] by blast
  obtain gs m where run: "(sync_step resctrl_os ^^ m)
      (map (spawn ''/sys/fs/resctrl'') sample_pods, sample_state) (gs, sample_moved)" "all_done gs"
    using synced_run .
  with N have "m = N" by blast
  with run show ?thesis by blast
qed

end
