(* ===== verification/CacheWarmUp.thy ===== *)
theory CacheWarmUp
  imports CrdPolicyProps
begin

text \<open>
  The start of the pod cache. The NRI plugin is running before \<open>initPodCache\<close> of
  \<open>pkg/agent/agent.go\<close> asks for the pods, so pod events arrive between the answer and the calls
  of \<^verbatim>\<open>UpdatePod\<close> for the listed pods; the lock of the cache orders the single calls only.
\<close>

section \<open>Listed pods and events, interleaved\<close>

text \<open>
  \<open>warm_up ps es c c'\<close>: the listed pods \<open>ps\<close> are cached one by one while the events \<open>es\<close> arrive, in
  any order between the two; \<open>c\<close> is the cache when the list was answered, \<open>c'\<close> the one at the end.
\<close>

inductive warm_up ::
    "k8s_pod list \<Rightarrow> nri_event list \<Rightarrow> store \<times> pod_cache \<Rightarrow> store \<times> pod_cache \<Rightarrow> bool" where
  over: "warm_up [] [] c c"
| listed: "warm_up ps es (cache_pod (k8s_arrived p) c) c' \<Longrightarrow> warm_up (p # ps) es c c'"
| event: "warm_up ps es (nri_step e c) c' \<Longrightarrow> warm_up ps (e # es) c c'"

inductive_cases warm_up_pods: "warm_up (p # ps) [] c c'"

text \<open>Without events this is \<open>initPodCache\<close>.\<close>

lemma warm_up_alone: "warm_up ps [] c c' \<longleftrightarrow> c' = fold (\<lambda>p. cache_pod (k8s_arrived p)) ps c"
proof (induction ps arbitrary: c)
  case Nil
  then show ?case by (auto intro: warm_up.intros elim: warm_up.cases)
next
  case (Cons p ps)
  show ?case
    unfolding fold_simps Cons.IH [symmetric] by (auto intro: warm_up.listed elim: warm_up_pods)
qed

definition listed_as :: "string \<Rightarrow> k8s_pod \<Rightarrow> bool" where
  "listed_as u p \<longleftrightarrow> kp_uid p = u \<and> u \<noteq> ''''"

definition listed_view ::
    "k8s_pod \<Rightarrow> (string \<times> string \<times> string \<times> (string \<rightharpoonup> string) option) option" where
  "listed_view p = Some (arrived_view (k8s_arrived p))"

text \<open>One step of either side, as the contract of the cache has it.\<close>

lemma listed_step:
  assumes "cache_ok c" and "arrived_ok (k8s_arrived p)"
  shows "cache_ok (cache_pod (k8s_arrived p) c)
    \<and> cache_view (cache_pod (k8s_arrived p) c) u = (if listed_as u p then listed_view p else cache_view c u)"
  using pod_cache.ok_update [OF assms] pod_cache.view_update [OF assms]
  by (simp add: listed_as_def listed_view_def k8s_arrived_def)

lemma nri_one_step:
  assumes "cache_ok c" and "nri_ok e"
  shows "cache_ok (nri_step e c)
    \<and> cache_view (nri_step e c) u = (if about_uid u e then cached_by e else cache_view c u)"
proof (cases e)
  case (RunPod p)
  have "arrived_ok (sandbox_pod p)" using assms(2) RunPod by simp
  from pod_cache.ok_update [OF assms(1) this] pod_cache.view_update [OF assms(1) this] show ?thesis
    using assms(1) RunPod by (auto simp: RunPodSandbox_def sandbox_pod_def)
next
  case (StopPod p)
  from pod_cache.ok_del [OF assms(1), of "sb_uid p"] pod_cache.view_del [OF assms(1), of "sb_uid p"] show ?thesis
    using StopPod by (auto simp: StopPodSandbox_def)
qed

text \<open>The value under a UID: the old one, the last of one side, or the last of the other.\<close>

definition settled :: "'a \<Rightarrow> 'a list \<Rightarrow> 'a list \<Rightarrow> 'a \<Rightarrow> bool" where
  "settled old xs ys v \<longleftrightarrow>
     (case (xs, ys) of ([], []) \<Rightarrow> v = old | ([], _) \<Rightarrow> v = last ys | (_, []) \<Rightarrow> v = last xs
      | _ \<Rightarrow> v = last xs \<or> v = last ys)"

lemma settled_Cons:
  "settled x xs ys v \<Longrightarrow> settled old (x # xs) ys v" "settled y xs ys v \<Longrightarrow> settled old xs (y # ys) v"
  by (auto simp: settled_def split: list.splits)

lemma warm_up_settled:
  assumes "warm_up ps es c c'" and "cache_ok c" and "\<forall>p \<in> set ps. arrived_ok (k8s_arrived p)"
    and "\<forall>e \<in> set es. nri_ok e"
  shows "cache_ok c' \<and> settled (cache_view c u) (map listed_view (filter (listed_as u) ps))
    (map cached_by (filter (about_uid u) es)) (cache_view c' u)"
  using assms
proof (induction rule: warm_up.induct)
  case (over c)
  then show ?case by (simp add: settled_def)
next
  case (listed ps es p c c')
  then have "cache_ok c" "arrived_ok (k8s_arrived p)" by simp_all
  from listed_step [OF this, of u] listed.IH listed.prems show ?case
    by (auto intro: settled_Cons)
next
  case (event ps es e c c')
  then have "cache_ok c" "nri_ok e" by simp_all
  from nri_one_step [OF this, of u] event.IH event.prems show ?case
    by (auto intro: settled_Cons)
qed

text \<open>
  C17: However pod events come between the listed pods, the cache stays well formed, and what it
  ends with under a UID is the last listed pod of that UID or the last event about it, whichever
  there is; a pod of which nothing happens meanwhile is cached as it was listed, and a UID with
  neither keeps its entry.
\<close>

theorem warm_up_result:
  assumes "warm_up ps es c c'" and "cache_ok c" and "\<forall>p \<in> set ps. arrived_ok (k8s_arrived p)"
    and "\<forall>e \<in> set es. nri_ok e"
  shows "cache_ok c' \<and> (case (filter (listed_as u) ps, filter (about_uid u) es) of
      ([], []) \<Rightarrow> cache_view c' u = cache_view c u
    | ([], ds) \<Rightarrow> cache_view c' u = cached_by (last ds)
    | (qs, []) \<Rightarrow> cache_view c' u = listed_view (last qs)
    | (qs, ds) \<Rightarrow> cache_view c' u \<in> {listed_view (last qs), cached_by (last ds)})"
  using warm_up_settled [OF assms, of u]
  by (auto simp: settled_def last_map split: list.splits)

text \<open>
  C18: A pod that stops between the list and its entry stays in the cache: its entry is written after
  its stop was handled, and as its UID is never heard of again, no later event takes it out. Handled
  after the entry, the same event removes it.
\<close>

theorem stopped_pod_stays_cached:
  assumes "cache_ok c" and "arrived_ok (k8s_arrived p)" and "kp_uid p \<noteq> ''''" and "sb_uid s = kp_uid p"
    and "\<forall>e \<in> set es. nri_ok e" and "\<forall>e \<in> set es. \<not> about_uid (kp_uid p) e"
  shows "(\<exists>c'. warm_up [p] [StopPod s] c c' \<and> cache_view (fold nri_step es c') (kp_uid p) = listed_view p)
    \<and> (\<exists>c'. warm_up [p] [StopPod s] c c' \<and> cache_view (fold nri_step es c') (kp_uid p) = None)"
proof -
  have later: "cache_view (fold nri_step es d) (kp_uid p) = cache_view d (kp_uid p)" if "cache_ok d" for d
    using assms(5,6) that
  proof (induction es arbitrary: d)
    case (Cons e es)
    with nri_one_step [of d e "kp_uid p"] show ?case by simp
  qed simp
  let ?stop = "nri_step (StopPod s)" and ?add = "cache_pod (k8s_arrived p)"
  have late: "warm_up [p] [StopPod s] c (?add (?stop c))"
    by (intro warm_up.event warm_up.listed warm_up.over)
  have early: "warm_up [p] [StopPod s] c (?stop (?add c))"
    by (intro warm_up.listed warm_up.event warm_up.over)
  have stop: "cache_ok (?stop c)" using nri_one_step [OF assms(1), of "StopPod s"] by simp
  have add: "cache_ok (?add c)" using listed_step [OF assms(1,2)] by simp
  have "cache_view (fold nri_step es (?add (?stop c))) (kp_uid p) = listed_view p"
    using later listed_step [OF stop assms(2), of "kp_uid p"] assms(3) by (simp add: listed_as_def)
  moreover have "cache_view (fold nri_step es (?stop (?add c))) (kp_uid p) = None"
    using later nri_one_step [OF add, of "StopPod s" "kp_uid p"] assms(4) by simp
  ultimately show ?thesis using late early by blast
qed

section \<open>A concrete start\<close>

definition sample_listed :: k8s_pod where
  "sample_listed = (sample_pod ''ns'' ''p'' '''' [])\<lparr>kp_uid := ''u1'', kp_labels := Some [(''rcgroup'', ''gold'')]\<rparr>"

definition sample_sandbox :: "string \<Rightarrow> pod_sandbox" where
  "sample_sandbox uid = \<lparr>sb_name = ''p'', sb_uid = uid, sb_ns = ''ns'', sb_labels = Some [(''rcgroup'', ''gold'')]\<rparr>"

lemma sample_warm_ok:
  "cache_ok (\<lparr>st_pods = [], st_labels = []\<rparr>, [])" "arrived_ok (k8s_arrived sample_listed)"
  "nri_ok (RunPod (sample_sandbox uid))"
  by (simp_all add: cache_ok_def store_ok_def arrived_ok_def k8s_arrived_def sample_listed_def sample_sandbox_def
      sandbox_pod_def)

theorem warm_up_result_witness:
  "\<exists>c'. warm_up [sample_listed] [RunPod (sample_sandbox ''u2'')] (\<lparr>st_pods = [], st_labels = []\<rparr>, []) c'
     \<and> cache_view c' ''u1'' = listed_view sample_listed"
proof -
  have run: "\<exists>c'. warm_up [sample_listed] [RunPod (sample_sandbox ''u2'')] (\<lparr>st_pods = [], st_labels = []\<rparr>, []) c'"
    by (rule exI) (rule warm_up.event [OF warm_up.listed [OF warm_up.over]])
  then obtain c' where c': "warm_up [sample_listed] [RunPod (sample_sandbox ''u2'')] (\<lparr>st_pods = [], st_labels = []\<rparr>, []) c'"
    by blast
  have h: "\<forall>p \<in> set [sample_listed]. arrived_ok (k8s_arrived p)"
    "\<forall>e \<in> set [RunPod (sample_sandbox ''u2'')]. nri_ok e"
    using sample_warm_ok by simp_all
  have f: "filter (listed_as ''u1'') [sample_listed] = [sample_listed]"
    "filter (about_uid ''u1'') [RunPod (sample_sandbox ''u2'')] = []"
    by (simp_all add: listed_as_def sample_listed_def sample_sandbox_def)
  have "cache_view c' ''u1'' = listed_view sample_listed"
    using warm_up_result [OF c' sample_warm_ok(1) h, of "''u1''"] unfolding f by simp
  with c' show ?thesis by blast
qed

theorem stopped_pod_stays_cached_witness:
  "\<exists>c'. warm_up [sample_listed] [StopPod (sample_sandbox ''u1'')] (\<lparr>st_pods = [], st_labels = []\<rparr>, []) c'
     \<and> cache_view (fold nri_step [RunPod (sample_sandbox ''u2'')] c') ''u1'' = listed_view sample_listed"
proof -
  have h: "kp_uid sample_listed \<noteq> ''''" "sb_uid (sample_sandbox ''u1'') = kp_uid sample_listed"
    "\<forall>e \<in> set [RunPod (sample_sandbox ''u2'')]. nri_ok e"
    "\<forall>e \<in> set [RunPod (sample_sandbox ''u2'')]. \<not> about_uid (kp_uid sample_listed) e"
    using sample_warm_ok(3) by (simp_all add: sample_listed_def sample_sandbox_def)
  have u: "kp_uid sample_listed = ''u1''" by (simp add: sample_listed_def)
  from stopped_pod_stays_cached [OF sample_warm_ok(1,2) h] show ?thesis unfolding u by blast
qed

end
