(* ===== verification/Spec2Isabelle.thy ===== *)
theory Spec2Isabelle
  imports AffinityProps LoadBalanceProps NumafastProps CrdPolicyProps ObjectWatch
    ResctrlGroupProps ResctrlDepth WatcherProps AgentLoop RuntimeConfigProps MetricsProps
    ServerProcess DeepCopies UnionFindProps InformerProps ClientProps Listers
    FakeClients Schemes CopiedTypes GroupOrder Rounds SharedResource Protocol
    EndToEnd ConcurrentRequests SyncInterleaved CacheWarmUp
begin

text \<open>
  A verification of the resource-aware NRI plugins.

  \<^bold>\<open>The program.\<close> On every node of a Kubernetes cluster runs a plugin of the container runtime
  (\<^verbatim>\<open>cmd/nriplugin\<close>), made of a resource manager (\<^verbatim>\<open>pkg/resmgr\<close>) and an agent
  (\<^verbatim>\<open>pkg/agent\<close>). The runtime tells the NRI plugin which pods run; they are kept in a cache
  (\<^verbatim>\<open>pkg/typedef\<close>). The agent decides on which CPUs and NUMA nodes the containers should run,
  by one of two policies run from a timer: load balancing over the pods of a whitelist, or the
  affinity groups that a server on the node computes (\<^verbatim>\<open>cmd/grpcServer\<close>,
  \<^verbatim>\<open>cmd/netRelaServer\<close>; client in \<^verbatim>\<open>pkg/policy/numafast\<close>). The decision is written into a
  custom resource, the Oenuma (types in \<^verbatim>\<open>pkg/apis/resaware/v1alpha1\<close>). The agent watches
  that resource; a change of it becomes container updates, which the resource manager pushes to
  the runtime. Independently of this the agent watches a config map of the node or its group,
  which names control groups with cache and bandwidth priorities: they become directories of the
  resctrl file system, and the processes of the cached pods are moved into the group of their
  label (\<^verbatim>\<open>pkg/resctrl\<close>). A metrics endpoint publishes their monitoring data
  (\<^verbatim>\<open>pkg/prometheus\<close>).

  \<^bold>\<open>Conventions.\<close> A Go function that returns a value and an error, and that may panic, has a
  result of type \<^verbatim>\<open>'a go\<close>: \<^verbatim>\<open>Ok\<close>, \<^verbatim>\<open>Err\<close> with the text of the error, or
  \<^verbatim>\<open>Panic\<close>. Every index into a slice, division, nil dereference and channel operation that
  can fail in Go is written out in this way. Go maps are association lists; wherever the code ranges
  over one, the order is an argument, and the theorems hold for every order. Structs are records,
  slices are lists; only where sharing matters there is an explicit store: the labels of pods
  (\<^verbatim>\<open>PodCache\<close>) and the arrays behind slices (\<^verbatim>\<open>CopyHeap\<close>). Numbers of 32 bits are words;
  Go's int and int64 are mathematical integers where they only count or index, and bounded by hand
  where the bound shows (parsing of numbers, durations). Log output is left out. What is not Go
  code of this repository is an argument: the records \<^verbatim>\<open>cluster\<close> (API server, pod list,
  affinity service, runtime stub, converters), \<^verbatim>\<open>os\<close> (file system calls), \<^verbatim>\<open>server_env\<close>
  (process lists, container runtime, C library), \<^verbatim>\<open>apply_env\<close> (YAML decoder, range orders),
  \<^verbatim>\<open>runtime_env\<close> (TOML library, systemd), \<^verbatim>\<open>metric_env\<close> (number parser, file
  system) and \<^verbatim>\<open>setup_calls\<close> (construction of clients and watches). \<^verbatim>\<open>ClusterSample\<close> and
  \<^verbatim>\<open>OsSample\<close> are concrete instances, on which the properties are applied.

  \<^bold>\<open>Theories, in the order they build on each other.\<close>
  \<^item> \<^verbatim>\<open>GoPrelude\<close>, \<^verbatim>\<open>GoStrings\<close>, \<^verbatim>\<open>Durations\<close>, \<^verbatim>\<open>TextCodec\<close>: what the program uses of
    the language and its standard library, with the interface (locale) of text formats that are
    written and read.
  \<^item> \<^verbatim>\<open>ApiTypes\<close>: the custom resources and the messages of the affinity service.
  \<^item> \<^verbatim>\<open>UnionFind\<close>, \<^verbatim>\<open>AffinityServer\<close>, \<^verbatim>\<open>AffinityCorrect\<close>, \<^verbatim>\<open>AffinityProps\<close>,
    \<^verbatim>\<open>UnionFindProps\<close>, \<^verbatim>\<open>GroupOrder\<close>: both affinity servers. \<^verbatim>\<open>disjoint_sets\<close> is the interface between
    the grouping and the union-find array; the answers are proved to be the connected components.
    The two servers share the text of process discovery, union-find and NUMA topology; it is
    modelled once, over what their two \<^verbatim>\<open>PodInfo\<close> structs have in common.
    \<^verbatim>\<open>GroupOrder\<close> determines which answers the order of a Go map leaves open.
  \<^item> \<^verbatim>\<open>ServerProcess\<close>: start, signals and shutdown of \<^verbatim>\<open>netRelaServer\<close> as a step relation; start
    of \<^verbatim>\<open>grpcServer\<close>, which has no handler of signals.
  \<^item> \<^verbatim>\<open>Cluster\<close>, \<^verbatim>\<open>CpuBlocks\<close>, \<^verbatim>\<open>LoadBalance\<close>, \<^verbatim>\<open>LoadBalanceProps\<close>,
    \<^verbatim>\<open>NumafastUpdate\<close>, \<^verbatim>\<open>NumafastMerge\<close>, \<^verbatim>\<open>NumafastProps\<close>: the two policies of \<^verbatim>\<open>agent.go\<close>, the access to
    the resource (\<^verbatim>\<open>config-interface.go\<close>) and the affinity client. Both are compared with the
    same reference: a CPU list cut into consecutive blocks. The merge of the groups into the old
    entries has a reference of its own in \<^verbatim>\<open>NumafastMerge\<close>, that says of every entry and every name
    what becomes of it.
  \<^item> \<^verbatim>\<open>PodCache\<close>, \<^verbatim>\<open>ResourceManager\<close>, \<^verbatim>\<open>CrdPolicy\<close>, \<^verbatim>\<open>CrdPolicyProps\<close>: pod
    information and its cache (\<^verbatim>\<open>PodCacheInf\<close> is the interface), NRI plugin, resource manager,
    and the agent's reactions to the resource and to deleted pods.
  \<^item> \<^verbatim>\<open>ObjectWatch\<close>: the watch that wraps a watch of the API server
    (\<^verbatim>\<open>pkg/agent/watch\<close>), its worker, reader and stoppers as a step relation.
  \<^item> \<^verbatim>\<open>OsFiles\<close>, \<^verbatim>\<open>ResctrlGroup\<close>, \<^verbatim>\<open>ResctrlGroupProps\<close>, \<^verbatim>\<open>ResctrlTasks\<close>,
    \<^verbatim>\<open>ResctrlTasksProps\<close>, \<^verbatim>\<open>ResctrlDepth\<close>: file helpers, control groups, and the moves of
    processes.
  \<^item> \<^verbatim>\<open>Watcher\<close>, \<^verbatim>\<open>WatcherProps\<close>, \<^verbatim>\<open>AgentLoop\<close>: the configuration of the groups
    (\<^verbatim>\<open>watcher.go\<close>), and the agent as a whole: construction, set-up, select loop, stop.
  \<^item> \<^verbatim>\<open>RuntimeConfig\<close>, \<^verbatim>\<open>RuntimeConfigProps\<close>: the configuration of the container runtime
    (\<^verbatim>\<open>config-manager.go\<close>).
  \<^item> \<^verbatim>\<open>Metrics\<close>, \<^verbatim>\<open>MetricsProps\<close>: the metrics.
  \<^item> \<^verbatim>\<open>CopyHeap\<close>, \<^verbatim>\<open>DeepCopies\<close>: the generated deep copies over a heap of arrays; the
    contract of a copier is a locale, and every generated function is an interpretation of it.
    \<^verbatim>\<open>CopiedTypes\<close>: the second copies of the types, in \<^verbatim>\<open>pkg/apis/numaadj\<close> and
    \<^verbatim>\<open>pkg/apis/whitelist\<close>.
  \<^item> \<^verbatim>\<open>TypedClients\<close>, \<^verbatim>\<open>ClientProps\<close>, \<^verbatim>\<open>Informers\<close>, \<^verbatim>\<open>InformerProps\<close>,
    \<^verbatim>\<open>Listers\<close>, \<^verbatim>\<open>FakeClients\<close>, \<^verbatim>\<open>Schemes\<close>: the generated clients, informers, listers,
    fake clients and schemes of \<^verbatim>\<open>pkg/generated\<close>. A request is the list of builder calls the code makes;
    sending it is the library's. The informer factory is a step relation over its methods and the
    other factories of the process. The fake clients are compared with the typed ones, call by call.
  \<^item> \<^verbatim>\<open>EndToEnd\<close>: the affinity server, its client, the numafast policy, the resource and the
    resource manager composed. \<^verbatim>\<open>Rounds\<close>: two rounds of the numafast policy after each other.
    \<^verbatim>\<open>Protocol\<close>: the generated stubs and handlers between agent and server.
  \<^item> \<^verbatim>\<open>SharedResource\<close>: the agents of all nodes on the one resource, handler after handler.
    What an agent relies on of the others, that they change their own node only, is a locale; the
    four handlers that write are its interpretations.
  \<^item> \<^verbatim>\<open>ConcurrentRequests\<close>, \<^verbatim>\<open>SyncInterleaved\<close>, \<^verbatim>\<open>CacheWarmUp\<close>: what runs at the same
    time, as step relations over the single accesses: affinity requests, from the listing of their
    processes to their answer, on the shared array and the shared number of NUMA nodes; the
    goroutines that move processes, and the start of the pod cache beside the pod events.

  \<^bold>\<open>What the theorems show.\<close> The properties carry the numbers C1, C2, ... and stand in the
  theories whose name ends in \<^verbatim>\<open>Props\<close>, or beside a small model. Functional properties give the
  result of a whole handler on every branch, crashes included. Invariants and liveness properties
  are over the states that a step relation reaches. Several of them record what the code does
  although a comment or the evident intention says otherwise: a lost watch is never reopened,
  stopping a watch deadlocks, concurrent requests ruin each other's groups, a pod that stops while the
  cache is filled stays in it, groups are never removed, groups of pods are numbered anew in every
  request.

  \<^bold>\<open>Recursion, fuel and depth.\<close> The recursion of \<^verbatim>\<open>find\<close> has fuel, the length of the array
  plus one, more than any path of an array without cycles; the refinement theorem of union-find
  shows that it is enough in every state that requests one at a time reach; requests at once can reach
  a cycle, on which no fuel is enough and Go's stack is not either. The search of the cgroup tree has a
  depth; on a tree whose directories are ranked every depth above the rank of the root gives the
  same, complete result. All other recursion is structural.

  \<^bold>\<open>Concurrency.\<close> The sequential handlers are modelled first, and the concurrent relations are
  related to them: a request that nothing comes between computes what the sequential handler
  computes, the sequential synchronisation is one of the interleaved ones, and without events the
  start of the cache is \<^verbatim>\<open>initPodCache\<close>. A step of a request is one read or one write of a
  cell of the shared array, those inside the recursion of \<^verbatim>\<open>find\<close> included, or one group of
  its answer; the listing of its processes and a call for the NUMA nodes are one step each, as the first
  touches nothing that is shared and the second writes the number of nodes at its end only. A panic of any
  call ends the server. A step of a
  synchronisation is one system call, with a whole file read at once. The
  goroutines need no bound on the depth of the tree; that they end is proved for trees of finite
  depth. A gRPC connection is taken to run the handler of the
  method that is called and to bring back its answer. In \<^verbatim>\<open>SharedResource\<close> the
  handlers of several agents follow one another, each from its read to its write; a write of another
  agent in between, which the server refuses if the resource carries a version, is not modelled. Of
  the API server it is assumed there that a resource can be read again as it was written, or as it was before
  if the write was refused. Of the kernel two things are assumed, both hypotheses: a write to the
  tasks file of a group leaves the cgroup tree alone, its directories and the tasks files in it (the
  files of other groups may change), and a write that names a process moves it from the group that it
  was in to that group, or reports that the process is gone.

  \<^bold>\<open>Simplifications.\<close> The operations of the pod cache are atomic, as its lock makes them. The
  reads and writes of the request threads take effect at once and in one order for all, which is
  more than Go promises for accesses without a lock. The stack of a goroutine has room for
  \<open>frames\<close> callers, an argument of the threads; a request alone needs a caller per cell. Of the metadata of
  objects only name and namespace are modelled, of that of lists the version.

  \<^bold>\<open>Not modelled.\<close> The encoding of the messages of the affinity protocol, which is
  calls of a library and a descriptor for it, the flags that are only passed on to the NRI library, and the load
  generator under \<^verbatim>\<open>test\<close>. A scheme itself is a type of a library; \<^verbatim>\<open>Schemes\<close> has what the
  code registers with it. The bodies of the C libraries and of the
  libraries of Kubernetes, gRPC, NRI, TOML and YAML are outside the repository.
\<close>

end
